(* ===== verification/Prelude.thy ===== *)
theory Prelude
  imports Main "HOL-Library.Word" "HOL-Library.Char_ord" "HOL-Library.List_Lexorder"
begin

text \<open>
  Shared vocabulary of the development: machine integer types, fallible results of pure
  code, the \<open>named_theorems\<close> collections the component proofs draw on, and generic lemmas
  on lists that several components share.

  The model follows the LP64 data model the program is built for: \<open>unsigned int\<close>, \<open>uid_t\<close>,
  \<open>gid_t\<close> and \<open>mode_t\<close> are 32 bits wide; \<open>unsigned long\<close>, \<open>unsigned long long\<close>,
  \<open>size_t\<close> and \<open>rlim_t\<close> are 64 bits wide.
\<close>

unbundle bit_operations_syntax

type_synonym u16 = "16 word"
type_synonym u32 = "32 word"
type_synonym u64 = "64 word"

named_theorems wp_simps \<open>weakest preconditions of the monad's primitives and combinators\<close>
named_theorems inv_intros \<open>introduction rules for invariants of effectful code\<close>
named_theorems c_simps \<open>evaluation rules of the C library functions\<close>

subsection \<open>Fallible pure code\<close>

text \<open>
  A call of \<open>error_msg_and_die\<close> in code that performs no system call: the format string
  and its string arguments. \<open>error_msg_and_die\<close> prints the message and exits with status 1.
\<close>

datatype diag = Diag (diag_fmt: string) (diag_args: "string list")

type_synonym 'a res = "diag + 'a"

definition ebind :: "'e + 'a \<Rightarrow> ('a \<Rightarrow> 'e + 'b) \<Rightarrow> 'e + 'b" where
  "ebind m f = (case m of Inl e \<Rightarrow> Inl e | Inr x \<Rightarrow> f x)"

lemma ebind_Inl [simp]: "ebind (Inl e) f = Inl e"
  and ebind_Inr [simp]: "ebind (Inr x) f = f x"
  by (simp_all add: ebind_def)

lemma ebind_eq_Inr_iff: "ebind m f = Inr y \<longleftrightarrow> (\<exists>x. m = Inr x \<and> f x = Inr y)"
  by (cases m) auto

lemma ebind_InrE:
  assumes "ebind m f = Inr y"
  obtains x where "m = Inr x" and "f x = Inr y"
  using assms by (auto simp: ebind_eq_Inr_iff)

lemma ebind_cong [fundef_cong]:
  "m = m' \<Longrightarrow> (\<And>x. m' = Inr x \<Longrightarrow> f x = f' x) \<Longrightarrow> ebind m f = ebind m' f'"
  by (cases m') auto

lemma ebind_assoc: "ebind (ebind m f) g = ebind m (\<lambda>x. ebind (f x) g)"
  by (cases m) auto

text \<open>A loop over a list whose body may die: it stops at the first failing element.\<close>

fun efold :: "('s \<Rightarrow> 'a \<Rightarrow> 'e + 's) \<Rightarrow> 's \<Rightarrow> 'a list \<Rightarrow> 'e + 's" where
  "efold f s [] = Inr s"
| "efold f s (x # xs) = ebind (f s x) (\<lambda>s'. efold f s' xs)"

lemma efold_append: "efold f s (xs @ ys) = ebind (efold f s xs) (\<lambda>s'. efold f s' ys)"
  by (induction xs arbitrary: s) (auto simp: ebind_assoc)

lemma efold_invariant:
  assumes "efold f s xs = Inr t" and "P s"
    and "\<And>u x v. x \<in> set xs \<Longrightarrow> P u \<Longrightarrow> f u x = Inr v \<Longrightarrow> P v"
  shows "P t"
  using assms
proof (induction xs arbitrary: s)
  case Nil
  then show ?case by simp
next
  case (Cons x xs)
  from Cons.prems(1) obtain u where u: "f s x = Inr u" "efold f u xs = Inr t"
    by (auto simp: ebind_eq_Inr_iff)
  from Cons.prems u(1) have "P u" by auto
  with Cons.IH [OF u(2)] Cons.prems(3) show ?case by auto
qed

subsection \<open>Lists\<close>

lemma takeWhile_length_nth:
  "length (takeWhile P xs) < length xs \<Longrightarrow> \<not> P (xs ! length (takeWhile P xs))"
  by (rule nth_length_takeWhile)

lemma dropWhile_hd_not: "dropWhile P xs = y # ys \<Longrightarrow> \<not> P y"
  by (metis hd_dropWhile list.distinct(1) list.sel(1))

lemma takeWhile_not_mem_append:
  "x \<notin> set xs \<Longrightarrow> takeWhile (\<lambda>c. c \<noteq> x) (xs @ x # ys) = xs"
  by (induction xs) auto

lemma dropWhile_not_mem_append:
  "x \<notin> set xs \<Longrightarrow> dropWhile (\<lambda>c. c \<noteq> x) (xs @ x # ys) = x # ys"
  by (induction xs) auto

lemma sorted_adjacent_distinct:
  assumes "sorted (xs :: 'a :: linorder list)" and "\<And>i. Suc i < length xs \<Longrightarrow> xs ! i \<noteq> xs ! Suc i"
  shows "distinct xs"
proof -
  have "sorted_wrt (<) xs"
    using assms by (force simp: sorted_wrt_iff_nth_Suc_transp sorted_iff_nth_Suc order_le_less)
  then show ?thesis using strict_sorted_iff by blast
qed

end
