(* ===== verification/CString.thy ===== *)
theory CString
  imports Prelude
begin

text \<open>
  The functions of the C library that the pure code of the program is written in, on
  strings as lists of bytes without the terminating NUL: character classes of the C locale
  (the program never calls \<open>setlocale\<close>), case-insensitive comparison, \<open>strtok\<close>,
  \<open>strchr\<close>, the \<open>strtol\<close> family with its saturation and \<open>ERANGE\<close>, \<open>sscanf "%2x"\<close> and
  the conversions \<open>%u\<close>, \<open>%d\<close> and \<open>%02x\<close> of \<open>printf\<close>.
\<close>

subsection \<open>Characters\<close>

abbreviation ord :: "char \<Rightarrow> nat" where "ord c \<equiv> of_char c"

definition isspace :: "char \<Rightarrow> bool" where
  "isspace c \<longleftrightarrow> ord c = 32 \<or> 9 \<le> ord c \<and> ord c \<le> 13"

definition isdigit :: "char \<Rightarrow> bool" where
  "isdigit c \<longleftrightarrow> 48 \<le> ord c \<and> ord c \<le> 57"

definition tolower :: "char \<Rightarrow> char" where
  "tolower c = (if 65 \<le> ord c \<and> ord c \<le> 90 then char_of (ord c + 32) else c)"

text \<open>The value of a digit in bases up to 16; \<open>None\<close> when it is not a digit.\<close>

definition digit_val :: "char \<Rightarrow> nat option" where
  "digit_val c =
     (if 48 \<le> ord c \<and> ord c \<le> 57 then Some (ord c - 48)
      else if 97 \<le> ord c \<and> ord c \<le> 102 then Some (ord c - 87)
      else if 65 \<le> ord c \<and> ord c \<le> 70 then Some (ord c - 55)
      else None)"

definition is_base_digit :: "nat \<Rightarrow> char \<Rightarrow> bool" where
  "is_base_digit b c \<longleftrightarrow> (case digit_val c of None \<Rightarrow> False | Some d \<Rightarrow> d < b)"

abbreviation newline :: char where "newline \<equiv> CHR 0x0A"
abbreviation carriage_return :: char where "carriage_return \<equiv> CHR 0x0D"
abbreviation nul :: char where "nul \<equiv> CHR 0x00"

subsection \<open>Comparison\<close>

text \<open>The C functions return zero on equality; these are the tests \<open>!strcasecmp(s, t)\<close> etc.\<close>

definition strcaseeq :: "string \<Rightarrow> string \<Rightarrow> bool" where
  "strcaseeq s t \<longleftrightarrow> map tolower s = map tolower t"

definition strncaseeq :: "string \<Rightarrow> string \<Rightarrow> nat \<Rightarrow> bool" where
  "strncaseeq s t n \<longleftrightarrow> map tolower (take n s) = map tolower (take n t)"

definition strneq :: "string \<Rightarrow> string \<Rightarrow> nat \<Rightarrow> bool" where
  "strneq s t n \<longleftrightarrow> take n s = take n t"

text \<open>Byte-wise unsigned comparison, \<open>strcmp (s, t) <= 0\<close>: the lexicographic order on bytes.\<close>

definition strcmp_le :: "string \<Rightarrow> string \<Rightarrow> bool" where
  "strcmp_le s t \<longleftrightarrow> s \<le> t"

lemma strneq_prefix: "strneq s p (length p) \<longleftrightarrow> (\<exists>t. s = p @ t)"
  by (auto simp: strneq_def) (metis append_take_drop_id)

lemma strcaseeq_refl [simp]: "strcaseeq s s"
  by (simp add: strcaseeq_def)

subsection \<open>Searching and splitting\<close>

text \<open>\<open>strchr\<close> and \<open>strrchr\<close> return the position of the first and of the last occurrence.\<close>

definition strchr :: "string \<Rightarrow> char \<Rightarrow> nat option" where
  "strchr s c = (if c \<in> set s then Some (length (takeWhile (\<lambda>x. x \<noteq> c) s)) else None)"

definition strrchr :: "string \<Rightarrow> char \<Rightarrow> nat option" where
  "strrchr s c =
     (if c \<in> set s then Some (length s - 1 - length (takeWhile (\<lambda>x. x \<noteq> c) (rev s))) else None)"

text \<open>The tokens that a first \<open>strtok (s, delim)\<close> and the following \<open>strtok (0, delim)\<close> return.\<close>

function strtok_all :: "string \<Rightarrow> string \<Rightarrow> string list" where
  "strtok_all delim s =
     (case dropWhile (\<lambda>c. c \<in> set delim) s of
        [] \<Rightarrow> []
      | c # cs \<Rightarrow> takeWhile (\<lambda>c. c \<notin> set delim) (c # cs)
                  # strtok_all delim (dropWhile (\<lambda>c. c \<notin> set delim) (c # cs)))"
  by pat_completeness auto
termination
proof (relation "measure (\<lambda>(delim, s). length s)", simp_all, goal_cases)
  case (1 delim s c cs)
  have "length (dropWhile (\<lambda>c. c \<notin> set delim) cs) \<le> length cs"
    by (rule length_dropWhile_le)
  moreover have "length (c # cs) \<le> length s"
    using length_dropWhile_le [of "\<lambda>c. c \<in> set delim" s] by (simp add: 1)
  moreover have "c \<notin> set delim"
    using dropWhile_hd_not [OF 1] .
  ultimately show ?case by simp
qed

declare strtok_all.simps [simp del]

lemma strtok_all_Nil [simp]: "strtok_all d [] = []"
  by (simp add: strtok_all.simps)

lemma strtok_all_skip: "c \<in> set d \<Longrightarrow> strtok_all d (c # s) = strtok_all d s"
  by (simp add: strtok_all.simps)

lemma strtok_all_tokens:
  "t \<in> set (strtok_all d s) \<Longrightarrow> t \<noteq> [] \<and> set t \<inter> set d = {} \<and> set t \<subseteq> set s"
proof (induction d s rule: strtok_all.induct)
  case (1 d s)
  show ?case
  proof (cases "dropWhile (\<lambda>c. c \<in> set d) s")
    case Nil
    with "1.prems" show ?thesis by (simp add: strtok_all.simps [of d s])
  next
    case (Cons c cs)
    have c: "c \<notin> set d" using dropWhile_hd_not [OF Cons] .
    have sub: "set (c # cs) \<subseteq> set s" using set_dropWhileD [of _ "\<lambda>c. c \<in> set d" s] by (auto simp: Cons)
    let ?rest = "dropWhile (\<lambda>c. c \<notin> set d) (c # cs)"
    from "1.prems" Cons consider
        (hd) "t = takeWhile (\<lambda>c. c \<notin> set d) (c # cs)" | (tl) "t \<in> set (strtok_all d ?rest)"
      by (auto simp: strtok_all.simps [of d s])
    then show ?thesis
    proof cases
      case hd
      then show ?thesis using c sub by (auto dest: set_takeWhileD)
    next
      case tl
      have "set ?rest \<subseteq> set s" using set_dropWhileD sub by (metis subset_code(1))
      with "1.IH" [OF Cons tl] show ?thesis by blast
    qed
  qed
qed

lemma strtok_all_snoc:
  assumes "t \<noteq> []" and "set t \<inter> set d = {}" and "c \<in> set d"
  shows "strtok_all d (t @ c # s) = t # strtok_all d s"
proof -
  have dw: "dropWhile (\<lambda>c. c \<in> set d) (t @ c # s) = t @ c # s"
    using assms by (cases t) auto
  have tw: "takeWhile (\<lambda>c. c \<notin> set d) (t @ c # s) = t"
    using assms(2,3) by (induction t) auto
  have dw2: "dropWhile (\<lambda>c. c \<notin> set d) (t @ c # s) = c # s"
    using assms(2,3) by (induction t) auto
  obtain a as where t: "t = a # as" using assms(1) by (cases t) auto
  have "strtok_all d (t @ c # s) = t # strtok_all d (c # s)"
    using dw tw dw2 by (subst strtok_all.simps) (simp add: t)
  then show ?thesis using assms(3) by (simp add: strtok_all_skip)
qed

lemma strtok_all_single:
  assumes "t \<noteq> []" and "set t \<inter> set d = {}"
  shows "strtok_all d t = [t]"
proof -
  obtain a as where t: "t = a # as" using assms(1) by (cases t) auto
  have "takeWhile (\<lambda>c. c \<notin> set d) t = t" "dropWhile (\<lambda>c. c \<notin> set d) t = []"
    "dropWhile (\<lambda>c. c \<in> set d) t = t"
    using assms by (auto simp: t takeWhile_eq_all_conv dropWhile_eq_Nil_conv)
  then show ?thesis by (subst strtok_all.simps) (simp add: t)
qed

subsection \<open>The strtol family\<close>

text \<open>
  The common scanner: leading white space, an optional sign, then digits of the base. The
  result is the sign, the magnitude and the rest of the string; \<open>None\<close> is "no conversion",
  where the C functions return 0 and store the start of the string in \<open>*endptr\<close>. (Bases 8
  and 10 only, so there is no \<open>0x\<close> prefix.)
\<close>

definition digits_val :: "nat \<Rightarrow> string \<Rightarrow> nat" where
  "digits_val b ds = foldl (\<lambda>acc c. acc * b + (case digit_val c of None \<Rightarrow> 0 | Some d \<Rightarrow> d)) 0 ds"

definition scan_num :: "nat \<Rightarrow> string \<Rightarrow> (bool \<times> nat \<times> string) option" where
  "scan_num b s =
     (let s1 = dropWhile isspace s;
          neg = (s1 \<noteq> [] \<and> hd s1 = CHR ''-'');
          s2 = (if s1 \<noteq> [] \<and> (hd s1 = CHR ''-'' \<or> hd s1 = CHR ''+'') then tl s1 else s1);
          ds = takeWhile (is_base_digit b) s2
      in if ds = [] then None
         else Some (neg, digits_val b ds, dropWhile (is_base_digit b) s2))"

abbreviation ulong_max :: nat where "ulong_max \<equiv> 18446744073709551615"
abbreviation long_max :: int where "long_max \<equiv> 9223372036854775807"
abbreviation long_min :: int where "long_min \<equiv> - 9223372036854775808"
abbreviation int_max :: int where "int_max \<equiv> 2147483647"
abbreviation int_min :: int where "int_min \<equiv> - 2147483648"

text \<open>
  \<open>strtoul\<close> and \<open>strtoull\<close>: the converted value, the rest at \<open>*endptr\<close>, and whether \<open>errno\<close>
  was set to \<open>ERANGE\<close>. A minus sign negates the value in the return type.
\<close>

definition strtoul :: "nat \<Rightarrow> string \<Rightarrow> nat \<times> string \<times> bool" where
  "strtoul b s =
     (case scan_num b s of
        None \<Rightarrow> (0, s, False)
      | Some (neg, m, rest) \<Rightarrow>
          if ulong_max < m then (ulong_max, rest, True)
          else if neg then ((ulong_max + 1 - m) mod (ulong_max + 1), rest, False)
          else (m, rest, False))"

definition strtol :: "nat \<Rightarrow> string \<Rightarrow> int \<times> string \<times> bool" where
  "strtol b s =
     (case scan_num b s of
        None \<Rightarrow> (0, s, False)
      | Some (neg, m, rest) \<Rightarrow>
          if neg then (if long_max + 1 < int m then (long_min, rest, True) else (- int m, rest, False))
          else if long_max < int m then (long_max, rest, True) else (int m, rest, False))"

lemma strtoul_le: "fst (strtoul b s) \<le> ulong_max"
  by (auto simp: strtoul_def split: option.splits prod.splits)

lemma strtol_bounds: "long_min \<le> fst (strtol b s)" "fst (strtol b s) \<le> long_max"
  by (auto simp: strtol_def split: option.splits prod.splits)

subsection \<open>printf conversions\<close>

definition digit_char :: "nat \<Rightarrow> char" where
  "digit_char d = (if d < 10 then char_of (48 + d) else char_of (87 + d))"

text \<open>The conversion \<open>%u\<close>.\<close>

fun fmt_u :: "nat \<Rightarrow> string" where
  "fmt_u n = (if n < 10 then [digit_char n] else fmt_u (n div 10) @ [digit_char (n mod 10)])"

declare fmt_u.simps [simp del]

text \<open>The conversion \<open>%d\<close>.\<close>

definition fmt_d :: "int \<Rightarrow> string" where
  "fmt_d i = (if i < 0 then CHR ''-'' # fmt_u (nat (- i)) else fmt_u (nat i))"

text \<open>The conversion \<open>%02x\<close> of an unsigned char.\<close>

definition fmt_02x :: "char \<Rightarrow> string" where
  "fmt_02x c = [digit_char (ord c div 16), digit_char (ord c mod 16)]"

lemma ord_digit_char: "d < 10 \<Longrightarrow> ord (digit_char d) = 48 + d"
  by (simp add: digit_char_def)

lemma ord_digit_char_hex: "10 \<le> d \<Longrightarrow> d < 16 \<Longrightarrow> ord (digit_char d) = 87 + d"
  by (simp add: digit_char_def)

lemma digit_val_digit_char: "d < 16 \<Longrightarrow> digit_val (digit_char d) = Some d"
  by (cases "d < 10") (simp_all add: digit_val_def ord_digit_char ord_digit_char_hex)

lemma is_base_digit_digit_char: "d < b \<Longrightarrow> b \<le> 16 \<Longrightarrow> is_base_digit b (digit_char d)"
  by (simp add: is_base_digit_def digit_val_digit_char)

lemma fmt_u_nonempty [simp]: "fmt_u n \<noteq> []"
  by (subst fmt_u.simps) simp

lemma fmt_u_digits: "c \<in> set (fmt_u n) \<Longrightarrow> \<exists>d<10. c = digit_char d"
proof (induction n rule: fmt_u.induct)
  case (1 n)
  have d: "n mod 10 < 10" by simp
  show ?case
  proof (cases "n < 10")
    case True
    with 1 show ?thesis by (auto simp: fmt_u.simps [of n])
  next
    case False
    with "1.prems" have "c \<in> set (fmt_u (n div 10)) \<or> c = digit_char (n mod 10)"
      by (auto simp: fmt_u.simps [of n])
    with "1.IH" [OF False] d show ?thesis by blast
  qed
qed

lemma fmt_u_no_sign:
  assumes "c \<in> set (fmt_u n)"
  shows "48 \<le> ord c \<and> ord c \<le> 57"
proof -
  from fmt_u_digits [OF assms] obtain d where "d < 10" "c = digit_char d" by blast
  then show ?thesis by (simp add: ord_digit_char)
qed

lemma digits_val_snoc:
  "digits_val b (ds @ [c]) = digits_val b ds * b + (case digit_val c of None \<Rightarrow> 0 | Some d \<Rightarrow> d)"
  by (simp add: digits_val_def)

lemma digits_val_fmt_u: "digits_val 10 (fmt_u n) = n"
proof (induction n rule: fmt_u.induct)
  case (1 n)
  show ?case
  proof (cases "n < 10")
    case True
    then show ?thesis
      by (simp add: fmt_u.simps [of n] digits_val_def digit_val_digit_char)
  next
    case False
    with "1.IH" show ?thesis
      by (simp add: fmt_u.simps [of n] digits_val_snoc digit_val_digit_char)
  qed
qed

lemma scan_num_fmt_u: "scan_num 10 (fmt_u n) = Some (False, n, [])"
proof -
  have all: "\<forall>c \<in> set (fmt_u n). is_base_digit 10 c"
    by (auto dest!: fmt_u_digits intro!: is_base_digit_digit_char)
  obtain c cs where f: "fmt_u n = c # cs" by (cases "fmt_u n") auto
  have c: "48 \<le> ord c" "ord c \<le> 57" using fmt_u_no_sign [of c n] by (simp_all add: f)
  have ns: "\<not> isspace c" using c by (simp add: isspace_def)
  have "c \<noteq> CHR ''-''" "c \<noteq> CHR ''+''" using c by auto
  moreover have "takeWhile (is_base_digit 10) (fmt_u n) = fmt_u n"
    "dropWhile (is_base_digit 10) (fmt_u n) = []"
    using all by (simp_all add: takeWhile_eq_all_conv dropWhile_eq_Nil_conv)
  moreover have "dropWhile isspace (fmt_u n) = fmt_u n" using ns by (simp add: f)
  ultimately show ?thesis
    using digits_val_fmt_u [of n] by (simp add: scan_num_def Let_def f)
qed

lemma strtoul_fmt_u: "n \<le> ulong_max \<Longrightarrow> strtoul 10 (fmt_u n) = (n, [], False)"
  by (simp add: strtoul_def scan_num_fmt_u)

subsection \<open>sscanf "%2x"\<close>

text \<open>
  One conversion \<open>%2x\<close>: white space is skipped, then the input item is the longest sequence
  of at most two characters that is, or is a prefix of, a hexadecimal integer with an optional
  sign and an optional \<open>0x\<close>; an item that is not an integer itself (a lone sign, \<open>0x\<close>) is a
  matching failure (\<open>None\<close>, where \<open>sscanf\<close> does not return 1).
\<close>

definition scan_2x :: "string \<Rightarrow> nat option" where
  "scan_2x s =
     (case dropWhile isspace s of
        [] \<Rightarrow> None
      | c # cs \<Rightarrow>
          if c = CHR ''-'' \<or> c = CHR ''+'' then
            (case cs of
               [] \<Rightarrow> None
             | d # _ \<Rightarrow> map_option (\<lambda>v. if c = CHR ''-'' then (4294967296 - v) mod 4294967296 else v)
                          (digit_val d))
          else
            (case digit_val c of
               None \<Rightarrow> None
             | Some v \<Rightarrow>
                 (case cs of
                    [] \<Rightarrow> Some v
                  | d # _ \<Rightarrow>
                      if v = 0 \<and> (d = CHR ''x'' \<or> d = CHR ''X'') then None
                      else (case digit_val d of None \<Rightarrow> Some v | Some u \<Rightarrow> Some (16 * v + u)))))"

lemma scan_2x_fmt_02x: "scan_2x (fmt_02x c @ s) = Some (ord c)"
proof -
  let ?h = "ord c div 16" and ?l = "ord c mod 16"
  have lt: "ord c < 256" by (rule nat_of_char_less_256)
  have h: "?h < 16" using lt by (simp add: div_less_iff_less_mult)
  have l: "?l < 16" by simp
  have dv: "digit_val (digit_char ?h) = Some ?h" "digit_val (digit_char ?l) = Some ?l"
    using h l by (simp_all add: digit_val_digit_char)
  have ns: "\<not> isspace (digit_char ?h)"
    using h by (cases "?h < 10") (auto simp: isspace_def ord_digit_char ord_digit_char_hex)
  have nsign: "digit_char ?h \<noteq> CHR ''-''" "digit_char ?h \<noteq> CHR ''+''"
    using dv(1) by (auto simp: digit_val_def)
  have nx: "digit_char ?l \<noteq> CHR ''x''" "digit_char ?l \<noteq> CHR ''X''"
    using dv(2) by (auto simp: digit_val_def)
  show ?thesis
    using ns nsign nx dv by (simp add: scan_2x_def fmt_02x_def)
qed

end
