(* ===== verification/Globals.thy ===== *)
theory Globals
  imports CString
begin

text \<open>
  The global variables of the program, as its headers declare them, one record per module,
  and the initial values its definitions give them. C strings are \<open>string option\<close> where the
  variable may be a null pointer.
\<close>

subsection \<open>Caller configuration (caller_config.h, change_rlimit.h)\<close>

record work_limit =
  time_elapsed :: u64
  time_idle :: u64
  bytes_read :: u64
  bytes_written :: u64

text \<open>
  \<open>str_list_t\<close>: the first \<open>len\<close> entries of \<open>list\<close>; a cleared (null) entry is \<open>None\<close>.
\<close>

type_synonym str_list = "string option list"

text \<open>The resources of \<open>getrlimit(2)\<close> the program can change.\<close>

datatype rlimit_resource =
    RLIMIT_CPU | RLIMIT_FSIZE | RLIMIT_DATA | RLIMIT_STACK | RLIMIT_CORE | RLIMIT_RSS
  | RLIMIT_NPROC | RLIMIT_NOFILE | RLIMIT_MEMLOCK | RLIMIT_AS | RLIMIT_LOCKS
  | RLIMIT_SIGPENDING | RLIMIT_MSGQUEUE | RLIMIT_NICE | RLIMIT_RTPRIO

record change_rlimit_t =
  rl_name :: string
  rl_resource :: rlimit_resource
  rl_hard :: "u64 option"
  rl_soft :: "u64 option"

definition rlim_entry :: "string \<Rightarrow> rlimit_resource \<Rightarrow> change_rlimit_t" where
  "rlim_entry n r = \<lparr>rl_name = n, rl_resource = r, rl_hard = None, rl_soft = None\<rparr>"

definition change_rlimit_init :: "change_rlimit_t list" where
  "change_rlimit_init =
     [rlim_entry ''cpu'' RLIMIT_CPU, rlim_entry ''fsize'' RLIMIT_FSIZE,
      rlim_entry ''data'' RLIMIT_DATA, rlim_entry ''stack'' RLIMIT_STACK,
      rlim_entry ''core'' RLIMIT_CORE, rlim_entry ''rss'' RLIMIT_RSS,
      rlim_entry ''nproc'' RLIMIT_NPROC, rlim_entry ''nofile'' RLIMIT_NOFILE,
      rlim_entry ''memlock'' RLIMIT_MEMLOCK, rlim_entry ''as'' RLIMIT_AS,
      rlim_entry ''locks'' RLIMIT_LOCKS, rlim_entry ''sigpending'' RLIMIT_SIGPENDING,
      rlim_entry ''msgqueue'' RLIMIT_MSGQUEUE, rlim_entry ''nice'' RLIMIT_NICE,
      rlim_entry ''rtprio'' RLIMIT_RTPRIO]"

record conf =
  caller_config_file_name :: "string option"
  chroot_prefix_list :: "string list option"
  chroot_prefix_path :: "string option"
  change_user1 :: "string option"
  change_user2 :: "string option"
  term_name :: "string option"
  x11_display :: "string option"
  x11_key :: "string option"
  allowed_devices :: str_list
  allowed_mountpoints :: str_list
  requested_mountpoints :: str_list
  change_uid1 :: u32
  change_uid2 :: u32
  change_gid1 :: u32
  change_gid2 :: u32
  change_umask :: u32
  change_nice :: int
  change_nproc :: u64
  makedev_console :: bool
  use_pty :: bool
  x11_data_len :: u64
  share_ipc :: int
  share_network :: int
  share_uts :: int
  change_rlimit :: "change_rlimit_t list"
  wlimit :: work_limit

definition wlimit_init :: work_limit where
  "wlimit_init = \<lparr>time_elapsed = 0, time_idle = 0, bytes_read = 0, bytes_written = 0\<rparr>"

definition conf_init :: conf where
  "conf_init =
     \<lparr>caller_config_file_name = None, chroot_prefix_list = None, chroot_prefix_path = None,
      change_user1 = None, change_user2 = None, term_name = None, x11_display = None, x11_key = None,
      allowed_devices = [], allowed_mountpoints = [], requested_mountpoints = [],
      change_uid1 = 0, change_uid2 = 0, change_gid1 = 0, change_gid2 = 0,
      change_umask = 18, change_nice = 8, change_nproc = 0,
      makedev_console = False, use_pty = False, x11_data_len = 0,
      share_ipc = -1, share_network = -1, share_uts = -1,
      change_rlimit = change_rlimit_init, wlimit = wlimit_init\<rparr>"

subsection \<open>Caller data (caller_data.h)\<close>

record caller_data =
  caller_user :: string
  caller_home :: string
  caller_pid :: int
  caller_uid :: u32
  caller_gid :: u32
  caller_num :: u32

definition caller_data_init :: caller_data where
  "caller_data_init =
     \<lparr>caller_user = [], caller_home = [], caller_pid = 0, caller_uid = 0, caller_gid = 0,
      caller_num = 0\<rparr>"

subsection \<open>Server configuration (server_config.h)\<close>

record server_conf =
  server_loglevel :: "string option"
  server_pidfile :: "string option"
  server_access_group :: "string option"
  server_gid :: u32
  min_uid :: int
  min_gid :: int
  server_session_timeout :: u64

definition server_conf_init :: server_conf where
  "server_conf_init =
     \<lparr>server_loglevel = None, server_pidfile = None, server_access_group = None,
      server_gid = 0, min_uid = 34, min_gid = 34, server_session_timeout = 0\<rparr>"

subsection \<open>X11 forwarding state (x11.c)\<close>

datatype x11_method = X11_connect_unix | X11_connect_inet

record x11_state =
  share_caller_network :: bool
  x11_connect_method :: "x11_method option"
  x11_connect_name :: string
  x11_connect_port :: u64
  x11_dir_fd :: int

definition x11_state_init :: x11_state where
  "x11_state_init =
     \<lparr>share_caller_network = False, x11_connect_method = None, x11_connect_name = [],
      x11_connect_port = 0, x11_dir_fd = -1\<rparr>"

subsection \<open>The state of the unprivileged parent (parent.c, tty.c, io_log.c, io_x11.c)\<close>

text \<open>
  A relayed X11 connection. \<open>x_master_buf\<close> and \<open>x_slave_buf\<close> are the first \<open>master_avail\<close> and
  \<open>slave_avail\<close> bytes of the buffers, the part that is in use.
\<close>

record io_x11 =
  x_master_fd :: int
  x_slave_fd :: int
  x_master_buf :: string
  x_slave_buf :: string
  authenticated :: bool

record parent_state =
  child_pid :: int
  sigalrm_arrived :: bool
  sigwinch_arrived :: bool
  child_rc :: int
  tty_is_saved :: bool
  pty_fd :: int
  ctl_fd :: int
  x11_fd :: int
  total_bytes_read :: u64
  total_bytes_written :: u64
  x11_saved_data :: "string option"
  x11_fake_data :: "string option"
  log_fd_list :: "int list"
  io_x11_list :: "io_x11 option list"

definition parent_state_init :: parent_state where
  "parent_state_init =
     \<lparr>child_pid = 0, sigalrm_arrived = False, sigwinch_arrived = False, child_rc = 0,
      tty_is_saved = False, pty_fd = -1, ctl_fd = -1, x11_fd = -1, total_bytes_read = 0,
      total_bytes_written = 0, x11_saved_data = None, x11_fake_data = None, log_fd_list = [],
      io_x11_list = []\<rparr>"

subsection \<open>The whole program's globals\<close>

text \<open>
  Besides the records above: \<open>chroot_fd\<close> and \<open>log_fd\<close> of fds.c, \<open>dev_pts_mounted\<close> and the
  parsed fstab of mount.c, \<open>log_level\<close> and \<open>logging\<close> of error_prints.c.
\<close>

datatype log_target = LOGGING_STANDALONE | LOGGING_STDERR | LOGGING_SYSLOG

record mnt_ent =
  mnt_fsname :: string
  mnt_dir :: string
  mnt_type :: string
  mnt_opts :: string

record globals =
  cf :: conf
  cl :: caller_data
  sv :: server_conf
  x11 :: x11_state
  chroot_fd :: int
  log_fd :: int
  dev_pts_mounted :: bool
  var_fstab :: "mnt_ent list"
  log_level :: int
  logging :: log_target
  par :: parent_state

definition globals_init :: globals where
  "globals_init =
     \<lparr>cf = conf_init, cl = caller_data_init, sv = server_conf_init, x11 = x11_state_init,
      chroot_fd = -1, log_fd = -1, dev_pts_mounted = False, var_fstab = [], log_level = 5, logging = LOGGING_STANDALONE,
      par = parent_state_init\<rparr>"

subsection \<open>Valid identifiers (server_config.h)\<close>

text \<open>
  A negative minimum disables the check; otherwise the minimum is compared as an unsigned
  32-bit number.
\<close>

definition valid_uid :: "server_conf \<Rightarrow> u32 \<Rightarrow> bool" where
  "valid_uid s uid \<longleftrightarrow> min_uid s < 0 \<or> (word_of_int (min_uid s) :: u32) \<le> uid"

definition valid_gid :: "server_conf \<Rightarrow> u32 \<Rightarrow> bool" where
  "valid_gid s gid \<longleftrightarrow> min_gid s < 0 \<or> (word_of_int (min_gid s) :: u32) \<le> gid"

end
