(* ===== verification/Kernel.thy ===== *)
theory Kernel
  imports Globals
begin

text \<open>
  The effects of the program. A system call, or a call of the C library that talks to the
  kernel or to a database, is a value of type \<open>call\<close>; what the kernel answers is a
  \<open>reply\<close>. Code that performs effects is a state transformer on a \<open>world\<close>: the replies the
  kernel is still going to give, the calls made so far with their replies, and the globals of
  the process. Nothing is assumed about the replies: a theorem about all worlds holds for
  every behaviour of the kernel and of the peers. A process that waits for a reply that never
  comes (the list is used up) is \<open>Blocked\<close>, so a run is any finite prefix of an execution.
  After \<open>fork\<close> a run follows one of the two processes, as the reply says.

  Memory that the code releases before it goes on is not modelled, and the allocation
  wrappers of xmalloc.c, which die when memory is exhausted, are treated in their own theory.
\<close>

subsection \<open>Calls\<close>

datatype errno =
    EINTR | EPIPE | ENOENT | EEXIST | ENOSYS | EINVAL | EPERM | ESRCH | ECHILD | EOTHER nat

datatype oflag =
    O_RDONLY | O_WRONLY | O_RDWR | O_NOFOLLOW | O_NOCTTY | O_DIRECTORY | O_CLOEXEC | O_CREAT | O_TRUNC

datatype signal_no =
    SIGHUP | SIGINT | SIGQUIT | SIGTERM | SIGCHLD | SIGPIPE | SIGALRM | SIGWINCH | SIGKILL
  | SIGOTHER nat

fun signum :: "signal_no \<Rightarrow> nat" where
  "signum SIGHUP = 1" | "signum SIGINT = 2" | "signum SIGQUIT = 3" | "signum SIGKILL = 9"
| "signum SIGPIPE = 13" | "signum SIGALRM = 14" | "signum SIGTERM = 15" | "signum SIGCHLD = 17"
| "signum SIGWINCH = 28" | "signum (SIGOTHER n) = n"

text \<open>Files, directories and the standard I/O streams opened on them.\<close>

datatype fs_call =
    Open string "oflag list" u32
  | Openat int string "oflag list"
  | Fstat int
  | Lstat string
  | Stat string
  | Fstatat int string
  | Access string
  | Chdir string
  | Fchdir int
  | Getcwd
  | Chroot string
  | Mkdir string u32
  | Mknod string u32 nat nat
  | Symlink string string
  | Unlink string
  | Chmod string u32
  | Chown string u32 u32
  | Umask u32
  | Flock int
  | Opendir string
  | Dirfd
  | Readdir
  | Closedir
  | Mount string string string u64 string
  | Canonicalize_file_name string
  | Fopen string
  | Fdopen int
  | Fread_all int
  | Fscanf_d int
  | Fprintf int string
  | Fclose int

text \<open>Descriptors, sockets, polling and terminals.\<close>

datatype fd_call =
    Close int
  | Dup2 int int
  | Pipe
  | Socketpair
  | Fcntl_getfd int
  | Fcntl_setfd int u32
  | Fcntl_getfl int
  | Fcntl_setfl int u32
  | Close_range u32 u32 u32
  | Read int nat
  | Write int string
  | Sendmsg int string "int list"
  | Recvmsg int nat
  | Ioctl int string nat
  | Socket string
  | Bind int string
  | Listen int int
  | Connect int string
  | Accept int
  | Getsockopt_peercred int
  | Setsockopt_rcvtimeo int int
  | Getsockname int
  | Epoll_create
  | Epoll_add int int bool
  | Epoll_wait int int
  | Pselect "int list" "int list" u64
  | Tcgetattr int
  | Tcsetattr int
  | Isatty int
  | Getaddrinfo string string

text \<open>Identity, processes and resources.\<close>

datatype proc_call =
    Getuid
  | Getgid
  | Geteuid
  | Getpid
  | Setuid u32
  | Setgid u32
  | Setreuid u32 u32
  | Setfsuid u32
  | Setfsgid u32
  | Setgroups "u32 list"
  | Initgroups string u32
  | Getgroups int
  | Getpwnam string
  | Getpwuid u32
  | Getgrnam string
  | Fork
  | Execve string "string list" "string list"
  | Waitpid int bool
  | Kill int signal_no
  | Kill_0 int
  | Prctl_set_dumpable int
  | Prctl_set_no_new_privs
  | Nice int
  | Unshare u32
  | Setns int u32
  | Personality u32
  | Setsid
  | Sched_getaffinity
  | Sched_setaffinity "nat list"
  | Srandom int
  | Random
  | Getrlimit rlimit_resource
  | Setrlimit rlimit_resource u64 u64

datatype sysv_kind = Sem | Shm | Msg

text \<open>Signals, timers, System V IPC, output and logging, memory.\<close>

datatype misc_call =
    Daemon
  | Clearenv
  | Sigprocmask_block signal_no
  | Sigprocmask_unblock signal_no
  | Sigprocmask_set "signal_no list"
  | Sigaction signal_no string
  | Signal_dfl signal_no
  | Signal_ign signal_no
  | Signalfd "signal_no list"
  | Timer_create
  | Timer_settime u64
  | Usleep nat
  | Printf string
  | Dprintf int string
  | Log log_target int string
  | Openlog
  | Closelog
  | Sethostname string
  | If_nametoindex string
  | Rtnetlink_up int int
  | Sysv_info sysv_kind
  | Sysv_stat sysv_kind int
  | Sysv_rmid sysv_kind int
  | Malloc nat
  | Atexit
  | Sysconf_open_max

datatype call = Fs fs_call | Fd fd_call | Pr proc_call | Mi misc_call

subsection \<open>Replies\<close>

record stat_buf =
  st_dev :: nat
  st_ino :: nat
  st_rdev :: nat
  st_mode :: u32
  st_uid :: u32
  st_gid :: u32
  st_size :: int

record passwd =
  pw_name :: "string option"
  pw_uid :: u32
  pw_gid :: u32
  pw_dir :: "string option"

record group_entry =
  gr_name :: "string option"
  gr_gid :: u32

text \<open>A wait status, as \<open>WIFEXITED\<close> and \<open>WIFSIGNALED\<close> tell them apart.\<close>

datatype wait_status = WExited nat | WSignaled nat | WOther int

text \<open>One polled descriptor: the descriptor, \<open>EPOLLIN\<close>, and \<open>EPOLLHUP | EPOLLERR\<close>.\<close>

record epoll_event =
  ev_fd :: int
  ev_in :: bool
  ev_hup :: bool

text \<open>A received control message: whether it is \<open>SOL_SOCKET\<close>, \<open>SCM_RIGHTS\<close>, and its descriptors.\<close>

record cmsg =
  cm_socket :: bool
  cm_rights :: bool
  cm_fds :: "int list"

text \<open>
  A reply has a field for every kind of result; the code reads those that the call it made
  fills in: for \<open>pselect\<close> the readable descriptors are in \<open>r_ints\<close>, the writable ones in
  \<open>r_writable\<close>, and the signals delivered during the call in \<open>r_signals\<close>. \<open>r_ret\<close> is the return value (1 and 0 stand for a non-null and a null pointer),
  \<open>r_errno\<close> the error number if the call failed.
\<close>

record reply =
  r_ret :: int
  r_errno :: errno
  r_buf :: string
  r_ints :: "int list"
  r_stat :: stat_buf
  r_pw :: "passwd option"
  r_gr :: "group_entry option"
  r_status :: wait_status
  r_events :: "epoll_event list"
  r_cmsgs :: "cmsg list"
  r_writable :: "int list"
  r_signals :: "signal_no list"

definition stat0 :: stat_buf where
  "stat0 = \<lparr>st_dev = 0, st_ino = 0, st_rdev = 0, st_mode = 0, st_uid = 0, st_gid = 0, st_size = 0\<rparr>"

text \<open>A reply with the given return value and everything else empty.\<close>

definition rep :: "int \<Rightarrow> reply" where
  "rep n = \<lparr>r_ret = n, r_errno = EOTHER 0, r_buf = [], r_ints = [], r_stat = stat0, r_pw = None,
            r_gr = None, r_status = WExited 0, r_events = [], r_cmsgs = [], r_writable = [], r_signals = []\<rparr>"

subsection \<open>The world and the monad\<close>

type_synonym trace = "(call \<times> reply) list"

text \<open>The trace holds the newest call first.\<close>

record world =
  replies :: "reply list"
  trace :: trace
  gl :: globals

datatype stop =
    Exit int      \<comment> \<open>\<open>exit\<close> or \<open>_exit\<close> with a status\<close>
  | Execd         \<comment> \<open>a successful \<open>execve\<close> replaced the program\<close>
  | Blocked       \<comment> \<open>waiting for the kernel\<close>
  | NoFuel        \<comment> \<open>a loop bound was too small\<close>

datatype 'a outcome = Ret 'a | Stop stop

type_synonym 'a m = "world \<Rightarrow> 'a outcome \<times> world"

definition ret :: "'a \<Rightarrow> 'a m" where
  "ret x = (\<lambda>w. (Ret x, w))"

definition stop :: "stop \<Rightarrow> 'a m" where
  "stop s = (\<lambda>w. (Stop s, w))"

definition bnd :: "'a m \<Rightarrow> ('a \<Rightarrow> 'b m) \<Rightarrow> 'b m" where
  "bnd m f = (\<lambda>w. case m w of (Ret x, w') \<Rightarrow> f x w' | (Stop s, w') \<Rightarrow> (Stop s, w'))"

definition seq :: "'a m \<Rightarrow> 'b m \<Rightarrow> 'b m" where
  "seq m n = bnd m (\<lambda>_. n)"

definition answer :: "call \<Rightarrow> reply \<Rightarrow> reply list \<Rightarrow> world \<Rightarrow> world" where
  "answer c r rs w = w\<lparr>replies := rs, trace := (c, r) # trace w\<rparr>"

definition sys :: "call \<Rightarrow> reply m" where
  "sys c = (\<lambda>w. case replies w of
                 [] \<Rightarrow> (Stop Blocked, w)
               | r # rs \<Rightarrow> (Ret r, answer c r rs w))"

definition sys_fs :: "fs_call \<Rightarrow> reply m" where "sys_fs c = sys (Fs c)"
definition sys_fd :: "fd_call \<Rightarrow> reply m" where "sys_fd c = sys (Fd c)"
definition sys_pr :: "proc_call \<Rightarrow> reply m" where "sys_pr c = sys (Pr c)"
definition sys_mi :: "misc_call \<Rightarrow> reply m" where "sys_mi c = sys (Mi c)"

definition getg :: "(globals \<Rightarrow> 'a) \<Rightarrow> 'a m" where
  "getg f = (\<lambda>w. (Ret (f (gl w)), w))"

definition modg :: "(globals \<Rightarrow> globals) \<Rightarrow> unit m" where
  "modg f = (\<lambda>w. (Ret (), w\<lparr>gl := f (gl w)\<rparr>))"

text \<open>
  \<open>TEMP_FAILURE_RETRY\<close>: the call is repeated while it fails with \<open>EINTR\<close>. Every attempt
  takes a reply, so the loop runs over the replies.
\<close>

fun retry_over :: "call \<Rightarrow> reply list \<Rightarrow> world \<Rightarrow> reply outcome \<times> world" where
  "retry_over c [] w = (Stop Blocked, w)"
| "retry_over c (r # rs) w =
     (let w' = answer c r rs w
      in if r_ret r = -1 \<and> r_errno r = EINTR then retry_over c rs w' else (Ret r, w'))"

definition temp_failure_retry :: "call \<Rightarrow> reply m" where
  "temp_failure_retry c = (\<lambda>w. retry_over c (replies w) w)"

text \<open>A list traversal, and a loop with a bound on the number of its iterations.\<close>

fun for_each :: "'a list \<Rightarrow> ('a \<Rightarrow> unit m) \<Rightarrow> unit m" where
  "for_each [] f = ret ()"
| "for_each (x # xs) f = seq (f x) (for_each xs f)"

text \<open>The body returns \<open>Inl s\<close> to go round again with \<open>s\<close> and \<open>Inr r\<close> to leave with \<open>r\<close>.\<close>

fun loop :: "nat \<Rightarrow> ('s \<Rightarrow> ('s + 'r) m) \<Rightarrow> 's \<Rightarrow> 'r m" where
  "loop 0 body s = stop NoFuel"
| "loop (Suc n) body s =
     bnd (body s) (\<lambda>x. case x of Inl s' \<Rightarrow> loop n body s' | Inr r \<Rightarrow> ret r)"

text \<open>
  A loop each iteration of which makes a system call: one more iteration than there are
  replies left is enough fuel (lemma \<open>event_loop_fuel\<close> below).
\<close>

definition event_loop :: "('s \<Rightarrow> ('s + 'r) m) \<Rightarrow> 's \<Rightarrow> 'r m" where
  "event_loop body s = (\<lambda>w. loop (Suc (length (replies w))) body s w)"

definition only_if :: "bool \<Rightarrow> unit m \<Rightarrow> unit m" where
  "only_if b m = (if b then m else ret ())"

subsection \<open>Leaving and reporting\<close>

text \<open>
  The levels of syslog: \<open>LOG_ERR\<close> 3, \<open>LOG_WARNING\<close> 4, \<open>LOG_NOTICE\<close> 5, \<open>LOG_INFO\<close> 6,
  \<open>LOG_DEBUG\<close> 7. A message is recorded with where it goes (\<open>logging\<close>), its level and its format
  string; its arguments, such as the name of the program in its first part, are not filled in.
  Printing takes no reply: nothing depends on its success. When \<open>vasprintf\<close> finds no memory
  \<open>vprint_msg\<close> writes the same text in three parts.
\<close>

definition emit :: "call \<Rightarrow> unit m" where
  "emit c = (\<lambda>w. (Ret (), w\<lparr>trace := (c, rep 0) # trace w\<rparr>))"

definition vprint_msg :: "int \<Rightarrow> string \<Rightarrow> unit m" where
  "vprint_msg prio fmt =
     bnd (getg logging) (\<lambda>l.
     if l = LOGGING_STDERR then emit (Mi (Log l prio (''<'' @ fmt_d prio @ ''>'' @ fmt @ [newline])))
     else emit (Mi (Log l prio (''%s: '' @ fmt @ [newline]))))"

definition vprint_or_log_msg :: "int \<Rightarrow> string \<Rightarrow> unit m" where
  "vprint_or_log_msg prio fmt =
     bnd (getg log_level) (\<lambda>level.
     if level < prio then ret ()
     else bnd (getg logging) (\<lambda>l.
       if l = LOGGING_SYSLOG then emit (Mi (Log LOGGING_SYSLOG prio fmt))
       else vprint_msg prio fmt))"

definition init_log_standalone :: "unit m" where
  "init_log_standalone =
     bnd (getg logging) (\<lambda>l.
     seq (only_if (l = LOGGING_SYSLOG) (emit (Mi Closelog)))
         (modg (logging_update (\<lambda>_. LOGGING_STANDALONE))))"

definition init_log_daemon :: "bool \<Rightarrow> unit m" where
  "init_log_daemon is_foreground =
     (if is_foreground then
        bnd (getg logging) (\<lambda>l.
        seq (only_if (l = LOGGING_SYSLOG) (emit (Mi Closelog)))
            (modg (logging_update (\<lambda>_. LOGGING_STDERR))))
      else seq (emit (Mi Openlog)) (modg (logging_update (\<lambda>_. LOGGING_SYSLOG))))"

definition error_msg :: "string \<Rightarrow> unit m" where "error_msg fmt = vprint_or_log_msg 3 fmt"
definition warn_msg :: "string \<Rightarrow> unit m" where "warn_msg fmt = vprint_or_log_msg 4 fmt"
definition notice_msg :: "string \<Rightarrow> unit m" where "notice_msg fmt = vprint_or_log_msg 5 fmt"
definition info_msg :: "string \<Rightarrow> unit m" where "info_msg fmt = vprint_or_log_msg 6 fmt"
definition debug_msg :: "string \<Rightarrow> unit m" where "debug_msg fmt = vprint_or_log_msg 7 fmt"

text \<open>The macro of title.h; the title itself is not modelled.\<close>

abbreviation setproctitle :: "string \<Rightarrow> unit m" where
  "setproctitle fmt \<equiv> debug_msg (''process \"'' @ fmt @ ''\"'')"

text \<open>\<open>perror_msg\<close> appends \<open>": %m"\<close> to the format.\<close>

definition perror_msg :: "string \<Rightarrow> unit m" where "perror_msg fmt = error_msg (fmt @ '': %m'')"

definition c_exit :: "int \<Rightarrow> 'a m" where "c_exit n = stop (Exit n)"

text \<open>\<open>die\<close> of die.c exits with \<open>EXIT_FAILURE\<close>.\<close>

definition die :: "'a m" where "die = c_exit 1"

definition error_msg_and_die :: "string \<Rightarrow> 'a m" where
  "error_msg_and_die fmt = seq (error_msg fmt) die"

definition perror_msg_and_die :: "string \<Rightarrow> 'a m" where
  "perror_msg_and_die fmt = seq (perror_msg fmt) die"

text \<open>Pure code that may die, run in the monad.\<close>

definition lift_res :: "'a res \<Rightarrow> 'a m" where
  "lift_res x = (case x of Inl d \<Rightarrow> error_msg_and_die (diag_fmt d) | Inr y \<Rightarrow> ret y)"

end
