(* ===== verification/Monad_Logic.thy ===== *)
theory Monad_Logic
  imports Kernel
begin

text \<open>
  Reasoning about effectful code: the monad laws, weakest preconditions for results, and a
  logic of run properties. A run property relates the world before a piece of code with the
  world after it, whatever the replies were; every combinator preserves one that is reflexive,
  transitive and holds of each primitive, so that the properties of a handler follow from the
  calls it can make.
\<close>

subsection \<open>Monad laws\<close>

lemma bnd_ret [simp]: "bnd (ret x) f = f x"
  by (simp add: bnd_def ret_def)

lemma bnd_stop [simp]: "bnd (stop s) f = stop s"
  by (simp add: bnd_def stop_def)

lemma ret_bnd [simp]: "bnd m ret = m"
  by (auto simp: bnd_def ret_def split: prod.splits outcome.splits)

lemma bnd_assoc: "bnd (bnd m f) g = bnd m (\<lambda>x. bnd (f x) g)"
  by (auto simp: bnd_def split: prod.splits outcome.splits)

lemma seq_ret [simp]: "seq (ret x) m = m"
  by (simp add: seq_def)

lemma seq_stop [simp]: "seq (stop s) m = stop s"
  by (simp add: seq_def)

lemma bnd_cong [fundef_cong]:
  assumes "m w = m' w'" and "\<And>x v. m' w' = (Ret x, v) \<Longrightarrow> f x v = f' x v" and "w = w'"
  shows "bnd m f w = bnd m' f' w'"
  using assms by (auto simp: bnd_def split: prod.splits outcome.splits)

subsection \<open>Weakest preconditions\<close>

text \<open>
  \<open>wp m Q E w\<close>: run in \<open>w\<close>, \<open>m\<close> returns a value and a world that satisfy \<open>Q\<close>, or stops
  for a reason and in a world that satisfy \<open>E\<close>.
\<close>

definition wp :: "'a m \<Rightarrow> ('a \<Rightarrow> world \<Rightarrow> bool) \<Rightarrow> (stop \<Rightarrow> world \<Rightarrow> bool) \<Rightarrow> world \<Rightarrow> bool" where
  "wp m Q E w = (case m w of (Ret x, w') \<Rightarrow> Q x w' | (Stop s, w') \<Rightarrow> E s w')"

lemma wpI:
  assumes "\<And>x w'. m w = (Ret x, w') \<Longrightarrow> Q x w'" and "\<And>s w'. m w = (Stop s, w') \<Longrightarrow> E s w'"
  shows "wp m Q E w"
  using assms by (auto simp: wp_def split: prod.splits outcome.splits)

lemma wp_RetD: "wp m Q E w \<Longrightarrow> m w = (Ret x, w') \<Longrightarrow> Q x w'"
  by (simp add: wp_def)

lemma wp_StopD: "wp m Q E w \<Longrightarrow> m w = (Stop s, w') \<Longrightarrow> E s w'"
  by (simp add: wp_def)

lemma wp_conseq:
  assumes "wp m Q E w" and "\<And>x w'. Q x w' \<Longrightarrow> Q' x w'" and "\<And>s w'. E s w' \<Longrightarrow> E' s w'"
  shows "wp m Q' E' w"
  using assms by (auto simp: wp_def split: prod.splits outcome.splits)

lemma wp_conj: "wp m Q E w \<Longrightarrow> wp m Q' E' w \<Longrightarrow>
    wp m (\<lambda>x w'. Q x w' \<and> Q' x w') (\<lambda>s w'. E s w' \<and> E' s w') w"
  by (auto simp: wp_def split: prod.splits outcome.splits)

lemma wp_bnd [wp_simps]: "wp (bnd m f) Q E w = wp m (\<lambda>x. wp (f x) Q E) E w"
  by (auto simp: wp_def bnd_def split: prod.splits outcome.splits)

lemma wp_seq [wp_simps]: "wp (seq m n) Q E w = wp m (\<lambda>_. wp n Q E) E w"
  by (simp add: seq_def wp_bnd)

lemma wp_ret [wp_simps]: "wp (ret x) Q E w = Q x w"
  by (simp add: wp_def ret_def)

lemma wp_stop [wp_simps]: "wp (stop s) Q E w = E s w"
  by (simp add: wp_def stop_def)

lemma wp_getg [wp_simps]: "wp (getg f) Q E w = Q (f (gl w)) w"
  by (simp add: wp_def getg_def)

lemma wp_modg [wp_simps]: "wp (modg f) Q E w = Q () (w\<lparr>gl := f (gl w)\<rparr>)"
  by (simp add: wp_def modg_def)

lemma wp_sys [wp_simps]:
  "wp (sys c) Q E w = (case replies w of [] \<Rightarrow> E Blocked w | r # rs \<Rightarrow> Q r (answer c r rs w))"
  by (simp add: wp_def sys_def split: list.splits)

lemma wp_sys_fs [wp_simps]: "wp (sys_fs c) Q E w = wp (sys (Fs c)) Q E w"
  and wp_sys_fd [wp_simps]: "wp (sys_fd d) Q E w = wp (sys (Fd d)) Q E w"
  and wp_sys_pr [wp_simps]: "wp (sys_pr p) Q E w = wp (sys (Pr p)) Q E w"
  and wp_sys_mi [wp_simps]: "wp (sys_mi i) Q E w = wp (sys (Mi i)) Q E w"
  by (simp_all add: sys_fs_def sys_fd_def sys_pr_def sys_mi_def)

lemma wp_emit [wp_simps]: "wp (emit c) Q E w = Q () (w\<lparr>trace := (c, rep 0) # trace w\<rparr>)"
  by (simp add: wp_def emit_def)

lemma wp_if [wp_simps]: "wp (if b then m else n) Q E w = (if b then wp m Q E w else wp n Q E w)"
  by simp

lemma wp_c_exit [wp_simps]: "wp (c_exit n) Q E w = E (Exit n) w"
  by (simp add: c_exit_def wp_stop)

lemma wp_die [wp_simps]: "wp die Q E w = E (Exit 1) w"
  by (simp add: die_def wp_c_exit)

subsection \<open>Run properties\<close>

definition runs :: "(world \<Rightarrow> world \<Rightarrow> bool) \<Rightarrow> 'a m \<Rightarrow> bool" where
  "runs R m \<longleftrightarrow> (\<forall>w. R w (snd (m w)))"

lemma runsD: "runs R m \<Longrightarrow> m w = (x, w') \<Longrightarrow> R w w'"
  by (auto simp: runs_def) (metis snd_conv)

lemma runs_if: "(b \<Longrightarrow> runs R m) \<Longrightarrow> (\<not> b \<Longrightarrow> runs R n) \<Longrightarrow> runs R (if b then m else n)"
  by simp

lemma runs_option:
  "(x = None \<Longrightarrow> runs R m) \<Longrightarrow> (\<And>y. x = Some y \<Longrightarrow> runs R (f y)) \<Longrightarrow>
     runs R (case x of None \<Rightarrow> m | Some y \<Rightarrow> f y)"
  by (cases x) auto

lemma runs_list:
  "(xs = [] \<Longrightarrow> runs R m) \<Longrightarrow> (\<And>y ys. xs = y # ys \<Longrightarrow> runs R (f y ys)) \<Longrightarrow>
     runs R (case xs of [] \<Rightarrow> m | y # ys \<Rightarrow> f y ys)"
  by (cases xs) auto

lemma runs_prod: "(\<And>a b. p = (a, b) \<Longrightarrow> runs R (f a b)) \<Longrightarrow> runs R (case p of (a, b) \<Rightarrow> f a b)"
  by (cases p) auto

lemma runs_sum:
  "(\<And>a. x = Inl a \<Longrightarrow> runs R (f a)) \<Longrightarrow> (\<And>b. x = Inr b \<Longrightarrow> runs R (g b)) \<Longrightarrow>
     runs R (case x of Inl a \<Rightarrow> f a | Inr b \<Rightarrow> g b)"
  by (cases x) auto

lemma runs_Let: "(\<And>y. y = x \<Longrightarrow> runs R (f y)) \<Longrightarrow> runs R (Let x f)"
  by (simp add: Let_def)

lemmas runs_cases = runs_if runs_option runs_list runs_prod runs_sum runs_Let

text \<open>
  The interface: a preorder on worlds that holds across every permitted call, every record
  of a message and every permitted change of the globals.
\<close>

locale run_property =
  fixes R :: "world \<Rightarrow> world \<Rightarrow> bool"
    and ok_call :: "call \<Rightarrow> bool"
    and ok_mod :: "(globals \<Rightarrow> globals) \<Rightarrow> bool"
  assumes refl: "R w w"
    and trans: "R u v \<Longrightarrow> R v w \<Longrightarrow> R u w"
    and answer: "ok_call c \<Longrightarrow> replies w = r # rs \<Longrightarrow> R w (answer c r rs w)"
    and emit: "ok_call c \<Longrightarrow> R w (w\<lparr>trace := (c, rep 0) # trace w\<rparr>)"
    and change: "ok_mod f \<Longrightarrow> R w (w\<lparr>gl := f (gl w)\<rparr>)"
    and log: "ok_call (Mi (Log l p s))"
begin

lemma ret: "runs R (ret x)"
  by (simp add: runs_def ret_def refl)

lemma stop: "runs R (stop s)"
  by (simp add: runs_def stop_def refl)

lemma bnd: "runs R m \<Longrightarrow> (\<And>x. runs R (f x)) \<Longrightarrow> runs R (bnd m f)"
  unfolding runs_def bnd_def
  by (auto split: prod.splits outcome.splits) (metis snd_conv trans)+

lemma seq: "runs R m \<Longrightarrow> runs R n \<Longrightarrow> runs R (seq m n)"
  by (simp add: seq_def bnd)

lemma sys: "ok_call c \<Longrightarrow> runs R (sys c)"
  by (auto simp: runs_def sys_def refl answer split: list.splits)

lemma sys_fs: "ok_call (Fs c) \<Longrightarrow> runs R (sys_fs c)"
  and sys_fd: "ok_call (Fd d) \<Longrightarrow> runs R (sys_fd d)"
  and sys_pr: "ok_call (Pr p) \<Longrightarrow> runs R (sys_pr p)"
  and sys_mi: "ok_call (Mi i) \<Longrightarrow> runs R (sys_mi i)"
  by (simp_all add: sys_fs_def sys_fd_def sys_pr_def sys_mi_def sys)

lemma getg: "runs R (getg f)"
  by (simp add: runs_def getg_def refl)

lemma modg: "ok_mod f \<Longrightarrow> runs R (modg f)"
  by (simp add: runs_def modg_def change)

lemma emit_run: "ok_call c \<Longrightarrow> runs R (Kernel.emit c)"
  by (simp add: runs_def Kernel.emit_def emit)

lemma retry_over_run:
  assumes c: "ok_call c"
  shows "replies w = rs \<Longrightarrow> R w (snd (retry_over c rs w))"
proof (induction rs arbitrary: w)
  case Nil
  then show ?case by (simp add: refl)
next
  case (Cons r rs)
  let ?w = "Kernel.answer c r rs w"
  have s: "R w ?w" using c Cons.prems by (rule answer)
  have "R ?w (snd (retry_over c rs ?w))"
    using Cons.IH [of ?w] by (simp add: Kernel.answer_def)
  with s have "R w (snd (retry_over c rs ?w))" by (rule trans)
  with s show ?case by (simp add: Let_def)
qed

lemma temp_failure_retry: "ok_call c \<Longrightarrow> runs R (temp_failure_retry c)"
  by (simp add: runs_def temp_failure_retry_def retry_over_run)

lemma for_each: "(\<And>x. x \<in> set xs \<Longrightarrow> runs R (f x)) \<Longrightarrow> runs R (for_each xs f)"
  by (induction xs) (auto intro: ret seq)

lemma loop: "(\<And>s. runs R (body s)) \<Longrightarrow> runs R (loop n body s)"
  by (induction n arbitrary: s) (auto intro!: stop bnd runs_sum intro: ret)

lemma event_loop: "(\<And>s. runs R (body s)) \<Longrightarrow> runs R (event_loop body s)"
  using loop [of body] unfolding runs_def event_loop_def by blast

lemma c_exit: "runs R (c_exit n)"
  by (simp add: c_exit_def stop)

lemma die: "runs R die"
  by (simp add: die_def c_exit)

lemma vprint_or_log_msg: "runs R (vprint_or_log_msg p s)"
  unfolding vprint_or_log_msg_def vprint_msg_def by (intro bnd getg runs_if ret emit_run log)

lemma error_msg: "runs R (error_msg s)"
  and warn_msg: "runs R (warn_msg s)"
  and notice_msg: "runs R (notice_msg s)"
  and info_msg: "runs R (info_msg s)"
  and debug_msg: "runs R (debug_msg s)"
  and perror_msg: "runs R (perror_msg s)"
  by (simp_all add: error_msg_def warn_msg_def notice_msg_def info_msg_def debug_msg_def
      perror_msg_def vprint_or_log_msg)

lemma error_msg_and_die: "runs R (error_msg_and_die s)"
  and perror_msg_and_die: "runs R (perror_msg_and_die s)"
  by (simp_all add: error_msg_and_die_def perror_msg_and_die_def seq error_msg perror_msg die)

lemma lift_res: "runs R (lift_res x)"
  by (cases x) (simp_all add: lift_res_def error_msg_and_die ret)

lemma only_if: "(b \<Longrightarrow> runs R m) \<Longrightarrow> runs R (only_if b m)"
  by (simp add: only_if_def ret)

lemmas rules =
  ret stop bnd seq sys sys_fs sys_fd sys_pr sys_mi getg modg emit_run temp_failure_retry for_each
  loop event_loop c_exit die vprint_or_log_msg error_msg warn_msg notice_msg info_msg debug_msg
  perror_msg error_msg_and_die perror_msg_and_die lift_res only_if

end

subsection \<open>The calls a piece of code can make\<close>

definition extends_by :: "(call \<Rightarrow> bool) \<Rightarrow> world \<Rightarrow> world \<Rightarrow> bool" where
  "extends_by C w w' \<longleftrightarrow> (\<exists>new. trace w' = new @ trace w \<and> (\<forall>(c, r) \<in> set new. C c))"

text \<open>\<open>emits C m\<close>: besides messages, every call \<open>m\<close> makes satisfies \<open>C\<close>.\<close>

definition or_log :: "(call \<Rightarrow> bool) \<Rightarrow> call \<Rightarrow> bool" where
  "or_log C c \<longleftrightarrow> C c \<or> (\<exists>l p s. c = Mi (Log l p s))"

abbreviation emits :: "(call \<Rightarrow> bool) \<Rightarrow> 'a m \<Rightarrow> bool" where
  "emits C m \<equiv> runs (extends_by (or_log C)) m"

interpretation em: run_property "extends_by (or_log C)" "or_log C" "\<lambda>_. True" for C
proof unfold_locales
  show "extends_by (or_log C) u w" if "extends_by (or_log C) u v" "extends_by (or_log C) v w" for u v w
    using that by (force simp: extends_by_def)
qed (auto simp: extends_by_def or_log_def answer_def)

lemma or_log_I: "C c \<Longrightarrow> or_log C c"
  by (simp add: or_log_def)

lemmas emits_rules [inv_intros] = em.rules or_log_I runs_cases

lemma emits_mono: "emits C m \<Longrightarrow> (\<And>c. C c \<Longrightarrow> D c) \<Longrightarrow> emits D m"
  unfolding runs_def extends_by_def or_log_def by blast

lemma emits_trace:
  assumes "emits C m" and "m w = (x, w')"
  obtains new where "trace w' = new @ trace w" and "\<And>c r. (c, r) \<in> set new \<Longrightarrow> or_log C c"
  using runsD [OF assms] by (auto simp: extends_by_def)

text \<open>Every piece of code only extends the trace.\<close>

lemma emits_suffix:
  assumes "emits C m" and "m w = (x, w')"
  shows "set (trace w) \<subseteq> set (trace w')"
  using emits_trace [OF assms] by (metis Un_upper2 set_append)

subsection \<open>Replies are consumed\<close>

text \<open>No code makes replies up, and none takes back a call.\<close>

definition consumes :: "world \<Rightarrow> world \<Rightarrow> bool" where
  "consumes w w' \<longleftrightarrow> length (replies w') \<le> length (replies w) \<and> (\<exists>new. trace w' = new @ trace w)"

interpretation co: run_property consumes "\<lambda>_. True" "\<lambda>_. True"
  by unfold_locales (fastforce simp: consumes_def answer_def)+

text \<open>
  \<open>never_out_of_fuel m\<close>: no loop bound in \<open>m\<close> is too small. \<open>progress m\<close>: when \<open>m\<close> returns,
  it has taken a reply.
\<close>

definition never_out_of_fuel :: "'a m \<Rightarrow> bool" where
  "never_out_of_fuel m \<longleftrightarrow> (\<forall>w. fst (m w) \<noteq> Stop NoFuel)"

definition progress :: "'a m \<Rightarrow> bool" where
  "progress m \<longleftrightarrow> (\<forall>w x w'. m w = (Ret x, w') \<longrightarrow> length (replies w') < length (replies w))"

lemma loop_fuel:
  assumes "\<And>s. never_out_of_fuel (body s)" and "\<And>s. progress (body s)"
  shows "length (replies w) < n \<Longrightarrow> fst (loop n body s w) \<noteq> Stop NoFuel"
proof (induction n arbitrary: s w)
  case 0
  then show ?case by simp
next
  case (Suc n)
  show ?case
  proof (cases "body s w")
    case (Pair out w')
    show ?thesis
    proof (cases out)
      case (Stop st)
      with Pair assms(1) [of s] show ?thesis
        by (auto simp: bnd_def never_out_of_fuel_def) (metis fst_conv)
    next
      case (Ret x)
      with Pair assms(2) have "length (replies w') < length (replies w)"
        by (auto simp: progress_def)
      with Suc.prems have "length (replies w') < n" by simp
      then have "fst (loop n body s' w') \<noteq> Stop NoFuel" for s' by (rule Suc.IH)
      then show ?thesis using Pair Ret by (cases x) (auto simp: bnd_def ret_def)
    qed
  qed
qed

lemma event_loop_fuel:
  assumes "\<And>s. never_out_of_fuel (body s)" and "\<And>s. progress (body s)"
  shows "never_out_of_fuel (event_loop body s)"
  using loop_fuel [of body, OF assms]
  by (simp add: never_out_of_fuel_def event_loop_def del: loop.simps)

lemma nf_bnd: "never_out_of_fuel m \<Longrightarrow> (\<And>x. never_out_of_fuel (f x)) \<Longrightarrow> never_out_of_fuel (bnd m f)"
  unfolding never_out_of_fuel_def bnd_def
  by (auto split: prod.splits outcome.splits) (metis fst_conv)+

lemma nf_seq: "never_out_of_fuel m \<Longrightarrow> never_out_of_fuel n \<Longrightarrow> never_out_of_fuel (seq m n)"
  by (simp add: seq_def nf_bnd)

lemma nf_ret: "never_out_of_fuel (ret x)"
  and nf_stop: "s \<noteq> NoFuel \<Longrightarrow> never_out_of_fuel (stop s)"
  and nf_sys: "never_out_of_fuel (sys c)"
  and nf_getg: "never_out_of_fuel (getg h)"
  and nf_modg: "never_out_of_fuel (modg k)"
  and nf_emit: "never_out_of_fuel (emit e)"
  by (simp_all add: never_out_of_fuel_def ret_def stop_def sys_def getg_def modg_def emit_def
      split: list.splits)

lemma nf_retry: "never_out_of_fuel (temp_failure_retry c)"
proof -
  have "fst (retry_over c rs w) \<noteq> Stop NoFuel" for rs w
    by (induction rs arbitrary: w) (auto simp: Let_def)
  then show ?thesis by (simp add: never_out_of_fuel_def temp_failure_retry_def)
qed

lemma nf_for_each: "(\<And>x. x \<in> set xs \<Longrightarrow> never_out_of_fuel (f x)) \<Longrightarrow> never_out_of_fuel (for_each xs f)"
  by (induction xs) (auto intro: nf_ret nf_seq)

lemma nf_if: "(b \<Longrightarrow> never_out_of_fuel m) \<Longrightarrow> (\<not> b \<Longrightarrow> never_out_of_fuel n) \<Longrightarrow>
    never_out_of_fuel (if b then m else n)"
  by simp

lemma nf_log: "never_out_of_fuel (vprint_or_log_msg p s)"
  unfolding vprint_or_log_msg_def vprint_msg_def by (intro nf_bnd nf_getg nf_if nf_ret nf_emit)

lemma nf_exit: "never_out_of_fuel (c_exit n)"
  by (simp add: c_exit_def nf_stop)

lemma nf_sys_family: "never_out_of_fuel (sys_fs a)" "never_out_of_fuel (sys_fd b)"
    "never_out_of_fuel (sys_pr c)" "never_out_of_fuel (sys_mi d)"
  by (simp_all add: sys_fs_def sys_fd_def sys_pr_def sys_mi_def nf_sys)

lemma nf_msgs: "never_out_of_fuel (error_msg s)" "never_out_of_fuel (warn_msg s)"
    "never_out_of_fuel (notice_msg s)" "never_out_of_fuel (info_msg s)"
    "never_out_of_fuel (debug_msg s)" "never_out_of_fuel (perror_msg s)"
  by (simp_all add: error_msg_def warn_msg_def notice_msg_def info_msg_def debug_msg_def
      perror_msg_def nf_log)

lemma nf_die: "never_out_of_fuel die" "never_out_of_fuel (error_msg_and_die s)"
    "never_out_of_fuel (perror_msg_and_die s)"
  by (simp_all add: die_def error_msg_and_die_def perror_msg_and_die_def nf_exit nf_seq nf_msgs)

lemma nf_lift_res: "never_out_of_fuel (lift_res x)"
  by (cases x) (simp_all add: lift_res_def nf_die nf_ret)

lemma nf_only_if: "(b \<Longrightarrow> never_out_of_fuel m) \<Longrightarrow> never_out_of_fuel (only_if b m)"
  by (simp add: only_if_def nf_ret)

lemma nf_cases:
  "(x = None \<Longrightarrow> never_out_of_fuel m) \<Longrightarrow> (\<And>y. x = Some y \<Longrightarrow> never_out_of_fuel (f y)) \<Longrightarrow>
     never_out_of_fuel (case x of None \<Rightarrow> m | Some y \<Rightarrow> f y)"
  "(xs = [] \<Longrightarrow> never_out_of_fuel n) \<Longrightarrow> (\<And>y ys. xs = y # ys \<Longrightarrow> never_out_of_fuel (g y ys)) \<Longrightarrow>
     never_out_of_fuel (case xs of [] \<Rightarrow> n | y # ys \<Rightarrow> g y ys)"
  "(\<And>a b. p = (a, b) \<Longrightarrow> never_out_of_fuel (h a b)) \<Longrightarrow> never_out_of_fuel (case p of (a, b) \<Rightarrow> h a b)"
  by (cases x; simp; fail)+ (cases xs; simp; fail | cases p; simp; fail)+

lemma nf_sum:
  "(\<And>a. x = Inl a \<Longrightarrow> never_out_of_fuel (f a)) \<Longrightarrow> (\<And>b. x = Inr b \<Longrightarrow> never_out_of_fuel (g b)) \<Longrightarrow>
     never_out_of_fuel (case x of Inl a \<Rightarrow> f a | Inr b \<Rightarrow> g b)"
  by (cases x) auto

lemma nf_Let: "(\<And>y. y = x \<Longrightarrow> never_out_of_fuel (f y)) \<Longrightarrow> never_out_of_fuel (Let x f)"
  by (simp add: Let_def)

lemmas nf_rules =
  nf_bnd nf_seq nf_ret nf_sys nf_getg nf_modg nf_emit nf_retry nf_for_each nf_if nf_log nf_exit
  nf_sys_family nf_msgs nf_die nf_lift_res nf_only_if nf_cases nf_sum nf_Let

lemma progress_bnd_left:
  assumes "progress m" and "\<And>x. runs consumes (f x)"
  shows "progress (bnd m f)"
  unfolding progress_def
proof (intro allI impI)
  fix w x w'
  assume "bnd m f w = (Ret x, w')"
  then obtain y v where m: "m w = (Ret y, v)" and f: "f y v = (Ret x, w')"
    by (auto simp: bnd_def split: prod.splits outcome.splits)
  have "length (replies v) < length (replies w)" using assms(1) m by (auto simp: progress_def)
  moreover have "length (replies w') \<le> length (replies v)"
    using runsD [OF assms(2) f] by (simp add: consumes_def)
  ultimately show "length (replies w') < length (replies w)" by simp
qed

lemma progress_sys: "progress (sys c)"
  by (auto simp: progress_def sys_def answer_def split: list.splits)

lemma progress_sys_family: "progress (sys_fs a)" "progress (sys_fd b)"
    "progress (sys_pr c)" "progress (sys_mi d)"
  by (simp_all add: sys_fs_def sys_fd_def sys_pr_def sys_mi_def progress_sys)

lemma progress_retry: "progress (temp_failure_retry c)"
proof -
  have "replies w = rs \<Longrightarrow> retry_over c rs w = (Ret x, w') \<Longrightarrow> length (replies w') < length rs" for rs w x w'
  proof (induction rs arbitrary: w)
    case (Cons r rs)
    then show ?case
      by (auto simp: Let_def answer_def split: if_splits) (metis less_Suc_eq world.select_convs(1) world.surjective world.update_convs(1) world.update_convs(2))
  qed simp
  then show ?thesis by (auto simp: progress_def temp_failure_retry_def)
qed

text \<open>
  A loop of which only the rounds that go on take a reply: \<open>progress_on P m\<close> is progress when
  the value returned satisfies \<open>P\<close>.
\<close>

definition progress_on :: "('a \<Rightarrow> bool) \<Rightarrow> 'a m \<Rightarrow> bool" where
  "progress_on P m \<longleftrightarrow> (\<forall>w x w'. m w = (Ret x, w') \<longrightarrow> P x \<longrightarrow> length (replies w') < length (replies w))"

lemma progress_on_ret: "\<not> P x \<Longrightarrow> progress_on P (ret x)"
  by (simp add: progress_on_def ret_def)

lemma progress_on_if: "(b \<Longrightarrow> progress_on P m) \<Longrightarrow> (\<not> b \<Longrightarrow> progress_on P n) \<Longrightarrow> progress_on P (if b then m else n)"
  by simp

lemma progress_on_left:
  "progress m \<Longrightarrow> (\<And>x. runs consumes (f x)) \<Longrightarrow> progress_on P (bnd m f)"
  using progress_bnd_left [of m f] by (simp add: progress_def progress_on_def)

lemma progress_on_right:
  assumes "runs consumes m" and "\<And>x. progress_on P (f x)"
  shows "progress_on P (bnd m f)"
  unfolding progress_on_def
proof (intro allI impI)
  fix w x w'
  assume r: "bnd m f w = (Ret x, w')" and P: "P x"
  then obtain y v where m: "m w = (Ret y, v)" and f: "f y v = (Ret x, w')"
    by (auto simp: bnd_def split: prod.splits outcome.splits)
  from f P assms(2) have "length (replies w') < length (replies v)" unfolding progress_on_def by blast
  moreover have "length (replies v) \<le> length (replies w)"
    using runsD [OF assms(1) m] by (simp add: consumes_def)
  ultimately show "length (replies w') < length (replies w)" by simp
qed

lemma progress_on_seq: "runs consumes m \<Longrightarrow> progress_on P n \<Longrightarrow> progress_on P (seq m n)"
  unfolding seq_def by (rule progress_on_right)

lemma progress_on_exit: "progress_on P (c_exit n)" "progress_on P (stop st)"
  by (simp_all add: progress_on_def c_exit_def stop_def)

abbreviation goes_on :: "'s + 'r \<Rightarrow> bool" where
  "goes_on x \<equiv> \<exists>s. x = Inl s"

lemma loop_fuel_on:
  assumes "\<And>s. never_out_of_fuel (body s)" and "\<And>s. progress_on goes_on (body s)"
  shows "length (replies w) < n \<Longrightarrow> fst (loop n body s w) \<noteq> Stop NoFuel"
proof (induction n arbitrary: s w)
  case 0
  then show ?case by simp
next
  case (Suc n)
  obtain out w' where b: "body s w = (out, w')" by (cases "body s w")
  show ?case
  proof (cases out)
    case (Stop st)
    with b assms(1) [of s] have "st \<noteq> NoFuel" unfolding never_out_of_fuel_def by (metis fst_conv)
    with b Stop show ?thesis by (simp add: bnd_def)
  next
    case (Ret x)
    show ?thesis
    proof (cases x)
      case (Inl s')
      with b Ret assms(2) [of s] have "length (replies w') < length (replies w)"
        unfolding progress_on_def by blast
      with Suc.prems have "fst (loop n body s' w') \<noteq> Stop NoFuel" by (intro Suc.IH) simp
      with b Ret Inl show ?thesis by (simp add: bnd_def)
    next
      case (Inr r)
      with b Ret show ?thesis by (simp add: bnd_def ret_def)
    qed
  qed
qed

lemma event_loop_fuel_on:
  assumes "\<And>s. never_out_of_fuel (body s)" and "\<And>s. progress_on goes_on (body s)"
  shows "never_out_of_fuel (event_loop body s)"
  using loop_fuel_on [of body, OF assms]
  by (simp add: never_out_of_fuel_def event_loop_def del: loop.simps)

subsection \<open>What a retried call leaves behind\<close>

text \<open>
  A retried call that returns was made once more than it failed with \<open>EINTR\<close>; one that does not
  return is waiting.
\<close>

definition interrupted :: "reply \<Rightarrow> bool" where
  "interrupted r \<longleftrightarrow> r_ret r = -1 \<and> r_errno r = EINTR"

lemma retry_over_Ret:
  "replies w = rs \<Longrightarrow> retry_over c rs w = (Ret r, w') \<Longrightarrow>
     \<exists>fails. trace w' = (c, r) # map (Pair c) fails @ trace w \<and> (\<forall>f \<in> set fails. interrupted f)
       \<and> \<not> interrupted r \<and> gl w' = gl w \<and> rs = rev fails @ r # replies w'"
proof (induction rs arbitrary: w)
  case Nil
  then show ?case by simp
next
  case (Cons q rs)
  let ?w = "answer c q rs w"
  show ?case
  proof (cases "interrupted q")
    case True
    then have "retry_over c rs ?w = (Ret r, w')"
      using Cons.prems(2) by (simp add: interrupted_def)
    moreover have "replies ?w = rs" by (simp add: answer_def)
    ultimately obtain fails where
      f: "trace w' = (c, r) # map (Pair c) fails @ trace ?w" "\<forall>f \<in> set fails. interrupted f"
      "\<not> interrupted r" "gl w' = gl ?w" "rs = rev fails @ r # replies w'"
      using Cons.IH by blast
    show ?thesis
      by (rule exI [of _ "fails @ [q]"]) (use f True in \<open>auto simp: answer_def\<close>)
  next
    case False
    then have "r = q" "w' = ?w" using Cons.prems(2) by (auto simp: interrupted_def Let_def)
    then show ?thesis using False by (intro exI [of _ "[]"]) (simp add: answer_def)
  qed
qed

lemma retry_Ret:
  assumes "temp_failure_retry c w = (Ret r, w')"
  obtains fails where "trace w' = (c, r) # map (Pair c) fails @ trace w"
    and "\<forall>f \<in> set fails. interrupted f" and "\<not> interrupted r" and "gl w' = gl w"
    and "replies w = rev fails @ r # replies w'"
  using retry_over_Ret [OF HOL.refl] assms unfolding temp_failure_retry_def by blast

lemma retry_Stop: "temp_failure_retry c w = (Stop s, w') \<Longrightarrow> s = Blocked"
proof -
  have "retry_over c rs v = (Stop s, w') \<Longrightarrow> s = Blocked" for rs v
    by (induction rs arbitrary: v) (auto simp: Let_def split: if_splits)
  then show "temp_failure_retry c w = (Stop s, w') \<Longrightarrow> s = Blocked"
    by (auto simp: temp_failure_retry_def)
qed

lemma wp_retry:
  assumes "\<And>r fails v. trace v = (c, r) # map (Pair c) fails @ trace w \<Longrightarrow>
      \<forall>f \<in> set fails. interrupted f \<Longrightarrow> \<not> interrupted r \<Longrightarrow> gl v = gl w \<Longrightarrow> Q r v"
    and "\<And>v. E Blocked v"
  shows "wp (temp_failure_retry c) Q E w"
proof (rule wpI)
  fix r v assume "temp_failure_retry c w = (Ret r, v)"
  then show "Q r v" by (rule retry_Ret) (rule assms(1))
next
  fix s v assume "temp_failure_retry c w = (Stop s, v)"
  then have "s = Blocked" by (rule retry_Stop)
  with assms(2) show "E s v" by simp
qed

lemma wp_imp_Ret: "wp m Q (\<lambda>_ _. True) w \<Longrightarrow> m w = (Ret x, w') \<Longrightarrow> Q x w'"
  by (rule wp_RetD)

subsection \<open>What a piece of code returns\<close>

text \<open>
  \<open>returns m Q\<close>: when \<open>m\<close> returns, its value satisfies \<open>Q\<close>, whatever the kernel answers.
  \<open>returns m (\<lambda>_. False)\<close> says that \<open>m\<close> does not return.
\<close>

definition returns :: "'a m \<Rightarrow> ('a \<Rightarrow> bool) \<Rightarrow> bool" where
  "returns m Q \<longleftrightarrow> (\<forall>w x w'. m w = (Ret x, w') \<longrightarrow> Q x)"

abbreviation noreturn :: "'a m \<Rightarrow> bool" where
  "noreturn m \<equiv> returns m (\<lambda>_. False)"

named_theorems returns_rules \<open>what the primitives and combinators return\<close>

lemma returnsD: "returns m Q \<Longrightarrow> m w = (Ret x, w') \<Longrightarrow> Q x"
  by (auto simp: returns_def)

lemma returns_True: "returns m (\<lambda>_. True)"
  by (simp add: returns_def)

lemma returns_weaken: "returns m P \<Longrightarrow> (\<And>x. P x \<Longrightarrow> Q x) \<Longrightarrow> returns m Q"
  by (auto simp: returns_def)

lemma noreturn_any: "noreturn m \<Longrightarrow> returns m Q"
  by (auto simp: returns_def)

lemma returns_ret [returns_rules]: "Q x \<Longrightarrow> returns (ret x) Q"
  and returns_stop [returns_rules]: "returns (stop s) Q"
  by (auto simp: returns_def ret_def stop_def)

lemma returns_bnd: "returns m P \<Longrightarrow> (\<And>x. P x \<Longrightarrow> returns (f x) Q) \<Longrightarrow> returns (bnd m f) Q"
  unfolding returns_def bnd_def by (fastforce split: prod.splits outcome.splits)

lemma returns_bnd_any [returns_rules]: "(\<And>x. returns (f x) Q) \<Longrightarrow> returns (bnd m f) Q"
  by (rule returns_bnd [OF returns_True])

lemma returns_seq [returns_rules]: "returns n Q \<Longrightarrow> returns (seq m n) Q"
  by (simp add: seq_def returns_bnd_any)

lemma returns_seq_left: "noreturn m \<Longrightarrow> returns (seq m n) Q"
  unfolding seq_def by (rule returns_bnd [where P = "\<lambda>_. False"]) auto

lemma returns_exit [returns_rules]:
  "returns (c_exit k) Q" "returns die Q" "returns (error_msg_and_die s) Q"
  "returns (perror_msg_and_die s) Q"
  by (simp_all add: c_exit_def die_def error_msg_and_die_def perror_msg_and_die_def returns_stop returns_seq)

lemma returns_lift_res [returns_rules]: "(\<And>y. x = Inr y \<Longrightarrow> Q y) \<Longrightarrow> returns (lift_res x) Q"
  by (cases x) (simp_all add: lift_res_def returns_exit returns_ret)

lemma returns_splits [returns_rules]:
  "(b \<Longrightarrow> returns m Q) \<Longrightarrow> (\<not> b \<Longrightarrow> returns n Q) \<Longrightarrow> returns (if b then m else n) Q"
  "(z = None \<Longrightarrow> returns m Q) \<Longrightarrow> (\<And>y. z = Some y \<Longrightarrow> returns (f y) Q) \<Longrightarrow>
     returns (case z of None \<Rightarrow> m | Some y \<Rightarrow> f y) Q"
  "(\<And>a c. p = (a, c) \<Longrightarrow> returns (g a c) Q) \<Longrightarrow> returns (case p of (a, c) \<Rightarrow> g a c) Q"
  "(xs = [] \<Longrightarrow> returns m Q) \<Longrightarrow> (\<And>y ys. xs = y # ys \<Longrightarrow> returns (h y ys) Q) \<Longrightarrow>
     returns (case xs of [] \<Rightarrow> m | y # ys \<Rightarrow> h y ys) Q"
  "(\<And>y. y = v \<Longrightarrow> returns (k y) Q) \<Longrightarrow> returns (Let v k) Q"
  by (cases z; simp; fail | cases p; simp; fail | cases xs; simp; fail | simp; fail)+

lemma returns_loop:
  assumes "I s" and "\<And>s. I s \<Longrightarrow> returns (body s) (\<lambda>x. case x of Inl s' \<Rightarrow> I s' | Inr r \<Rightarrow> Q r)"
  shows "returns (loop n body s) Q"
  using assms(1)
proof (induction n arbitrary: s)
  case 0
  then show ?case by (simp add: returns_stop)
next
  case (Suc n)
  show ?case
    unfolding loop.simps
  proof (rule returns_bnd [OF assms(2) [OF Suc.prems]])
    fix x assume "case x of Inl s' \<Rightarrow> I s' | Inr r \<Rightarrow> Q r"
    then show "returns (case x of Inl s' \<Rightarrow> loop n body s' | Inr r \<Rightarrow> ret r) Q"
      using Suc.IH by (cases x) (auto intro: returns_ret)
  qed
qed

lemma returns_event_loop:
  assumes "I s" and "\<And>s. I s \<Longrightarrow> returns (body s) (\<lambda>x. case x of Inl s' \<Rightarrow> I s' | Inr r \<Rightarrow> Q r)"
  shows "returns (event_loop body s) Q"
  using returns_loop [of I s body Q, OF assms] unfolding returns_def event_loop_def by blast

text \<open>
  The same with the world: a loop invariant on the state and the world, and any statement about
  the way the loop stops.
\<close>

lemma wp_loop:
  assumes "\<And>s w. I s w \<Longrightarrow> wp (body s) (\<lambda>x v. case x of Inl s' \<Rightarrow> I s' v | Inr r \<Rightarrow> Q r v) E w"
    and "\<And>s w. I s w \<Longrightarrow> E NoFuel w"
  shows "I s w \<Longrightarrow> wp (loop n body s) Q E w"
proof (induction n arbitrary: s w)
  case 0
  then show ?case using assms(2) by (simp add: wp_stop)
next
  case (Suc n)
  have "wp (body s) (\<lambda>x v. wp (case x of Inl s' \<Rightarrow> loop n body s' | Inr r \<Rightarrow> ret r) Q E v) E w"
    by (rule wp_conseq [OF assms(1) [OF Suc.prems]]) (auto simp: wp_ret Suc.IH split: sum.splits)
  then show ?case by (simp add: wp_bnd)
qed

text \<open>A loop with a measure: it never runs out of fuel.\<close>

lemma loop_measure:
  assumes "\<And>s. I s \<Longrightarrow> never_out_of_fuel (body s)"
    and "\<And>s. I s \<Longrightarrow> returns (body s) (\<lambda>x. case x of Inl s' \<Rightarrow> I s' \<and> f s' < f s | Inr r \<Rightarrow> True)"
  shows "I s \<Longrightarrow> f s < n \<Longrightarrow> never_out_of_fuel (loop n body s)"
proof (induction n arbitrary: s)
  case 0
  then show ?case by simp
next
  case (Suc n)
  show ?case
    unfolding never_out_of_fuel_def
  proof
    fix w
    show "fst (loop (Suc n) body s w) \<noteq> Stop NoFuel"
    proof (cases "body s w")
      case (Pair out v)
      show ?thesis
      proof (cases out)
        case (Stop st)
        with Pair assms(1) [OF Suc.prems(1)] show ?thesis
          by (auto simp: bnd_def never_out_of_fuel_def) (metis fst_conv)
      next
        case (Ret x)
        show ?thesis
        proof (cases x)
          case (Inl s')
          with Ret Pair assms(2) [OF Suc.prems(1)] Suc.prems(2) have "I s'" "f s' < n"
            by (force dest: returnsD)+
          then have "never_out_of_fuel (loop n body s')" by (rule Suc.IH)
          then show ?thesis using Pair Ret Inl by (simp add: bnd_def never_out_of_fuel_def)
        next
          case (Inr r)
          then show ?thesis using Pair Ret by (simp add: bnd_def ret_def)
        qed
      qed
    qed
  qed
qed

subsection \<open>Partial correctness, step by step\<close>

text \<open>
  \<open>pc m Q w\<close>: when \<open>m\<close> returns from \<open>w\<close>, the value and the world satisfy \<open>Q\<close>. The rules
  follow the structure of the code; a branch that dies leaves nothing to prove.
\<close>

abbreviation pc :: "'a m \<Rightarrow> ('a \<Rightarrow> world \<Rightarrow> bool) \<Rightarrow> world \<Rightarrow> bool" where
  "pc m Q w \<equiv> wp m Q (\<lambda>_ _. True) w"

named_theorems pc_rules \<open>rules for partial correctness\<close>

definition log_line :: "log_target \<Rightarrow> int \<Rightarrow> string \<Rightarrow> string" where
  "log_line l p s =
     (case l of
        LOGGING_SYSLOG \<Rightarrow> s
      | LOGGING_STDERR \<Rightarrow> ''<'' @ fmt_d p @ ''>'' @ s @ [newline]
      | LOGGING_STANDALONE \<Rightarrow> ''%s: '' @ s @ [newline])"

abbreviation log_entry :: "log_target \<Rightarrow> int \<Rightarrow> string \<Rightarrow> call" where
  "log_entry l p s \<equiv> Mi (Log l p (log_line l p s))"

definition logged :: "int \<Rightarrow> string \<Rightarrow> world \<Rightarrow> world" where
  "logged p s w =
     (if log_level (gl w) < p then w else w\<lparr>trace := (log_entry (logging (gl w)) p s, rep 0) # trace w\<rparr>)"

lemma answer_simps [simp]:
  "gl (answer c r rs w) = gl w" "trace (answer c r rs w) = (c, r) # trace w"
  "replies (answer c r rs w) = rs"
  by (simp_all add: answer_def)

lemma logged_simps [simp]: "gl (logged p s w) = gl w" "replies (logged p s w) = replies w"
  by (simp_all add: logged_def)

lemma logged_trace: "trace (logged p s w) = (if log_level (gl w) < p then [] else [(log_entry (logging (gl w)) p s, rep 0)]) @ trace w"
  by (simp add: logged_def)

lemma wp_msg [wp_simps]:
  "wp (vprint_or_log_msg p s) Q E w = Q () (logged p s w)"
  "wp (error_msg s) Q E w = Q () (logged 3 s w)" "wp (warn_msg s) Q E w = Q () (logged 4 s w)"
  "wp (notice_msg s) Q E w = Q () (logged 5 s w)" "wp (info_msg s) Q E w = Q () (logged 6 s w)"
  "wp (debug_msg s) Q E w = Q () (logged 7 s w)"
  "wp (perror_msg s) Q E w = Q () (logged 3 (s @ '': %m'') w)"
  by (simp_all add: error_msg_def warn_msg_def notice_msg_def info_msg_def debug_msg_def perror_msg_def
      vprint_or_log_msg_def vprint_msg_def log_line_def wp_bnd wp_getg wp_ret wp_emit logged_def wp_if split: log_target.split)

lemma wp_dies [wp_simps]:
  "wp (error_msg_and_die s) Q E w = E (Exit 1) (logged 3 s w)"
  "wp (perror_msg_and_die s) Q E w = E (Exit 1) (logged 3 (s @ '': %m'') w)"
  by (simp_all add: error_msg_and_die_def perror_msg_and_die_def wp_seq wp_msg wp_die)

lemma pc_sys [pc_rules]: "(\<And>r rs. replies w = r # rs \<Longrightarrow> Q r (answer c r rs w)) \<Longrightarrow> pc (sys c) Q w"
  by (auto simp: wp_sys split: list.splits)

lemma pc_sys_family [pc_rules]:
  "(\<And>r rs. replies w = r # rs \<Longrightarrow> Q r (answer (Fs a) r rs w)) \<Longrightarrow> pc (sys_fs a) Q w"
  "(\<And>r rs. replies w = r # rs \<Longrightarrow> Q r (answer (Fd b) r rs w)) \<Longrightarrow> pc (sys_fd b) Q w"
  "(\<And>r rs. replies w = r # rs \<Longrightarrow> Q r (answer (Pr d) r rs w)) \<Longrightarrow> pc (sys_pr d) Q w"
  "(\<And>r rs. replies w = r # rs \<Longrightarrow> Q r (answer (Mi e) r rs w)) \<Longrightarrow> pc (sys_mi e) Q w"
  by (auto simp: wp_simps split: list.splits)

lemma pc_comb [pc_rules]:
  "wp m (\<lambda>x. wp (f x) Q E) E w \<Longrightarrow> wp (bnd m f) Q E w"
  "wp m1 (\<lambda>_. wp m2 Q2 E) E w \<Longrightarrow> wp (seq m1 m2) Q2 E w"
  "Q y w \<Longrightarrow> wp (ret y) Q E w"
  "Q3 (h (gl w)) w \<Longrightarrow> wp (getg h) Q3 E w"
  "Q4 () (w\<lparr>gl := k (gl w)\<rparr>) \<Longrightarrow> wp (modg k) Q4 E w"
  "Q4 () (w\<lparr>trace := (c, rep 0) # trace w\<rparr>) \<Longrightarrow> wp (emit c) Q4 E w"
  "(b \<Longrightarrow> wp m3 Q E w) \<Longrightarrow> (\<not> b \<Longrightarrow> wp m4 Q E w) \<Longrightarrow> wp (if b then m3 else m4) Q E w"
  "(\<And>z. z = v \<Longrightarrow> wp (l z) Q E w) \<Longrightarrow> wp (Let v l) Q E w"
  by (auto simp: wp_simps)

lemma pc_cases [pc_rules]:
  "(z = None \<Longrightarrow> wp m Q E w) \<Longrightarrow> (\<And>y. z = Some y \<Longrightarrow> wp (f y) Q E w) \<Longrightarrow>
     wp (case z of None \<Rightarrow> m | Some y \<Rightarrow> f y) Q E w"
  "(xs = [] \<Longrightarrow> wp m Q E w) \<Longrightarrow> (\<And>a as. xs = a # as \<Longrightarrow> wp (g a as) Q E w) \<Longrightarrow>
     wp (case xs of [] \<Rightarrow> m | a # as \<Rightarrow> g a as) Q E w"
  "(\<And>a b. p = (a, b) \<Longrightarrow> wp (h a b) Q E w) \<Longrightarrow> wp (case p of (a, b) \<Rightarrow> h a b) Q E w"
  by (cases z; simp; fail | cases xs; simp; fail | cases p; simp; fail)+

lemma pc_msg [pc_rules]:
  "Q () (logged p s w) \<Longrightarrow> wp (vprint_or_log_msg p s) Q E w"
  "Q () (logged 3 s w) \<Longrightarrow> wp (error_msg s) Q E w" "Q () (logged 4 s w) \<Longrightarrow> wp (warn_msg s) Q E w"
  "Q () (logged 5 s w) \<Longrightarrow> wp (notice_msg s) Q E w" "Q () (logged 6 s w) \<Longrightarrow> wp (info_msg s) Q E w"
  "Q () (logged 7 s w) \<Longrightarrow> wp (debug_msg s) Q E w"
  "Q () (logged 3 (s @ '': %m'') w) \<Longrightarrow> wp (perror_msg s) Q E w"
  by (simp_all add: wp_msg)

lemma pc_stops [pc_rules]:
  "pc (stop st) Q w" "pc (c_exit n) Q w" "pc die Q w" "pc (error_msg_and_die s) Q w"
  "pc (perror_msg_and_die s) Q w"
  by (simp_all add: wp_simps)

lemma pc_lift_res [pc_rules]: "(\<And>y. x = Inr y \<Longrightarrow> Q y w) \<Longrightarrow> pc (lift_res x) Q w"
  by (cases x) (simp_all add: lift_res_def wp_simps)

lemma pc_only_if [pc_rules]: "(b \<Longrightarrow> wp m Q E w) \<Longrightarrow> (\<not> b \<Longrightarrow> Q () w) \<Longrightarrow> wp (only_if b m) Q E w"
  by (simp add: only_if_def wp_simps)

lemma pcD: "pc m Q w \<Longrightarrow> m w = (Ret x, w') \<Longrightarrow> Q x w'"
  by (rule wp_RetD)

lemma pc_any: "(\<And>x v. Q x v) \<Longrightarrow> pc m Q w"
  by (rule wpI) auto

lemma pc_noreturn: "noreturn m \<Longrightarrow> pc m Q w"
  by (auto simp: returns_def intro!: wpI)

lemma pc_conseq: "pc m P w \<Longrightarrow> (\<And>x v. P x v \<Longrightarrow> Q x v) \<Longrightarrow> pc m Q w"
  by (rule wp_conseq)

lemma pc_runs: "runs R m \<Longrightarrow> (\<And>x v. R w v \<Longrightarrow> Q x v) \<Longrightarrow> pc m Q w"
  by (auto intro!: wpI dest: runsD)

lemma pc_for_each:
  assumes "I w" and "\<And>x v. x \<in> set xs \<Longrightarrow> I v \<Longrightarrow> pc (f x) (\<lambda>_. I) v" and "\<And>v. I v \<Longrightarrow> Q () v"
  shows "pc (for_each xs f) Q w"
  using assms
proof (induction xs arbitrary: w)
  case Nil
  then show ?case by (simp add: wp_ret)
next
  case (Cons x xs)
  then show ?case by (auto simp: wp_seq intro!: wp_conseq [OF Cons.prems(2) [of x w]])
qed

lemma wp_same: "wp m (\<lambda>_. P) (\<lambda>_. P) w \<longleftrightarrow> P (snd (m w))"
  by (cases "m w"; cases "fst (m w)") (auto simp: wp_def)

lemma runs_wp: "runs R m \<longleftrightarrow> (\<forall>w. wp m (\<lambda>_. R w) (\<lambda>_. R w) w)"
  by (simp add: runs_def wp_same)

lemma wp_lift_res [wp_simps]:
  "wp (lift_res x) Q E w = (case x of Inl d \<Rightarrow> E (Exit 1) (logged 3 (diag_fmt d) w) | Inr y \<Rightarrow> Q y w)"
  by (cases x) (simp_all add: lift_res_def wp_simps)

subsection \<open>Predicates on the globals that a piece of code keeps\<close>

definition keeps :: "(globals \<Rightarrow> bool) \<Rightarrow> world \<Rightarrow> world \<Rightarrow> bool" where
  "keeps P w w' \<longleftrightarrow> (P (gl w) \<longrightarrow> P (gl w'))"

definition stable :: "(globals \<Rightarrow> bool) \<Rightarrow> (globals \<Rightarrow> globals) \<Rightarrow> bool" where
  "stable P f \<longleftrightarrow> (\<forall>g. P g \<longrightarrow> P (f g))"

interpretation kp: run_property "keeps P" "\<lambda>_. True" "stable P" for P
  by unfold_locales (auto simp: keeps_def stable_def answer_def)

lemmas keeps_rules = kp.rules runs_cases

lemma pc_keeps: "runs (keeps P) m \<Longrightarrow> P (gl w) \<Longrightarrow> (\<And>x v. P (gl v) \<Longrightarrow> Q x v) \<Longrightarrow> pc m Q w"
  by (rule pc_runs [where R = "keeps P"]) (auto simp: keeps_def)

lemma em_bnd_returns:
  assumes "emits C m" and "returns m P" and "\<And>x. P x \<Longrightarrow> emits C (f x)"
  shows "emits C (bnd m f)"
  unfolding runs_def
proof
  fix w
  show "extends_by (or_log C) w (snd (bnd m f w))"
  proof (cases "m w")
    case (Pair out v)
    have 1: "extends_by (or_log C) w v" using assms(1) Pair by (auto simp: runs_def dest: spec [of _ w])
    show ?thesis
    proof (cases out)
      case (Ret x)
      with assms(2) Pair have "P x" by (auto dest: returnsD)
      then have "extends_by (or_log C) v (snd (f x v))" using assms(3) by (simp add: runs_def)
      with 1 have "extends_by (or_log C) w (snd (f x v))" by (rule em.trans)
      then show ?thesis using Pair Ret by (simp add: bnd_def)
    next
      case (Stop s)
      then show ?thesis using Pair 1 by (simp add: bnd_def)
    qed
  qed
qed

text \<open>The same, when what the calls may be depends on the globals at the start.\<close>

definition emits_from :: "(call \<Rightarrow> bool) \<Rightarrow> 'a m \<Rightarrow> world \<Rightarrow> bool" where
  "emits_from C m w \<longleftrightarrow> extends_by (or_log C) w (snd (m w))"

lemma emits_from_getg: "emits_from C (f (h (gl w))) w \<Longrightarrow> emits_from C (bnd (getg h) f) w"
  by (simp add: emits_from_def bnd_def getg_def)

lemma emits_from_all: "emits C m \<Longrightarrow> emits_from C m w"
  by (simp add: emits_from_def runs_def)

lemma emits_from_lift_res:
  "(\<And>y. x = Inr y \<Longrightarrow> emits_from C (f y) w) \<Longrightarrow> emits_from C (bnd (lift_res x) f) w"
proof (cases x)
  case (Inl d)
  have "emits C (bnd (error_msg_and_die (diag_fmt d)) f)"
    by (rule em_bnd_returns [OF em.error_msg_and_die returns_exit(3) [where Q = "\<lambda>_. False"]]) simp
  then show ?thesis by (simp add: Inl lift_res_def emits_from_all)
qed (simp add: lift_res_def)

subsection \<open>Evaluating code on a concrete world\<close>

lemma seq_assoc: "seq (seq m n) k = seq m (seq n k)"
  by (simp add: seq_def bnd_assoc)

text \<open>One statement after the other, a branch that dies cutting off what follows.\<close>

lemma dies_bnd:
  "bnd (error_msg_and_die s) f = error_msg_and_die s" "bnd (perror_msg_and_die s) f = perror_msg_and_die s"
  "bnd die f = die" "bnd (c_exit n) f = c_exit n"
  by (auto simp: error_msg_and_die_def perror_msg_and_die_def die_def c_exit_def seq_def bnd_assoc)

lemma dies_seq:
  "seq (error_msg_and_die s) k = error_msg_and_die s" "seq (perror_msg_and_die s) k = perror_msg_and_die s"
  "seq die k = die" "seq (c_exit n) k = c_exit n"
  by (simp_all add: seq_def dies_bnd)

lemma bnd_if: "bnd (if b then m else n) f = (if b then bnd m f else bnd n f)"
  and seq_if: "seq (if b then m else n) k = (if b then seq m k else seq n k)"
  by simp_all

lemma bnd_seq: "bnd (seq m n) f = seq m (bnd n f)"
  and seq_bnd: "seq (bnd m f) k = bnd m (\<lambda>x. seq (f x) k)"
  by (simp_all add: seq_def bnd_assoc)

lemma bnd_option:
  "bnd (case x of None \<Rightarrow> m | Some y \<Rightarrow> n y) f = (case x of None \<Rightarrow> bnd m f | Some y \<Rightarrow> bnd (n y) f)"
  by (cases x) auto

lemmas monad_norm = bnd_assoc bnd_seq seq_bnd seq_assoc bnd_if seq_if bnd_option dies_bnd dies_seq only_if_def

lemmas run_defs =
  bnd_def seq_def ret_def stop_def sys_def sys_fs_def sys_fd_def sys_pr_def sys_mi_def answer_def
  getg_def modg_def emit_def temp_failure_retry_def Let_def only_if_def lift_res_def c_exit_def
  die_def vprint_or_log_msg_def vprint_msg_def error_msg_def warn_msg_def notice_msg_def info_msg_def
  debug_msg_def perror_msg_def error_msg_and_die_def perror_msg_and_die_def

definition start :: "globals \<Rightarrow> trace \<Rightarrow> reply list \<Rightarrow> world" where
  "start g t rs = \<lparr>replies = rs, trace = t, gl = g\<rparr>"

text \<open>
  \<open>gives m g rs x g' rs'\<close>: with the globals \<open>g\<close> and the replies \<open>rs\<close>, \<open>m\<close> returns \<open>x\<close> and leaves
  \<open>g'\<close> and \<open>rs'\<close>. Runs of long functions on concrete worlds are put together from runs of
  their parts.
\<close>

definition gives :: "'a m \<Rightarrow> globals \<Rightarrow> reply list \<Rightarrow> 'a \<Rightarrow> globals \<Rightarrow> reply list \<Rightarrow> bool" where
  "gives m g rs x g' rs' \<longleftrightarrow> (\<forall>t. \<exists>t'. m (start g t rs) = (Ret x, start g' t' rs'))"

lemma gives_bnd: "gives m g rs y g1 rs1 \<Longrightarrow> gives (f y) g1 rs1 x g2 rs2 \<Longrightarrow> gives (bnd m f) g rs x g2 rs2"
proof (unfold gives_def, intro allI)
  fix t
  assume m: "\<forall>t. \<exists>t'. m (start g t rs) = (Ret y, start g1 t' rs1)"
    and f: "\<forall>t. \<exists>t'. f y (start g1 t rs1) = (Ret x, start g2 t' rs2)"
  from m obtain t1 where "m (start g t rs) = (Ret y, start g1 t1 rs1)" by blast
  moreover from f obtain t2 where "f y (start g1 t1 rs1) = (Ret x, start g2 t2 rs2)" by blast
  ultimately show "\<exists>t'. bnd m f (start g t rs) = (Ret x, start g2 t' rs2)" by (auto simp: bnd_def)
qed

lemma gives_seq: "gives m g rs y g1 rs1 \<Longrightarrow> gives n g1 rs1 x g2 rs2 \<Longrightarrow> gives (seq m n) g rs x g2 rs2"
  unfolding seq_def by (rule gives_bnd)

lemma gives_ret: "gives (ret x) g rs x g rs"
  by (auto simp: gives_def ret_def)

lemma gives_getg: "y = h g \<Longrightarrow> gives (getg h) g rs y g rs"
  by (auto simp: gives_def getg_def start_def)

lemma gives_sys: "gives (sys c) g (r # rs) r g rs"
  by (auto simp: gives_def sys_def start_def answer_def)

lemma givesD: "gives m g rs x g' rs' \<Longrightarrow> \<exists>w'. m (start g t rs) = (Ret x, w') \<and> gl w' = g'"
  unfolding gives_def start_def by force

end
