(* ===== verification/Io_Util.thy ===== *)
theory Io_Util
  imports Monad_Logic
begin

text \<open>
  The small system layers every process of the program uses: the retrying I/O functions and
  loops of io_loop.c, \<open>xclose\<close> of fds.c, the socket helpers of sockets.c, descriptor passing
  (pass.c), responses (server_comm.c), signal helpers (signal.c), polling helpers (epoll.c) and
  the wire format of the headers in communication.h.
\<close>

subsection \<open>Retrying system calls (io_loop.c, process.c)\<close>

definition read_retry :: "int \<Rightarrow> nat \<Rightarrow> reply m" where
  "read_retry fd count = temp_failure_retry (Fd (Read fd count))"

definition write_retry :: "int \<Rightarrow> string \<Rightarrow> reply m" where
  "write_retry fd buf = temp_failure_retry (Fd (Write fd buf))"

definition sendmsg_retry :: "int \<Rightarrow> string \<Rightarrow> int list \<Rightarrow> reply m" where
  "sendmsg_retry fd data fds = temp_failure_retry (Fd (Sendmsg fd data fds))"

definition recvmsg_retry :: "int \<Rightarrow> nat \<Rightarrow> reply m" where
  "recvmsg_retry fd len = temp_failure_retry (Fd (Recvmsg fd len))"

definition waitpid_retry :: "int \<Rightarrow> bool \<Rightarrow> reply m" where
  "waitpid_retry pid nohang = temp_failure_retry (Pr (Waitpid pid nohang))"

text \<open>
  \<open>write_loop\<close> writes until the buffer is used up or a write does not advance; every round
  consumes at least one byte, so one more round than there are bytes is enough.
\<close>

definition write_loop :: "int \<Rightarrow> string \<Rightarrow> int m" where
  "write_loop fd buffer =
     loop (Suc (length buffer))
       (\<lambda>(offset, rest).
          if rest = [] then ret (Inr offset)
          else bnd (write_retry fd rest) (\<lambda>r.
            if r_ret r \<le> 0 then ret (Inr (if offset \<noteq> 0 then offset else r_ret r))
            else ret (Inl (offset + r_ret r, drop (nat (r_ret r)) rest))))
       (0, buffer)"

text \<open>\<open>read_loop\<close> returns the bytes it collected beside the return value.\<close>

definition read_loop :: "int \<Rightarrow> nat \<Rightarrow> (int \<times> string) m" where
  "read_loop fd count =
     loop (Suc count)
       (\<lambda>(offset, buffer, count).
          if count = 0 then ret (Inr (offset, buffer))
          else bnd (read_retry fd count) (\<lambda>r.
            if r_ret r \<le> 0 then ret (Inr (if offset \<noteq> 0 then offset else r_ret r, buffer))
            else ret (Inl (offset + r_ret r, buffer @ take (nat (r_ret r)) (r_buf r),
                           count - nat (r_ret r)))))
       (0, [], count)"

subsection \<open>Closing descriptors (fds.c)\<close>

text \<open>The result is the return value and the new value of \<open>*fd\<close>.\<close>

definition xclose :: "int \<Rightarrow> (int \<times> int) m" where
  "xclose fd =
     (if fd < 0 then ret (0, fd)
      else bnd (sys_fd (Close fd)) (\<lambda>r. if r_ret r < 0 then ret (-1, fd) else ret (0, -1)))"

text \<open>\<open>xclose (&fd)\<close> as a statement: only the new value of the variable matters.\<close>

definition xclose_to :: "int \<Rightarrow> int m" where
  "xclose_to fd = bnd (xclose fd) (\<lambda>(_, fd'). ret fd')"

definition close_fd :: "int \<Rightarrow> unit m" where
  "close_fd fd = bnd (xclose fd) (\<lambda>_. ret ())"

subsection \<open>Wire format (communication.h)\<close>

text \<open>An \<open>unsigned int\<close> in the byte order of the (little-endian) host.\<close>

definition le32 :: "u32 \<Rightarrow> string" where
  "le32 x = map (\<lambda>i. char_of (unat (drop_bit (8 * i) x AND 255))) [0, 1, 2, 3]"

definition of_le32 :: "string \<Rightarrow> u32" where
  "of_le32 s = foldr (\<lambda>c acc. push_bit 8 acc OR word_of_nat (ord c)) (take 4 s) 0"

text \<open>The command numbers, the status values and the job types.\<close>

definition CMD_NONE :: u32 where "CMD_NONE = 0"
definition CMD_OPEN_SESSION :: u32 where "CMD_OPEN_SESSION = push_bit 0 1"
definition CMD_JOB_TYPE :: u32 where "CMD_JOB_TYPE = push_bit 1 1"
definition CMD_JOB_FDS :: u32 where "CMD_JOB_FDS = push_bit 2 1"
definition CMD_JOB_ARGUMENTS :: u32 where "CMD_JOB_ARGUMENTS = push_bit 3 1"
definition CMD_JOB_ENVIRON :: u32 where "CMD_JOB_ENVIRON = push_bit 4 1"
definition CMD_JOB_CHROOT_FD :: u32 where "CMD_JOB_CHROOT_FD = push_bit 5 1"
definition CMD_JOB_PERSONALITY :: u32 where "CMD_JOB_PERSONALITY = push_bit 6 1"
definition CMD_JOB_RUN :: u32 where "CMD_JOB_RUN = push_bit 7 1"

definition CMD_STATUS_DONE :: int where "CMD_STATUS_DONE = 0"
definition CMD_STATUS_FAILED :: int where "CMD_STATUS_FAILED = -1"

definition JOB_NONE :: u32 where "JOB_NONE = 0"
definition JOB_GETCONF :: u32 where "JOB_GETCONF = 1"
definition JOB_KILLUID :: u32 where "JOB_KILLUID = 2"
definition JOB_GETUGID1 :: u32 where "JOB_GETUGID1 = 3"
definition JOB_CHROOTUID1 :: u32 where "JOB_CHROOTUID1 = 4"
definition JOB_GETUGID2 :: u32 where "JOB_GETUGID2 = 5"
definition JOB_CHROOTUID2 :: u32 where "JOB_CHROOTUID2 = 6"

lemmas cmd_defs =
  CMD_NONE_def CMD_OPEN_SESSION_def CMD_JOB_TYPE_def CMD_JOB_FDS_def CMD_JOB_ARGUMENTS_def
  CMD_JOB_ENVIRON_def CMD_JOB_CHROOT_FD_def CMD_JOB_PERSONALITY_def CMD_JOB_RUN_def

lemmas job_defs =
  JOB_NONE_def JOB_GETCONF_def JOB_KILLUID_def JOB_GETUGID1_def JOB_CHROOTUID1_def
  JOB_GETUGID2_def JOB_CHROOTUID2_def

record cmd_header =
  hdr_type :: u32
  hdr_len :: u32

definition header_bytes :: "cmd_header \<Rightarrow> string" where
  "header_bytes h = le32 (hdr_type h) @ le32 (hdr_len h)"

definition header_of :: "string \<Rightarrow> cmd_header" where
  "header_of s = \<lparr>hdr_type = of_le32 (take 4 s), hdr_len = of_le32 (drop 4 s)\<rparr>"

record srv_cmd_resp =
  resp_rc :: int
  resp_len :: u32

definition resp_bytes :: "srv_cmd_resp \<Rightarrow> string" where
  "resp_bytes rs = le32 (word_of_int (resp_rc rs)) @ le32 (resp_len rs)"

definition resp_of :: "string \<Rightarrow> srv_cmd_resp" where
  "resp_of s = \<lparr>resp_rc = sint (of_le32 (take 4 s)), resp_len = of_le32 (drop 4 s)\<rparr>"

subsection \<open>Printing to fixed buffers (xstring.h)\<close>

text \<open>\<open>xsprintf\<close> dies when the text and its NUL do not fit.\<close>

definition xsprintf :: "nat \<Rightarrow> string \<Rightarrow> string m" where
  "xsprintf sz s =
     (if sz \<le> length s
      then error_msg_and_die ''%s: got unexpected return value %d for snprintf(buf, %zu, %s)''
      else ret s)"

definition UNIX_PATH_MAX :: nat where "UNIX_PATH_MAX = 108"

subsection \<open>Sockets (sockets.c)\<close>

definition srv_listen :: "string \<Rightarrow> int m" where
  "srv_listen file_name =
     bnd (xsprintf UNIX_PATH_MAX file_name) (\<lambda>path.
     bnd (sys_fs (Unlink path)) (\<lambda>r.
     if r_ret r \<noteq> 0 \<and> r_errno r \<noteq> ENOENT then seq (perror_msg ''unlink: %s'') (ret (-1))
     else bnd (sys_fd (Socket ''AF_UNIX'')) (\<lambda>r.
     let fd = r_ret r in
     if fd < 0 then seq (perror_msg ''socket'') (ret (-1))
     else bnd (sys_fd (Bind fd path)) (\<lambda>r.
     if r_ret r \<noteq> 0 then seq (perror_msg ''bind: %s'') (seq (close_fd fd) (ret (-1)))
     else bnd (sys_fd (Listen fd 16)) (\<lambda>r.
     if r_ret r \<noteq> 0 then seq (perror_msg ''listen: %s'') (seq (close_fd fd) (ret (-1)))
     else ret fd)))))"

definition srv_connect :: "string \<Rightarrow> string \<Rightarrow> int m" where
  "srv_connect dir_name file_name =
     bnd (sys_fd (Socket ''AF_UNIX'')) (\<lambda>r.
     let fd = r_ret r in
     if fd < 0 then perror_msg_and_die ''socket''
     else bnd (xsprintf UNIX_PATH_MAX (dir_name @ ''/'' @ file_name)) (\<lambda>path.
     bnd (sys_fd (Connect fd path)) (\<lambda>r.
     if r_ret r \<noteq> 0 then perror_msg_and_die ''%s'' else ret fd)))"

definition srv_try_connect :: "string \<Rightarrow> string \<Rightarrow> int m" where
  "srv_try_connect dir_name file_name =
     bnd (sys_fd (Socket ''AF_UNIX'')) (\<lambda>r.
     let fd = r_ret r in
     if fd < 0 then perror_msg_and_die ''socket''
     else bnd (xsprintf UNIX_PATH_MAX (dir_name @ ''/'' @ file_name)) (\<lambda>path.
     bnd (sys_fd (Connect fd path)) (\<lambda>r.
     if r_ret r \<noteq> 0 then xclose_to fd else ret fd)))"

text \<open>
  \<open>get_peercred\<close>: \<open>Some (pid, uid, gid)\<close> stands for a return value of 0 with the three
  results stored, \<open>None\<close> for \<open>-1\<close>. The last number of the reply is the returned length.
\<close>

definition get_peercred :: "int \<Rightarrow> (int \<times> u32 \<times> u32) option m" where
  "get_peercred fd =
     bnd (sys_fd (Getsockopt_peercred fd)) (\<lambda>r.
     if r_ret r < 0 then seq (perror_msg ''getsockopt'') (ret None)
     else case r_ints r of
       [pid, uid, gid, len] \<Rightarrow>
         if len \<noteq> 12
         then seq (error_msg ''returned length does not match expectations'') (ret None)
         else ret (Some (pid, word_of_int uid, word_of_int gid))
     | _ \<Rightarrow> seq (error_msg ''returned length does not match expectations'') (ret None))"

definition set_recv_timeout :: "int \<Rightarrow> int \<Rightarrow> int m" where
  "set_recv_timeout fd secs =
     bnd (sys_fd (Setsockopt_rcvtimeo fd secs)) (\<lambda>r.
     if r_ret r < 0 then seq (perror_msg ''setsockopt'') (ret (-1)) else ret 0)"

definition xsendmsg :: "int \<Rightarrow> string \<Rightarrow> int m" where
  "xsendmsg fd data =
     bnd (sendmsg_retry fd data []) (\<lambda>r.
     let n = r_ret r in
     if n \<noteq> int (length data) then
       seq (if n < 0 then perror_msg ''sendmsg''
            else if n \<noteq> 0 then error_msg ''sendmsg: expected size %lu, got %lu''
            else error_msg ''sendmsg: unexpected EOF'')
         (ret (-1))
     else ret 0)"

text \<open>\<open>xrecvmsg\<close> returns the received data when it returns 0.\<close>

definition xrecvmsg :: "int \<Rightarrow> nat \<Rightarrow> string option m" where
  "xrecvmsg fd len =
     bnd (recvmsg_retry fd len) (\<lambda>r.
     let n = r_ret r in
     if n \<noteq> int len then
       seq (if n < 0 then perror_msg ''recvmsg''
            else if n \<noteq> 0 then error_msg ''recvmsg: expected size %lu, got %lu''
            else error_msg ''recvmsg: unexpected EOF'')
         (ret None)
     else ret (Some (take len (r_buf r))))"

subsection \<open>Descriptor passing (pass.c)\<close>

text \<open>
  Without data, one byte of the (uninitialised) control buffer is sent along: here a NUL.
\<close>

definition fd_send :: "int \<Rightarrow> int list \<Rightarrow> string \<Rightarrow> unit m" where
  "fd_send ctl fds data0 =
     (let data = (if data0 = [] then [nul] else data0) in
      bnd (sendmsg_retry ctl data fds) (\<lambda>r.
      if r_ret r \<noteq> int (length data) then
        (if r_ret r < 0 then perror_msg_and_die ''sendmsg''
         else if r_ret r \<noteq> 0 then error_msg_and_die ''expected size %lu, got %lu''
         else error_msg_and_die ''unexpected EOF'')
      else ret ()))"

text \<open>
  \<open>fd_recv\<close> returns the return value, the descriptors it has stored (also when a stray second
  control message makes it fail after they were stored) and the data.
\<close>

definition fd_recv :: "int \<Rightarrow> nat \<Rightarrow> nat \<Rightarrow> (int \<times> int list \<times> string) m" where
  "fd_recv ctl n_fds data_len0 =
     (let data_len = (if data_len0 = 0 then 1 else data_len0) in
      bnd (recvmsg_retry ctl data_len) (\<lambda>r.
      let data = (if data_len0 = 0 then [] else take data_len (r_buf r)) in
      if r_ret r \<noteq> int data_len then
        seq (if r_ret r < 0 then perror_msg ''recvmsg''
             else if r_ret r \<noteq> 0 then error_msg ''expected size %lu, got %lu''
             else error_msg ''unexpected EOF'')
          (ret (-1, [], data))
      else case r_cmsgs r of
        [] \<Rightarrow> seq (error_msg ''no ancillary data'') (ret (-1, [], data))
      | cmsg # rest \<Rightarrow>
          if \<not> cm_socket cmsg
          then seq (error_msg ''expected SOL_SOCKET, got %d'') (ret (-1, [], data))
          else if \<not> cm_rights cmsg
          then seq (error_msg ''expected SCM_RIGHTS, got %d'') (ret (-1, [], data))
          else if length (cm_fds cmsg) \<noteq> n_fds
          then seq (error_msg ''SCM_RIGHTS: expected size %lu, got %lu'') (ret (-1, [], data))
          else if rest \<noteq> []
          then seq (error_msg ''stray ancillary data'') (ret (-1, cm_fds cmsg, data))
          else ret (0, cm_fds cmsg, data)))"

subsection \<open>Responses (server_comm.c)\<close>

text \<open>
  The message is the formatted text (\<open>None\<close> or an empty text: no message). The header goes
  first; its length counts the message's NUL, and is 0 when no memory for the message could be
  had. A client that has left (\<open>EPIPE\<close>) is not an error.
\<close>

definition send_response_to_client :: "int \<Rightarrow> int \<Rightarrow> string option \<Rightarrow> int m" where
  "send_response_to_client conn rc fmt =
     bnd (case fmt of
            None \<Rightarrow> ret None
          | Some text \<Rightarrow>
              if text = [] then ret None
              else bnd (sys_mi (Malloc (length text + 1))) (\<lambda>r.
                   if r_ret r \<noteq> 0 then ret (Some (text @ [nul]))
                   else seq (perror_msg ''malloc'') (ret None)))
     (\<lambda>data.
     bnd (sendmsg_retry conn
            (resp_bytes \<lparr>resp_rc = rc, resp_len = (case data of None \<Rightarrow> 0 | Some d \<Rightarrow> word_of_nat (length d))\<rparr>)
            []) (\<lambda>r.
     if r_ret r < 0 then
       (if r_errno r = EPIPE then ret 0 else seq (perror_msg ''sendmsg'') (ret (-1)))
     else case data of
       None \<Rightarrow> ret 0
     | Some d \<Rightarrow>
         bnd (sendmsg_retry conn d []) (\<lambda>r.
         if r_ret r < 0 \<and> r_errno r \<noteq> EPIPE then seq (perror_msg ''sendmsg'') (ret (-1))
         else ret 0)))"

subsection \<open>Signals (signal.c)\<close>

definition xsigprocmask :: "misc_call \<Rightarrow> unit m" where
  "xsigprocmask c =
     bnd (sys_mi c) (\<lambda>r. if r_ret r < 0 then perror_msg_and_die ''sigprocmask'' else ret ())"

definition daemon_signals :: "signal_no list" where
  "daemon_signals = [SIGHUP, SIGINT, SIGQUIT, SIGTERM, SIGCHLD]"

definition daemon_create_signal_fd :: "int m" where
  "daemon_create_signal_fd =
     bnd (sys_mi (Signalfd daemon_signals)) (\<lambda>r.
     seq (only_if (0 \<le> r_ret r) (xsigprocmask (Sigprocmask_set daemon_signals)))
       (ret (r_ret r)))"

definition block_signal_handler :: "signal_no \<Rightarrow> bool \<Rightarrow> unit m" where
  "block_signal_handler no block =
     xsigprocmask (if block then Sigprocmask_block no else Sigprocmask_unblock no)"

definition unblock_all_signals :: "unit m" where
  "unblock_all_signals = xsigprocmask (Sigprocmask_set [])"

definition dfl_signal_handler :: "signal_no \<Rightarrow> unit m" where
  "dfl_signal_handler no =
     bnd (sys_mi (Signal_dfl no)) (\<lambda>r.
     if r_ret r = -1 then perror_msg_and_die ''signal'' else block_signal_handler no False)"

subsection \<open>Polling (epoll.c)\<close>

definition epoll_add_in :: "int \<Rightarrow> int \<Rightarrow> int m" where
  "epoll_add_in fd_ep fd =
     bnd (sys_fd (Epoll_add fd_ep fd True)) (\<lambda>r.
     if r_ret r < 0 then seq (perror_msg ''epoll_ctl'') (ret (-1)) else ret 0)"

definition epoll_add_hup :: "int \<Rightarrow> int \<Rightarrow> int m" where
  "epoll_add_hup fd_ep fd =
     bnd (sys_fd (Epoll_add fd_ep fd False)) (\<lambda>r.
     if r_ret r < 0 then seq (perror_msg ''epoll_ctl'') (ret (-1)) else ret 0)"


subsection \<open>The wire format is a bijection\<close>

lemma le32_length [simp]: "length (le32 x) = 4"
  by (simp add: le32_def)

lemma of_le32_le32: "of_le32 (le32 x @ s) = x"
proof -
  have b: "(word_of_nat (unat (y AND 255) mod 256) :: u32) = y AND 255" for y :: u32
  proof -
    have "unat (y AND 255) < 256"
      using word_and_le1 [of y "255"] by (simp add: word_le_nat_alt)
    then show ?thesis by simp
  qed
  have m: "(255 :: u32) = mask 8" by (simp add: mask_eq_exp_minus_1)
  have "take 4 (le32 x @ s) = le32 x" by simp
  then have eq: "of_le32 (le32 x @ s) =
      push_bit 8 (push_bit 8 (push_bit 8 (drop_bit 24 x AND 255) OR drop_bit 16 x AND 255)
                  OR drop_bit 8 x AND 255) OR x AND 255"
    unfolding of_le32_def by (simp add: le32_def b)
  show ?thesis
    unfolding eq m
  proof (rule bit_word_eqI)
    fix n assume n: "n < LENGTH(32)"
    consider "n < 8" | "8 \<le> n" "n < 16" | "16 \<le> n" "n < 24" | "24 \<le> n" by linarith
    then show "bit (push_bit 8 (push_bit 8 (push_bit 8 (drop_bit 24 x AND mask 8) OR drop_bit 16 x AND mask 8)
                  OR drop_bit 8 x AND mask 8) OR x AND mask 8) n = bit x n"
      using n by cases (auto simp: bit_simps)
  qed
qed

lemma header_roundtrip: "header_of (header_bytes h) = h"
  by (simp add: header_of_def header_bytes_def of_le32_le32 of_le32_le32 [where s = "[]", simplified])

lemma header_bytes_length [simp]: "length (header_bytes h) = 8"
  by (simp add: header_bytes_def)

lemma resp_bytes_length [simp]: "length (resp_bytes h) = 8"
  by (simp add: resp_bytes_def)

lemma resp_roundtrip:
  "int_min \<le> resp_rc rs \<Longrightarrow> resp_rc rs \<le> int_max \<Longrightarrow> resp_of (resp_bytes rs) = rs"
  by (simp add: resp_of_def resp_bytes_def of_le32_le32 of_le32_le32 [where s = "[]", simplified]
      signed_of_int signed_take_bit_int_eq_self)

subsection \<open>Calls and fuel\<close>

text \<open>
  The helpers of this theory make no call that changes the identity of the process or creates
  or replaces one: the only process calls among theirs are \<open>waitpid\<close>.
\<close>

definition benign :: "call \<Rightarrow> bool" where
  "benign c \<longleftrightarrow> (case c of Pr p \<Rightarrow> (case p of Waitpid _ _ \<Rightarrow> True | _ \<Rightarrow> False) | _ \<Rightarrow> True)"

lemma benign_simps [simp]:
  "benign (Fs a)" "benign (Fd b)" "benign (Mi c)" "benign (Pr (Waitpid p n))"
  by (simp_all add: benign_def)

named_theorems benign_fns \<open>functions that make benign calls only\<close>

lemma retry_benign [benign_fns]:
  "emits benign (read_retry fd n)" "emits benign (write_retry fd s)"
  "emits benign (sendmsg_retry fd d fds)" "emits benign (recvmsg_retry fd n)"
  "emits benign (waitpid_retry p b)"
  by (auto simp: read_retry_def write_retry_def sendmsg_retry_def recvmsg_retry_def
      waitpid_retry_def intro!: inv_intros)

lemma loops_benign [benign_fns]: "emits benign (write_loop fd s)" "emits benign (read_loop fd n)"
  by (auto simp: write_loop_def read_loop_def simp del: loop.simps intro!: inv_intros benign_fns)

lemma xclose_benign [benign_fns]:
  "emits benign (xclose fd)" "emits benign (close_fd fd)" "emits benign (xclose_to fd)"
  by (auto simp: xclose_def close_fd_def xclose_to_def intro!: inv_intros)

lemma sockets_benign [benign_fns]:
  "emits benign (xsprintf n s)" "emits benign (srv_listen s)" "emits benign (srv_connect a b)"
  "emits benign (srv_try_connect a b)" "emits benign (get_peercred fd)"
  "emits benign (set_recv_timeout fd secs)" "emits benign (xsendmsg fd s)" "emits benign (xrecvmsg fd n)"
  by (auto simp: xsprintf_def srv_listen_def srv_connect_def srv_try_connect_def get_peercred_def
      set_recv_timeout_def xsendmsg_def xrecvmsg_def Let_def intro!: inv_intros benign_fns)

lemma pass_benign [benign_fns]:
  "emits benign (fd_send c fds d)" "emits benign (fd_recv c n k)"
  "emits benign (send_response_to_client c rc t)"
  by (auto simp: fd_send_def fd_recv_def send_response_to_client_def Let_def
      intro!: inv_intros benign_fns)

lemma signals_benign [benign_fns]:
  "emits benign (xsigprocmask c)" "emits benign daemon_create_signal_fd"
  "emits benign (block_signal_handler n b)" "emits benign unblock_all_signals"
  "emits benign (dfl_signal_handler n)" "emits benign (epoll_add_in ep fd)"
  "emits benign (epoll_add_hup ep fd)"
  by (auto simp: xsigprocmask_def daemon_create_signal_fd_def block_signal_handler_def
      unblock_all_signals_def dfl_signal_handler_def epoll_add_in_def epoll_add_hup_def
      intro!: inv_intros)

subsection \<open>The I/O loops\<close>

text \<open>
  The bytes the kernel has taken from writes on a descriptor, and those it has delivered by
  reads, in the order of time.
\<close>

fun written :: "int \<Rightarrow> trace \<Rightarrow> string" where
  "written fd [] = []"
| "written fd ((c, r) # t) =
     written fd t @ (case c of
                       Fd (Write f s) \<Rightarrow> if f = fd then take (nat (r_ret r)) s else []
                     | _ \<Rightarrow> [])"

lemma written_append: "written fd (t @ u) = written fd u @ written fd t"
  by (induction fd t rule: written.induct) auto

lemma written_interrupted: "\<forall>f \<in> set fails. interrupted f \<Longrightarrow> written fd (map (Pair c) fails) = []"
  by (induction fails) (auto simp: interrupted_def split: call.splits fd_call.splits)

text \<open>\<open>write(2)\<close>: it never writes more than it was given.\<close>

definition write_contract :: "trace \<Rightarrow> bool" where
  "write_contract t \<longleftrightarrow> (\<forall>fd s r. (Fd (Write fd s), r) \<in> set t \<longrightarrow> r_ret r \<le> int (length s))"

lemma write_contract_append: "write_contract (t @ u) \<longleftrightarrow> write_contract t \<and> write_contract u"
  by (auto simp: write_contract_def)

abbreviation write_body :: "int \<Rightarrow> int \<times> string \<Rightarrow> ((int \<times> string) + int) m" where
  "write_body fd \<equiv> \<lambda>(offset, rest).
      if rest = [] then ret (Inr offset)
      else bnd (write_retry fd rest) (\<lambda>r.
        if r_ret r \<le> 0 then ret (Inr (if offset \<noteq> 0 then offset else r_ret r))
        else ret (Inl (offset + r_ret r, drop (nat (r_ret r)) rest)))"

text \<open>One round more than there are bytes: the rounds never run out.\<close>

lemma write_rounds:
  "length rest < n \<Longrightarrow> fst (loop n (write_body fd) (off, rest) w) \<noteq> Stop NoFuel"
proof (induction n arbitrary: off rest w)
  case (Suc n)
  have nf: "fst (write_retry fd rest w) \<noteq> Stop NoFuel"
    using nf_retry by (auto simp: write_retry_def never_out_of_fuel_def)
  show ?case
  proof (cases "rest = []")
    case False
    have "length (drop (nat k) rest) < n" if "0 < k" for k
      using that False Suc.prems by (cases rest) auto
    then have ih: "fst (loop n (write_body fd) (off + k, drop (nat k) rest) v) \<noteq> Stop NoFuel"
      if "0 < k" for k v
      using Suc.IH that by blast
    show ?thesis
      using nf False ih by (auto simp: bnd_def ret_def split: prod.splits outcome.splits)
  qed (simp add: bnd_def ret_def)
qed simp

lemma write_loop_rounds:
  assumes "loop n (write_body fd) (int k, rest) w = (Ret m, w')"
    and "write_contract (trace w')" and "written fd (trace w) = pre @ take k s"
    and "rest = drop k s" and "k \<le> length s"
  shows "written fd (trace w') = pre @ take (nat m) s \<and> m \<le> int (length s)
    \<and> (m = int (length s) \<or> (\<exists>r rest. (Fd (Write fd rest), r) \<in> set (trace w') \<and> r_ret r \<le> 0))"
  using assms
proof (induction n arbitrary: k rest w)
  case (Suc n)
  show ?case
  proof (cases "rest = []")
    case True
    with Suc.prems show ?thesis by (auto simp: bnd_def ret_def)
  next
    case False
    from Suc.prems(1) False obtain r v where w: "write_retry fd rest w = (Ret r, v)"
      by (auto simp: bnd_def split: prod.splits outcome.splits)
    from w obtain fails where t: "trace v = (Fd (Write fd rest), r) # map (Pair (Fd (Write fd rest))) fails @ trace w"
      and f: "\<forall>f \<in> set fails. interrupted f"
      by (auto simp: write_retry_def elim: retry_Ret)
    have wr: "written fd (trace v) = written fd (trace w) @ take (nat (r_ret r)) rest"
      using written_interrupted [OF f] by (simp add: t written_append)
    show ?thesis
    proof (cases "r_ret r \<le> 0")
      case True
      with Suc.prems w False have m: "m = (if k \<noteq> 0 then int k else r_ret r)" "w' = v"
        by (auto simp: bnd_def ret_def)
      have in_t: "(Fd (Write fd rest), r) \<in> set (trace w')" using m by (simp add: t)
      from True have "nat m = k" "m \<le> int (length s)" using m Suc.prems(5) by auto
      then show ?thesis using True wr Suc.prems(3) m in_t by auto
    next
      case pos: False
      with Suc.prems w False have l: "loop n (write_body fd) (int k + r_ret r, drop (nat (r_ret r)) rest) v = (Ret m, w')"
        by (auto simp: bnd_def ret_def)
      have em: "emits (\<lambda>_. True) (loop n (write_body fd) st)" for st
        by (auto simp: write_retry_def simp del: loop.simps intro!: inv_intros split: prod.splits)
      have "(Fd (Write fd rest), r) \<in> set (trace w')"
        using emits_suffix [OF em l] by (auto simp: t)
      then have le: "r_ret r \<le> int (length rest)"
        using Suc.prems(2) by (auto simp: write_contract_def)
      let ?k = "k + nat (r_ret r)"
      have k: "int k + r_ret r = int ?k" "?k \<le> length s"
        using pos le Suc.prems(4,5) by auto
      have dr: "drop (nat (r_ret r)) rest = drop ?k s"
        by (simp add: Suc.prems(4) add.commute)
      have tk: "take ?k s = take k s @ take (nat (r_ret r)) rest"
        by (simp add: Suc.prems(4) take_add)
      show ?thesis
        by (rule Suc.IH [OF l [unfolded k(1)] Suc.prems(2)]) (use wr tk Suc.prems(3) k(2) dr in auto)
    qed
  qed
qed (simp add: stop_def)

lemma write_loop_eq: "write_loop fd s = loop (Suc (length s)) (write_body fd) (int 0, s)"
  by (simp add: write_loop_def del: loop.simps)

lemma write_loop_nf: "never_out_of_fuel (write_loop fd s)"
  using write_rounds [of s "Suc (length s)" fd 0] by (simp add: never_out_of_fuel_def write_loop_eq del: loop.simps)

text \<open>
  C39: when \<open>write_loop\<close> returns \<open>n\<close>, the kernel has taken exactly the first \<open>n\<close> bytes of the
  buffer (none if \<open>n\<close> is negative), however the writes were cut up or interrupted; \<open>n\<close> is less
  than the length of the buffer only if a write failed or did not advance.
\<close>

theorem write_loop_prefix:
  assumes "write_loop fd s w = (Ret n, w')" and "write_contract (trace w')"
  shows "written fd (trace w') = written fd (trace w) @ take (nat n) s \<and> n \<le> int (length s)
    \<and> (n = int (length s) \<or> (\<exists>r rest. (Fd (Write fd rest), r) \<in> set (trace w') \<and> r_ret r \<le> 0))"
  by (rule write_loop_rounds [of "Suc (length s)" fd 0 s w n w' "written fd (trace w)" s])
    (use assms in \<open>simp_all add: write_loop_eq del: loop.simps\<close>)

theorem write_loop_prefix_witness:
  "\<exists>w'. write_loop 1 ''abc'' (start globals_init [] [(rep (-1))\<lparr>r_errno := EINTR\<rparr>, rep 2, rep 0]) = (Ret 2, w')
    \<and> written 1 (trace w') = ''ab''"
proof -
  let ?w = "start globals_init [] [(rep (-1))\<lparr>r_errno := EINTR\<rparr>, rep 2, rep 0]"
  let ?w' = "snd (write_loop 1 ''abc'' ?w)"
  have run: "write_loop 1 ''abc'' ?w = (Ret 2, ?w')"
    by (simp add: write_loop_def write_retry_def run_defs start_def rep_def numeral_eq_Suc)
  moreover have "write_contract (trace ?w')"
    by (simp add: write_loop_def write_retry_def run_defs start_def rep_def numeral_eq_Suc write_contract_def)
  ultimately show ?thesis using write_loop_prefix [OF run] by (intro exI [of _ ?w']) (simp add: start_def)
qed

end
