(* ===== verification/Fds.thy ===== *)
theory Fds
  imports Io_Util
begin

text \<open>
  Descriptor hygiene: fds.c, nullify_stdin.c, unblock_fd.c and procfd.c. The main result is
  stated on the descriptor table that the successful calls of a run build up.
\<close>

subsection \<open>The functions of fds.c\<close>

definition move_fd :: "int \<Rightarrow> int \<Rightarrow> int m" where
  "move_fd oldfd newfd =
     (if oldfd < 0 \<or> oldfd = newfd then ret oldfd
      else bnd (sys_fd (Dup2 oldfd newfd)) (\<lambda>r.
        if r_ret r \<noteq> newfd then perror_msg_and_die ''dup2''
        else bnd (xclose oldfd) (\<lambda>(rc, fd).
          if rc \<noteq> 0 then perror_msg_and_die ''close'' else ret fd)))"

definition NR_OPEN :: int where "NR_OPEN = 1024"

definition get_open_max :: "int m" where
  "get_open_max = bnd (sys_mi Sysconf_open_max) (\<lambda>r. ret (min (max (r_ret r) NR_OPEN) int_max))"

definition CLOSE_RANGE_CLOEXEC :: u32 where "CLOSE_RANGE_CLOEXEC = push_bit 2 1"

definition sys_close_range :: "u32 \<Rightarrow> u32 \<Rightarrow> u32 \<Rightarrow> int m" where
  "sys_close_range fd0 fd1 flags =
     bnd (sys_fd (Close_range fd0 fd1 flags)) (\<lambda>r. ret (if r_ret r < 0 then -1 else 0))"

definition close_range_brutely :: "int \<Rightarrow> int \<Rightarrow> unit m" where
  "close_range_brutely fd0 fd1 = for_each [fd0..fd1 - 1] (\<lambda>fd. bnd (sys_fd (Close fd)) (\<lambda>_. ret ()))"

definition FD_CLOEXEC :: u32 where "FD_CLOEXEC = 1"

definition cloexec_range_brutely :: "int \<Rightarrow> int \<Rightarrow> unit m" where
  "cloexec_range_brutely fd0 fd1 =
     for_each [fd0..fd1 - 1] (\<lambda>fd.
       bnd (sys_fd (Fcntl_getfd fd)) (\<lambda>r.
       if r_ret r < 0 then ret ()
       else let flags = word_of_int (r_ret r); newflags = flags OR FD_CLOEXEC
            in if flags \<noteq> newflags
               then bnd (sys_fd (Fcntl_setfd fd newflags)) (\<lambda>r.
                    if r_ret r \<noteq> 0 then perror_msg_and_die ''fcntl F_SETFD'' else ret ())
               else ret ()))"

text \<open>\<open>reorder_fd\<close> returns the next start and the new value of \<open>*target_fdp\<close>.\<close>

definition reorder_fd :: "int \<Rightarrow> int \<Rightarrow> (int \<times> int) m" where
  "reorder_fd start_fd target =
     (if target < start_fd then ret (start_fd, target)
      else if start_fd < target then
        bnd (sys_fd (Dup2 target start_fd)) (\<lambda>r.
        if r_ret r \<noteq> start_fd then perror_msg_and_die ''dup2(%d, %d)''
        else ret (start_fd + 1, start_fd))
      else ret (start_fd + 1, target))"

definition reorder_log_fd :: "int \<Rightarrow> int m" where
  "reorder_log_fd start_fd =
     bnd (getg log_fd) (\<lambda>fd. bnd (reorder_fd start_fd fd) (\<lambda>(next, fd').
     seq (modg (log_fd_update (\<lambda>_. fd'))) (ret next)))"

definition reorder_chroot_fd :: "int \<Rightarrow> int m" where
  "reorder_chroot_fd start_fd =
     bnd (getg chroot_fd) (\<lambda>fd. bnd (reorder_fd start_fd fd) (\<lambda>(next, fd').
     seq (modg (chroot_fd_update (\<lambda>_. fd'))) (ret next)))"

definition reorder_fds :: "int \<Rightarrow> int m" where
  "reorder_fds start_fd =
     bnd (getg log_fd) (\<lambda>l. bnd (getg chroot_fd) (\<lambda>c.
     if l < c then bnd (reorder_log_fd start_fd) reorder_chroot_fd
     else bnd (reorder_chroot_fd start_fd) reorder_log_fd))"

definition sanitize_fds :: "unit m" where
  "sanitize_fds =
     seq (bnd (sys_fs (Umask 63)) (\<lambda>_. ret ()))
    (seq (for_each [0, 1, 2] (\<lambda>fd. bnd (sys_fs (Fstat fd)) (\<lambda>r. if r_ret r < 0 then die else ret ())))
    (bnd (reorder_fds 3) (\<lambda>fd.
     bnd (sys_close_range (word_of_int fd) (- 1) 0) (\<lambda>rc.
     if rc < 0 then bnd get_open_max (\<lambda>m. close_range_brutely fd m) else ret ()))))"

definition cloexec_fds :: "unit m" where
  "cloexec_fds =
     bnd (sys_close_range 3 (- 1) CLOSE_RANGE_CLOEXEC) (\<lambda>rc.
     if rc < 0 then bnd get_open_max (\<lambda>m. cloexec_range_brutely 3 m) else ret ())"

subsection \<open>nullify_stdin.c, unblock_fd.c and procfd.c\<close>

text \<open>The reply to \<open>pipe\<close> holds the two descriptors.\<close>

definition nullify_stdin :: "unit m" where
  "nullify_stdin =
     bnd (sys_fd Pipe) (\<lambda>r.
     if r_ret r \<noteq> 0 then perror_msg_and_die ''pipe''
     else let fd0 = r_ints r ! 0; fd1 = r_ints r ! 1 in
     bnd (xclose fd1) (\<lambda>(rc, _).
     if rc \<noteq> 0 then perror_msg_and_die ''close''
     else if fd0 \<noteq> 0 then
       bnd (sys_fd (Dup2 fd0 0)) (\<lambda>r.
       if r_ret r \<noteq> 0 then perror_msg_and_die ''dup2''
       else bnd (xclose fd0) (\<lambda>(rc, _).
         if rc \<noteq> 0 then perror_msg_and_die ''close'' else ret ()))
     else ret ()))"

definition O_NONBLOCK :: u32 where "O_NONBLOCK = 2048"

definition unblock_fd :: "int \<Rightarrow> unit m" where
  "unblock_fd fd =
     bnd (sys_fd (Fcntl_getfl fd)) (\<lambda>r.
     if r_ret r < 0 then perror_msg_and_die ''fcntl F_GETFL''
     else let flags = word_of_int (r_ret r); newflags = flags OR O_NONBLOCK
          in if flags \<noteq> newflags
             then bnd (sys_fd (Fcntl_setfl fd newflags)) (\<lambda>r.
                  if r_ret r < 0 then perror_msg_and_die ''fcntl F_SETFL'' else ret ())
             else ret ())"

definition open_proc_fd :: "int \<Rightarrow> u32 \<Rightarrow> int m" where
  "open_proc_fd pid uid =
     (let fname = ''/proc/'' @ fmt_u (unat (word_of_int pid :: u32)) in
      bnd (sys_fs (Open fname [O_RDONLY, O_DIRECTORY, O_CLOEXEC] 0)) (\<lambda>r.
      let fd = r_ret r in
      if fd < 0 then perror_msg_and_die ''open: %s''
      else bnd (sys_fs (Fstat fd)) (\<lambda>r.
      if r_ret r \<noteq> 0 then perror_msg_and_die ''fstat: %s''
      else if st_uid (r_stat r) \<noteq> uid
      then error_msg_and_die ''%s: expected owner %u, found owner %u''
      else ret fd)))"

subsection \<open>The descriptor table\<close>

text \<open>
  The table maps open descriptors to the files they refer to. \<open>close(2)\<close> releases its
  descriptor whatever it returns; \<open>dup2\<close> and \<open>close_range\<close> have effect when they succeed
  (\<open>CLOSE_RANGE_CLOEXEC\<close> closes nothing).
\<close>

fun fdt_step :: "call \<times> reply \<Rightarrow> (int \<Rightarrow> 'o option) \<Rightarrow> (int \<Rightarrow> 'o option)" where
  "fdt_step (Fd (Close fd), r) T = T(fd := None)"
| "fdt_step (Fd (Dup2 old new), r) T = (if r_ret r = new then T(new := T old) else T)"
| "fdt_step (Fd (Close_range a b flags), r) T =
     (if 0 \<le> r_ret r \<and> flags = 0
      then (\<lambda>fd. if uint a \<le> fd \<and> fd \<le> uint b then None else T fd) else T)"
| "fdt_step _ T = T"

definition fdt :: "(int \<Rightarrow> 'o option) \<Rightarrow> world \<Rightarrow> (int \<Rightarrow> 'o option)" where
  "fdt T w = foldr fdt_step (trace w) T"

lemma fdt_answer [simp]: "fdt T (answer c r rs w) = fdt_step (c, r) (fdt T w)"
  by (simp add: fdt_def answer_def)

lemma fdt_emit_log [simp]: "fdt T (w\<lparr>trace := (Mi c, r) # trace w\<rparr>) = fdt T w"
  by (simp add: fdt_def)

lemma fdt_gl [simp]: "fdt T (w\<lparr>gl := g\<rparr>) = fdt T w"
  by (simp add: fdt_def)

text \<open>\<open>sysconf\<close>: no descriptor is open at or above the limit it reports.\<close>

definition open_max_contract :: "(int \<Rightarrow> 'o option) \<Rightarrow> trace \<Rightarrow> bool" where
  "open_max_contract T t \<longleftrightarrow>
     (\<forall>r fd. (Mi Sysconf_open_max, r) \<in> set t \<longrightarrow> fd \<in> dom T \<longrightarrow>
        fd < min (max (r_ret r) NR_OPEN) int_max)"

subsection \<open>What stays open\<close>

text \<open>Descriptors are numbers of \<open>int\<close>.\<close>

definition descriptors :: "(int \<Rightarrow> 'o option) \<Rightarrow> bool" where
  "descriptors T \<longleftrightarrow> (\<forall>fd \<in> dom T. fd \<le> int_max)"

lemma close_each:
  "pc (for_each fds (\<lambda>fd. bnd (sys_fd (Close fd)) (\<lambda>_. ret ())))
     (\<lambda>_ v. fdt T v = (\<lambda>fd. if fd \<in> set fds then None else fdt T w fd) \<and> gl v = gl w
        \<and> set (trace w) \<subseteq> set (trace v)) w"
proof (induction fds arbitrary: w)
  case (Cons fd fds)
  show ?case
    unfolding for_each.simps
    by (intro pc_rules, rule pc_conseq [OF Cons]) (auto simp: answer_def fdt_def fun_eq_iff)
qed (simp add: wp_simps)

text \<open>One of the two descriptors that are kept moves down to the first free place.\<close>

lemma reorder_fd_table:
  assumes "\<And>v. fdt T v = (if s0 \<le> target then (fdt T w)(s0 := fdt T w target) else fdt T w) \<Longrightarrow> gl v = gl w \<Longrightarrow>
      Q (if s0 \<le> target then (s0 + 1, s0) else (s0, target)) v"
  shows "pc (reorder_fd s0 target) Q w"
proof -
  have "fdt T (answer (Fd (Dup2 target s0)) r rs w) = (fdt T w)(s0 := fdt T w target)" if "r_ret r = s0" for r rs
    using that by simp
  then show ?thesis
    unfolding reorder_fd_def using assms
    by (intro pc_rules) (auto simp: fun_upd_idem simp del: fdt_answer)
qed

definition kept_two :: "(int \<Rightarrow> 'o option) \<Rightarrow> globals \<Rightarrow> globals \<Rightarrow> int \<Rightarrow> 'o option" where
  "kept_two T g g' fd =
     (if fd < 3 then T fd
      else if fd = log_fd g' then T (log_fd g)
      else if fd = chroot_fd g' then T (chroot_fd g) else None)"

definition packed :: "int \<Rightarrow> globals \<Rightarrow> globals \<Rightarrow> bool" where
  "packed free g g' \<longleftrightarrow>
     g' = g\<lparr>log_fd := log_fd g', chroot_fd := chroot_fd g'\<rparr> \<and> 3 \<le> free \<and> free \<le> 5
     \<and> (if log_fd g < 3 then log_fd g' = log_fd g else 3 \<le> log_fd g' \<and> log_fd g' < free)
     \<and> (if chroot_fd g < 3 then chroot_fd g' = chroot_fd g else 3 \<le> chroot_fd g' \<and> chroot_fd g' < free)
     \<and> (log_fd g' = chroot_fd g' \<longrightarrow> log_fd g' < 3)
     \<and> (\<forall>fd. 3 \<le> fd \<and> fd < free \<longrightarrow> fd = log_fd g' \<or> fd = chroot_fd g')"

lemma reorder_fds_table:
  assumes "log_fd (gl w) = chroot_fd (gl w) \<longrightarrow> log_fd (gl w) < 3"
  shows "pc (reorder_fds 3)
     (\<lambda>free v. packed free (gl w) (gl v)
        \<and> (\<forall>fd < free. fdt T v fd = kept_two (fdt T w) (gl w) (gl v) fd)
        \<and> (\<forall>fd \<ge> free. fdt T v fd = fdt T w fd)) w"
  unfolding reorder_fds_def reorder_log_fd_def reorder_chroot_fd_def
  apply (intro pc_rules)
   apply (rule reorder_fd_table [where T = T])
   apply (intro pc_rules)
   apply (rule reorder_fd_table [where T = T])
   apply (intro pc_rules)
  subgoal using assms
    by (cases "3 \<le> log_fd (gl w)"; cases "3 \<le> chroot_fd (gl w)"; simp add: packed_def kept_two_def; auto)
   apply (rule reorder_fd_table [where T = T])
   apply (intro pc_rules)
   apply (rule reorder_fd_table [where T = T])
   apply (intro pc_rules)
  subgoal using assms
    by (cases "3 \<le> log_fd (gl w)"; cases "3 \<le> chroot_fd (gl w)"; simp add: packed_def kept_two_def; auto)
  done

lemma brute_table:
  "pc (bnd get_open_max (\<lambda>m. close_range_brutely free m))
     (\<lambda>_ v. gl v = gl w \<and> (\<exists>r. (Mi Sysconf_open_max, r) \<in> set (trace v)
        \<and> fdt T v = (\<lambda>fd. if free \<le> fd \<and> fd < min (max (r_ret r) NR_OPEN) int_max then None else fdt T w fd))) w"
  unfolding get_open_max_def close_range_brutely_def
  apply (intro pc_rules)
  apply (rule pc_conseq [OF close_each [where T = T]])
  apply (clarsimp simp del: min_less_iff_conj)
  apply (rule exI, rule conjI, blast)
  apply (auto simp: fun_eq_iff)
  done

definition rest_closed :: "(int \<Rightarrow> 'o option) \<Rightarrow> int \<Rightarrow> (int \<Rightarrow> 'o option) \<Rightarrow> bool" where
  "rest_closed T free T' \<longleftrightarrow> (\<forall>fd. T' fd = (if fd < free then T fd else None))"

lemma close_rest:
  fixes T0 :: "int \<Rightarrow> 'o option"
  assumes "\<forall>fd \<ge> free. fdt T w fd = T0 fd" and "descriptors T0" and "3 \<le> free" "free \<le> 5"
  shows "pc (bnd (sys_close_range (word_of_int free) (- 1) 0) (\<lambda>rc.
       if rc < 0 then bnd get_open_max (\<lambda>m. close_range_brutely free m) else ret ()))
     (\<lambda>_ v. gl v = gl w \<and> (open_max_contract T0 (trace v) \<longrightarrow> rest_closed (fdt T w) free (fdt T v))) w"
proof -
  have u: "uint (word_of_int free :: u32) = free" "uint (- 1 :: u32) = 4294967295"
    using assms(3,4) by (simp_all add: unsigned_of_int take_bit_int_eq_self unsigned_minus_1_eq_mask mask_eq_exp_minus_1)
  have big: "fdt T w fd = None" if "int_max < fd" for fd
    using that assms by (force simp: descriptors_def)
  have m: "rest_closed (fdt T w) free (\<lambda>fd. if free \<le> fd \<and> fd \<le> 4294967295 then None else fdt T w fd)"
    using big by (auto simp: rest_closed_def)
  have brute: "rest_closed (fdt T w) free (\<lambda>fd. if free \<le> fd \<and> fd < min (max (r_ret r) NR_OPEN) int_max then None else fdt T w fd)"
    if "(Mi Sysconf_open_max, r) \<in> set t" "open_max_contract T0 t" for r t
  proof -
    have "fdt T w fd = None" if "\<not> fd < min (max (r_ret r) NR_OPEN) int_max" "free \<le> fd" for fd
    proof -
      have "fd \<notin> dom T0" using that \<open>(Mi Sysconf_open_max, r) \<in> set t\<close> \<open>open_max_contract T0 t\<close>
        unfolding open_max_contract_def by blast
      with that(2) assms(1) show ?thesis by (simp add: domIff)
    qed
    then show ?thesis unfolding rest_closed_def by auto
  qed
  show ?thesis
    unfolding sys_close_range_def
    apply (rule pc_comb(1), rule pc_comb(1), rule pc_sys_family(2), rule pc_comb(3), rule pc_comb(7))
     apply (rule pc_conseq [OF brute_table [where T = T]])
     apply (clarsimp split: if_splits simp del: min_less_iff_conj)
     apply (drule brute, assumption, simp cong: if_cong)
    apply (use m in \<open>simp add: u wp_ret split: if_splits\<close>)
    done
qed

lemma sanitize_fds_table:
  fixes T :: "int \<Rightarrow> 'o option"
  assumes d: "log_fd g = chroot_fd g \<longrightarrow> log_fd g < 3" and T: "descriptors T"
  shows "pc sanitize_fds (\<lambda>_ v. open_max_contract T (trace v) \<longrightarrow>
     (\<exists>free. packed free g (gl v)) \<and> fdt T v = kept_two T g (gl v)) (start g [] rs)"
proof -
  have last: "kept_two T g g' = T'"
    if "packed free g g'" "\<forall>fd < free. T1 fd = kept_two T g g' fd" "rest_closed T1 free T'" for T1 T' free g'
  proof
    fix fd
    show "kept_two T g g' fd = T' fd"
    proof (cases "fd < free")
      case True
      with that(2,3) show ?thesis by (simp add: rest_closed_def)
    next
      case False
      then have "3 \<le> fd" "fd \<noteq> log_fd g'" "fd \<noteq> chroot_fd g'"
        using that(1) unfolding packed_def by (simp_all split: if_splits)
      with False that(3) show ?thesis by (simp add: rest_closed_def kept_two_def)
    qed
  qed
  have e: "fdt T (start g [] rs) = T" "gl (start g [] rs) = g" by (simp_all add: fdt_def start_def)
  show ?thesis
    unfolding sanitize_fds_def
    apply (intro pc_comb pc_sys_family)
    apply (rule pc_for_each [where I = "\<lambda>v. fdt T v = T \<and> gl v = g"])
      apply (simp add: e)
     apply (intro pc_comb pc_sys_family pc_stops)
      apply simp_all [1]
     apply (rule pc_comb(1))
    apply (rule pc_conseq [OF reorder_fds_table [where T = T]])
     apply (use d in simp)
    apply (rule pc_conseq [OF close_rest [where T = T and ?T0.0 = T]])
        apply (use T in \<open>simp_all add: packed_def\<close>) [4]
    apply (intro impI conjI; elim conjE)
     apply (rule exI, simp)
    apply (rule last [symmetric])
      apply simp_all
    done
qed

text \<open>
  C12: when \<open>sanitize_fds\<close> returns, exactly the standard descriptors and those of the log and of
  the chroot directory are open, whether the kernel has \<open>close_range\<close> or not: they refer to the
  files they referred to before, the latter two at the places the global variables have been
  set to, which are the first free ones after the standard descriptors; everything else is closed.
\<close>

theorem sanitize_fds_exact:
  fixes T :: "int \<Rightarrow> 'o option"
  assumes "sanitize_fds (start g [] rs) = (Ret (), v)" and "log_fd g = chroot_fd g \<longrightarrow> log_fd g < 3"
    and "descriptors T" and "open_max_contract T (trace v)"
  shows "fdt T v = kept_two T g (gl v) \<and> (\<exists>free. packed free g (gl v))"
  using pcD [OF sanitize_fds_table [OF assms(2,3)] assms(1)] assms(4) by blast

definition demo_fds :: globals where "demo_fds = globals_init\<lparr>log_fd := 7, chroot_fd := 5\<rparr>"

definition demo_table :: "int \<Rightarrow> string option" where
  "demo_table = [0 \<mapsto> ''in'', 1 \<mapsto> ''out'', 2 \<mapsto> ''err'', 5 \<mapsto> ''chroot'', 7 \<mapsto> ''log'', 9 \<mapsto> ''leak'']"

theorem sanitize_fds_exact_witness:
  "\<exists>v. sanitize_fds (start demo_fds [] (map rep [18, 0, 0, 0, 3, 4, 0])) = (Ret (), v)
     \<and> fdt demo_table v = [0 \<mapsto> ''in'', 1 \<mapsto> ''out'', 2 \<mapsto> ''err'', 3 \<mapsto> ''chroot'', 4 \<mapsto> ''log'']"
proof -
  obtain v where v: "sanitize_fds (start demo_fds [] (map rep [18, 0, 0, 0, 3, 4, 0])) = (Ret (), v)"
      "gl v = demo_fds\<lparr>log_fd := 4, chroot_fd := 3\<rparr>" "open_max_contract demo_table (trace v)"
    by (simp add: sanitize_fds_def reorder_fds_def reorder_log_fd_def reorder_chroot_fd_def reorder_fd_def
        sys_close_range_def run_defs start_def rep_def demo_fds_def open_max_contract_def)
  have "log_fd demo_fds = chroot_fd demo_fds \<longrightarrow> log_fd demo_fds < 3" "descriptors demo_table"
    by (simp_all add: demo_fds_def demo_table_def descriptors_def)
  with sanitize_fds_exact [OF v(1) _ _ v(3)] have "fdt demo_table v = kept_two demo_table demo_fds (gl v)"
    by blast
  also have "\<dots> = [0 \<mapsto> ''in'', 1 \<mapsto> ''out'', 2 \<mapsto> ''err'', 3 \<mapsto> ''chroot'', 4 \<mapsto> ''log'']"
    by (rule ext) (simp add: v(2) kept_two_def demo_fds_def demo_table_def)
  finally show ?thesis using v(1) by blast
qed

end
