(* ===== verification/Opt_Parse.thy ===== *)
theory Opt_Parse
  imports CString
begin

text \<open>
  The generic option value parsers of opt_parse.c. Each either returns the value or dies with
  the message of \<open>opt_bad_name\<close>, \<open>opt_bad_value\<close> or its own.
\<close>

definition opt_bad_name :: "string \<Rightarrow> string \<Rightarrow> 'a res" where
  "opt_bad_name name fname = Inl (Diag ''%s: unrecognized option: %s'' [fname, name])"

definition opt_bad_value :: "string \<Rightarrow> string \<Rightarrow> string \<Rightarrow> 'a res" where
  "opt_bad_value name val fname =
     Inl (Diag ''%s: invalid value for \"%s\" option: %s'' [fname, name, val])"

text \<open>
  \<open>unsigned long long\<close> is as wide as \<open>unsigned long\<close>, so the value never exceeds \<open>ULONG_MAX\<close>.
\<close>

definition opt_str2ul :: "string \<Rightarrow> string \<Rightarrow> string \<Rightarrow> u64 res" where
  "opt_str2ul name val fname =
     (if val = [] then opt_bad_value name val fname
      else let (n, p, erange) = strtoul 10 val
           in if p \<noteq> [] \<or> ulong_max < n \<or> (n = ulong_max \<and> erange)
              then opt_bad_value name val fname
              else Inr (word_of_nat n))"

definition opt_str2bool :: "string \<Rightarrow> string \<Rightarrow> string \<Rightarrow> bool res" where
  "opt_str2bool name val fname =
     (if val = [] \<or> strcaseeq val ''no'' \<or> strcaseeq val ''false'' \<or> strcaseeq val ''0''
      then Inr False
      else if strcaseeq val ''yes'' \<or> strcaseeq val ''true'' \<or> strcaseeq val ''1''
      then Inr True
      else Inl (Diag ''%s: invalid value \"%s\" for \"%s\" option'' [fname, val, name]))"

definition opt_str2int :: "string \<Rightarrow> string \<Rightarrow> string \<Rightarrow> int res" where
  "opt_str2int name val fname =
     (if val = [] then opt_bad_value name val fname
      else let (n, p, erange) = strtol 10 val
           in if p \<noteq> [] \<or> n < int_min \<or> int_max < n \<or> (n = long_max \<and> erange)
              then opt_bad_value name val fname
              else Inr n)"

subsection \<open>Properties\<close>

lemma opt_bad [simp]: "opt_bad_name n f \<noteq> Inr x" "opt_bad_value n v f \<noteq> Inr x"
  by (simp_all add: opt_bad_name_def opt_bad_value_def)

lemma opt_str2int_range:
  "opt_str2int name val fname = Inr n \<Longrightarrow> int_min \<le> n \<and> n \<le> int_max"
  by (auto simp: opt_str2int_def Let_def split: if_splits prod.splits)

text \<open>
  A number that does not fit is rejected, never silently replaced by the saturated value:
  when an unsigned value is accepted, it is the number that was written, modulo the sign.
\<close>

lemma opt_str2ul_Inr:
  assumes "opt_str2ul name val fname = Inr v"
  obtains neg m where "scan_num 10 val = Some (neg, m, [])" and "m \<le> ulong_max"
    and "v = (if neg then - word_of_nat m else word_of_nat m)"
proof -
  from assms have ne: "val \<noteq> []" by (auto simp: opt_str2ul_def)
  show ?thesis
  proof (cases "scan_num 10 val")
    case None
    with assms ne show ?thesis by (auto simp: opt_str2ul_def strtoul_def)
  next
    case (Some x)
    then obtain neg m rest where s: "scan_num 10 val = Some (neg, m, rest)" by (cases x) auto
    from assms s ne have m: "m \<le> ulong_max" and rest: "rest = []"
      by (auto simp: opt_str2ul_def strtoul_def split: if_splits)
    have v: "v = (if neg then word_of_nat ((ulong_max + 1 - m) mod (ulong_max + 1)) else word_of_nat m)"
      using assms s ne m by (auto simp: opt_str2ul_def strtoul_def split: if_splits)
    have "(word_of_nat ((ulong_max + 1 - m) mod (ulong_max + 1)) :: u64) = - word_of_nat m"
    proof -
      have "word_of_nat ((ulong_max + 1 - m) mod (ulong_max + 1)) = (word_of_nat (ulong_max + 1 - m) :: u64)"
        by (rule word_eq_iff_unsigned [THEN iffD2]) (simp add: unsigned_of_nat take_bit_eq_mod)
      also have "\<dots> = word_of_nat (ulong_max + 1) - word_of_nat m"
        using m by (subst of_nat_diff) auto
      also have "\<dots> = - word_of_nat m" by simp
      finally show ?thesis .
    qed
    with v that [OF _ m] s rest show ?thesis by (cases neg) auto
  qed
qed

text \<open>
  C40: a number written in decimal is read back exactly up to \<open>ULONG_MAX\<close>; a larger one is
  rejected as an invalid value, never cut down to the width of the type.
\<close>

theorem opt_str2ul_exact:
  "opt_str2ul name (fmt_u n) fname =
    (if n \<le> ulong_max then Inr (word_of_nat n) else opt_bad_value name (fmt_u n) fname)"
proof -
  have "fmt_u n \<noteq> []" using fmt_u_no_sign by auto
  then show ?thesis by (simp add: opt_str2ul_def strtoul_def scan_num_fmt_u)
qed

end
