(* ===== verification/X11.thy ===== *)
theory X11
  imports Fds Opt_Parse
begin

text \<open>
  The endpoints of X11 forwarding (x11.c) and the Unix socket helpers of unix.c that serve it
  and the log: parsing the display, connecting to the caller's display, and checking the
  listening socket the child passes.
\<close>

definition X11_UNIX_DIR :: string where "X11_UNIX_DIR = ''/tmp/.X11-unix''"

text \<open>The carriage return printed after a message while the terminal is raw.\<close>

definition put_cr :: "unit m" where "put_cr = emit (Mi (Dprintf 2 [carriage_return]))"

subsection \<open>Listening and accepting (unix.c)\<close>

definition unix_listen :: "string \<Rightarrow> int m" where
  "unix_listen file_name =
     (let path = take (UNIX_PATH_MAX - 1) file_name in
      bnd (sys_fd (Socket ''AF_UNIX'')) (\<lambda>r.
      let fd = r_ret r in
      if fd < 0 then seq (perror_msg ''socket'') (ret (-1))
      else bnd (sys_fd (Bind fd path)) (\<lambda>r.
      if r_ret r \<noteq> 0 then seq (perror_msg ''bind: %s'') (seq (close_fd fd) (ret (-1)))
      else bnd (sys_fd (Listen fd 16)) (\<lambda>r.
      if r_ret r < 0 then seq (perror_msg ''listen: %s'') (seq (close_fd fd) (ret (-1)))
      else ret fd))))"

definition log_listen :: "int m" where
  "log_listen =
     bnd (unix_listen ''log'') (\<lambda>fd.
     if 0 \<le> fd then
       bnd (sys_fs (Chmod ''log'' 0x192)) (\<lambda>r.
       if r_ret r \<noteq> 0 then seq (perror_msg ''chmod: %s'') (xclose_to fd) else ret fd)
     else ret fd)"

definition unix_accept :: "int \<Rightarrow> int m" where
  "unix_accept fd =
     bnd (sys_fd (Accept fd)) (\<lambda>r.
     seq (only_if (r_ret r < 0) (seq (perror_msg ''accept'') put_cr)) (ret (r_ret r)))"

subsection \<open>The child's side (x11.c)\<close>

definition x11_listen :: "int m" where
  "x11_listen =
     bnd (sys_fs (Mkdir X11_UNIX_DIR 0x1C0)) (\<lambda>r.
     if r_ret r \<noteq> 0 \<and> r_errno r \<noteq> EEXIST then seq (perror_msg ''mkdir: %s'') (ret (-1))
     else bnd (sys_fs (Unlink (X11_UNIX_DIR @ ''/X10''))) (\<lambda>r.
     if r_ret r \<noteq> 0 \<and> r_errno r \<noteq> ENOENT then seq (perror_msg ''unlink: %s'') (ret (-1))
     else unix_listen (X11_UNIX_DIR @ ''/X10'')))"

subsection \<open>The caller's side\<close>

definition x11_closedir :: "unit m" where
  "x11_closedir =
     bnd (getg (x11_dir_fd \<circ> x11)) (\<lambda>fd. bnd (xclose_to fd) (\<lambda>fd'.
     modg (x11_update (x11_dir_fd_update (\<lambda>_. fd')))))"

definition x11_connect_unix :: "u32 \<Rightarrow> int m" where
  "x11_connect_unix display_number =
     bnd (getg (x11_dir_fd \<circ> x11)) (\<lambda>dir_fd.
     bnd (bnd (sys_fs (Fchdir dir_fd)) (\<lambda>r.
          if r_ret r \<noteq> 0 then seq (perror_msg ''fchdir (%d)'') (seq put_cr (ret (-1)))
          else bnd (sys_fd (Socket ''AF_UNIX'')) (\<lambda>r.
          let fd = r_ret r in
          if fd < 0 then seq (perror_msg ''socket'') (seq put_cr (ret fd))
          else bnd (xsprintf UNIX_PATH_MAX (CHR ''X'' # fmt_u (unat display_number))) (\<lambda>path.
          bnd (sys_fd (Connect fd path)) (\<lambda>r.
          if r_ret r = 0 then ret fd
          else seq (perror_msg ''connect: %s'') (seq put_cr (xclose_to fd)))))))
     (\<lambda>fd.
     bnd (sys_fs (Chdir ''/'')) (\<lambda>r.
     seq (only_if (r_ret r \<noteq> 0) (seq (perror_msg ''chdir: /'') put_cr)) (ret fd))))"

text \<open>
  The addresses of a name, in order; the result is the last value of \<open>fd\<close>: a connected
  socket, or a negative number (or a socket that could not even be closed).
\<close>

fun connect_first :: "int list \<Rightarrow> int \<Rightarrow> int m" where
  "connect_first [] fd = ret fd"
| "connect_first (ai # ais) fd =
     bnd (sys_fd (Socket ''ai'')) (\<lambda>r.
     if r_ret r < 0 then connect_first ais (r_ret r)
     else bnd (sys_fd (Connect (r_ret r) ''ai'')) (\<lambda>q.
       if r_ret q < 0 then bnd (xclose_to (r_ret r)) (\<lambda>fd'. connect_first ais fd')
       else ret (r_ret r)))"

definition x11_connect_inet :: "string \<Rightarrow> u32 \<Rightarrow> int m" where
  "x11_connect_inet name display_number =
     (let port_num = 6000 + display_number in
      bnd (xsprintf 32 (fmt_u (unat port_num))) (\<lambda>port_str.
      bnd (sys_fd (Getaddrinfo name port_str)) (\<lambda>r.
      if r_ret r \<noteq> 0 then seq (perror_msg ''getaddrinfo: %s:%u'') (seq put_cr (ret (-1)))
      else bnd (connect_first (r_ints r) (-1)) (\<lambda>fd.
        seq (only_if (fd < 0) (seq (perror_msg ''connect: %s:%u'') put_cr)) (ret fd)))))"

definition x11_connect :: "int m" where
  "x11_connect =
     bnd (getg x11) (\<lambda>x.
     case x11_connect_method x of
       None \<Rightarrow> ret (-1)
     | Some X11_connect_unix \<Rightarrow> x11_connect_unix (word_of_nat (unat (x11_connect_port x)))
     | Some X11_connect_inet \<Rightarrow>
         x11_connect_inet (x11_connect_name x) (word_of_nat (unat (x11_connect_port x))))"

definition AF_UNIX :: int where "AF_UNIX = 1"

text \<open>The reply to \<open>getsockname\<close> holds the family and the path.\<close>

definition x11_check_listen :: "int \<Rightarrow> int m" where
  "x11_check_listen fd =
     bnd (sys_fd (Getsockname fd)) (\<lambda>r.
     if r_ret r \<noteq> 0 then
       seq (perror_msg ''getsockname'') (seq put_cr (seq (close_fd fd) (ret (-1))))
     else if hd (r_ints r) \<noteq> AF_UNIX then
       seq (error_msg (''getsockname: expected type %u, got %u'' @ [carriage_return])) (ret (-1))
     else bnd (xsprintf UNIX_PATH_MAX (X11_UNIX_DIR @ ''/'' @ ''X10'')) (\<lambda>path.
       if path \<noteq> r_buf r then
         seq (error_msg (''getsockname: path %s, got %*s'' @ [carriage_return])) (ret (-1))
       else ret fd))"

subsection \<open>The display\<close>

definition set_x11 :: "(x11_state \<Rightarrow> x11_state) \<Rightarrow> unit m" where
  "set_x11 f = modg (x11_update f)"

definition x11_parse_display :: "int m" where
  "x11_parse_display =
     bnd (getg (x11_display \<circ> cf)) (\<lambda>o_display.
     case o_display of
       None \<Rightarrow> ret 1
     | Some display \<Rightarrow>
         (case strrchr display (CHR '':'') of
            None \<Rightarrow> seq (error_msg ''Unrecognized DISPLAY=%s, X11 forwarding disabled'') (ret 1)
          | Some k \<Rightarrow>
              let name = take k display;
                  (port, endp, _) = strtoul 10 (drop (Suc k) display)
              in seq (set_x11 (\<lambda>x. x\<lparr>x11_connect_name := name, x11_connect_port := word_of_nat port\<rparr>))
                (if endp \<noteq> [] \<and> hd endp \<noteq> CHR ''.'' \<or> 100 < port
                 then seq (error_msg ''Unrecognized DISPLAY=%s, X11 forwarding disabled'') (ret 1)
                 else
                   let is_unix = (case strrchr name (CHR ''/'') of
                                    None \<Rightarrow> False
                                  | Some s \<Rightarrow> drop (Suc s) name = ''unix'')
                   in if name = [] \<or> is_unix
                      then seq (set_x11 (x11_connect_method_update (\<lambda>_. Some X11_connect_unix))) (ret 0)
                      else seq (set_x11 (\<lambda>x. x\<lparr>x11_connect_method := Some X11_connect_inet,
                                              share_caller_network := True\<rparr>)) (ret 0))))"

definition x11_drop_display :: "unit m" where
  "x11_drop_display = modg (cf_update (\<lambda>c. c\<lparr>x11_display := None, x11_key := None, x11_data_len := 0\<rparr>))"

definition x11_prepare_connect :: "int m" where
  "x11_prepare_connect =
     bnd (getg (x11_connect_method \<circ> x11)) (\<lambda>meth.
     case meth of
       None \<Rightarrow> ret 1
     | Some X11_connect_inet \<Rightarrow> ret 0
     | Some X11_connect_unix \<Rightarrow>
         bnd (sys_fs (Open X11_UNIX_DIR [O_RDONLY] 0)) (\<lambda>r.
         seq (set_x11 (x11_dir_fd_update (\<lambda>_. r_ret r)))
         (if r_ret r < 0 then
            seq (perror_msg ''open: %s'')
           (seq (error_msg ''X11 forwarding disabled'')
           (seq x11_drop_display (ret 1)))
          else ret 0)))"

end
