(* ===== verification/Chdir.thy ===== *)
theory Chdir
  imports Fds
begin

text \<open>
  Entering directories that somebody else may control: the validators and the
  lstat, validate, chdir, lstat, compare technique of chdir.c, the filesystem credentials of
  chid.c and the directory changes with the caller's credentials of chdiruid.c (built with
  \<open>ENABLE_SETFSUGID\<close> and \<open>ENABLE_SUPPLEMENTARY_GROUPS\<close>, as the Makefile does).
\<close>

subsection \<open>File modes\<close>

definition S_IFMT :: u32 where "S_IFMT = 0xF000"
definition S_IFDIR :: u32 where "S_IFDIR = 0x4000"
definition S_IFREG :: u32 where "S_IFREG = 0x8000"
definition S_IWOTH :: u32 where "S_IWOTH = 0x2"
definition S_IWGRP :: u32 where "S_IWGRP = 0x10"
definition S_ISVTX :: u32 where "S_ISVTX = 0x200"

definition S_ISDIR :: "u32 \<Rightarrow> bool" where "S_ISDIR mode \<longleftrightarrow> mode AND S_IFMT = S_IFDIR"
definition S_ISREG :: "u32 \<Rightarrow> bool" where "S_ISREG mode \<longleftrightarrow> mode AND S_IFMT = S_IFREG"

subsection \<open>Validators (chdir.c)\<close>

type_synonym validator = "stat_buf \<Rightarrow> string \<Rightarrow> unit m"

text \<open>Writable by others, or by the group without the sticky bit.\<close>

definition bad_perms :: "u32 \<Rightarrow> bool" where
  "bad_perms mode \<longleftrightarrow> mode AND S_IWOTH \<noteq> 0 \<or> mode AND S_IWGRP \<noteq> 0 \<and> mode AND S_ISVTX = 0"

definition stat_caller_ok_validator :: validator where
  "stat_caller_ok_validator st name =
     bnd (getg cl) (\<lambda>c. bnd (getg cf) (\<lambda>k.
     if st_uid st \<noteq> caller_uid c
     then error_msg_and_die ''%s: expected owner %u, found owner %u''
     else if st_gid st \<noteq> change_gid1 k
     then error_msg_and_die ''%s: expected group %u, found group %u''
     else if bad_perms (st_mode st) then error_msg_and_die ''%s: bad perms: %o''
     else ret ()))"

definition stat_caller_rooter_ok_validator :: validator where
  "stat_caller_rooter_ok_validator st name =
     bnd (getg cl) (\<lambda>c. bnd (getg cf) (\<lambda>k.
     if st_uid st \<noteq> caller_uid c \<and> st_uid st \<noteq> change_uid1 k
     then error_msg_and_die ''%s: expected owner %u or %u, found owner %u''
     else if st_gid st \<noteq> change_gid1 k
     then error_msg_and_die ''%s: expected group %u, found group %u''
     else if bad_perms (st_mode st) then error_msg_and_die ''%s: bad perms: %o''
     else ret ()))"

definition stat_root_ok_validator :: validator where
  "stat_root_ok_validator st name =
     (if st_uid st \<noteq> 0 then error_msg_and_die ''%s: bad owner: %u''
      else if st_mode st AND (S_IWGRP OR S_IWOTH) \<noteq> 0 then error_msg_and_die ''%s: bad perms: %o''
      else ret ())"

subsection \<open>Changing the directory (chdir.c)\<close>

definition is_changed :: "stat_buf \<Rightarrow> stat_buf \<Rightarrow> string option" where
  "is_changed st1 st2 =
     (if st_dev st1 \<noteq> st_dev st2 then Some ''device number''
      else if st_ino st1 \<noteq> st_ino st2 then Some ''inode number''
      else if st_rdev st1 \<noteq> st_rdev st2 then Some ''device type''
      else if st_mode st1 \<noteq> st_mode st2 then Some ''protection''
      else if st_uid st1 \<noteq> st_uid st2 \<or> st_gid st1 \<noteq> st_gid st2 then Some ''ownership''
      else None)"

definition safe_chdir_component :: "string \<Rightarrow> validator \<Rightarrow> unit m" where
  "safe_chdir_component name validator =
     bnd (sys_fs (Lstat name)) (\<lambda>r1.
     if r_ret r1 < 0 then perror_msg_and_die ''lstat: %s''
     else if \<not> S_ISDIR (st_mode (r_stat r1)) then perror_msg_and_die ''%s''
     else seq (validator (r_stat r1) name)
     (bnd (sys_fs (Chdir name)) (\<lambda>r.
     if r_ret r < 0 then perror_msg_and_die ''chdir: %s''
     else bnd (sys_fs (Lstat ''.'')) (\<lambda>r2.
     if r_ret r2 < 0 then perror_msg_and_die ''lstat: %s''
     else case is_changed (r_stat r1) (r_stat r2) of
       Some what \<Rightarrow> error_msg_and_die ''%s: %s changed during execution''
     | None \<Rightarrow> ret ()))))"

definition is_single :: "string \<Rightarrow> bool" where
  "is_single path \<longleftrightarrow> path \<noteq> [] \<and> hd path = CHR ''/'' \<or> strchr path (CHR ''/'') = None"

definition safe_chdir :: "string \<Rightarrow> validator \<Rightarrow> unit m" where
  "safe_chdir path validator =
     (if is_single path then safe_chdir_component path validator
      else for_each (strtok_all ''/'' path) (\<lambda>elem. safe_chdir_component elem validator))"

definition safe_fchdir :: "int \<Rightarrow> validator \<Rightarrow> unit m" where
  "safe_fchdir fd validator =
     bnd (sys_fs (Fstat fd)) (\<lambda>r.
     if r_ret r < 0 then perror_msg_and_die ''fstat''
     else seq (validator (r_stat r) ''(dirfd)'')
     (bnd (sys_fs (Fchdir fd)) (\<lambda>r.
     if r_ret r < 0 then perror_msg_and_die ''fchdir'' else ret ())))"

subsection \<open>Filesystem credentials (chid.c)\<close>

text \<open>Both return the previous value, which the C functions store through \<open>save\<close>.\<close>

definition ch_uid :: "u32 \<Rightarrow> u32 m" where
  "ch_uid uid =
     bnd (sys_pr (Setfsuid uid)) (\<lambda>r1. bnd (sys_pr (Setfsuid uid)) (\<lambda>r2.
     if word_of_int (r_ret r2) \<noteq> uid then error_msg_and_die ''failed to change fsuid to %u''
     else ret (word_of_int (r_ret r1))))"

definition ch_gid :: "u32 \<Rightarrow> u32 m" where
  "ch_gid gid =
     bnd (sys_pr (Setfsgid gid)) (\<lambda>r1. bnd (sys_pr (Setfsgid gid)) (\<lambda>r2.
     if word_of_int (r_ret r2) \<noteq> gid then error_msg_and_die ''failed to change fsgid to %u''
     else ret (word_of_int (r_ret r1))))"

subsection \<open>Directories of the caller (chdiruid.c)\<close>

definition is_prefix :: "string \<Rightarrow> string \<Rightarrow> bool" where
  "is_prefix prefix sample \<longleftrightarrow>
     strneq sample prefix (length prefix)
     \<and> (drop (length prefix) sample = [] \<or> hd (drop (length prefix) sample) = CHR ''/'')"

definition check_cwd :: "unit m" where
  "check_cwd =
     bnd (sys_fs Getcwd) (\<lambda>r.
     if r_ret r = 0 then perror_msg_and_die ''getcwd''
     else bnd (getg (chroot_prefix_list \<circ> cf)) (\<lambda>prefixes.
     let invalid = (case prefixes of
                      None \<Rightarrow> False
                    | Some ps \<Rightarrow> \<not> list_ex (\<lambda>prefix. is_prefix prefix (r_buf r)) ps)
     in if invalid
        then error_msg_and_die
          (''%s: prefix mismatch, working directory'' @
           '' should start with one of directories'' @
           '' listed in colon-separated prefix list (%s)'')
        else ret ()))"

text \<open>The result is the saved fsuid and fsgid.\<close>

definition change_creds :: "(u32 \<times> u32) m" where
  "change_creds =
     bnd (getg cl) (\<lambda>c.
     bnd (sys_pr (Initgroups (caller_user c) (caller_gid c))) (\<lambda>r.
     if r_ret r < 0 then perror_msg_and_die ''initgroups(%s, %u)''
     else bnd (ch_gid (caller_gid c)) (\<lambda>saved_gid.
     bnd (ch_uid (caller_uid c)) (\<lambda>saved_uid. ret (saved_uid, saved_gid)))))"

definition restore_creds :: "u32 \<Rightarrow> u32 \<Rightarrow> unit m" where
  "restore_creds saved_uid saved_gid =
     bnd (ch_uid saved_uid) (\<lambda>_. bnd (ch_gid saved_gid) (\<lambda>_.
     bnd (sys_pr (Setgroups [])) (\<lambda>r.
     if r_ret r < 0 then perror_msg_and_die ''setgroups'' else ret ())))"

definition chdiruid :: "string option \<Rightarrow> validator \<Rightarrow> unit m" where
  "chdiruid o_path validator =
     (case o_path of
        None \<Rightarrow> error_msg_and_die ''invalid chroot path''
      | Some path \<Rightarrow>
          bnd change_creds (\<lambda>(saved_uid, saved_gid).
          seq (if is_single path then safe_chdir path validator
               else for_each (strtok_all ''/'' path) (\<lambda>elem. safe_chdir elem validator))
         (seq check_cwd (restore_creds saved_uid saved_gid))))"

definition fchdiruid :: "int \<Rightarrow> validator \<Rightarrow> unit m" where
  "fchdiruid fd validator =
     (if fd < 0 then error_msg_and_die ''invalid chroot fd''
      else bnd change_creds (\<lambda>(saved_uid, saved_gid).
           seq (safe_fchdir fd validator)
          (seq check_cwd (restore_creds saved_uid saved_gid))))"

subsection \<open>What a validator promises\<close>

text \<open>
  A validator returns, without any effect, exactly when the attributes of the file satisfy a
  predicate that depends only on its mode, owner and group.
\<close>

locale file_validator =
  fixes check :: validator
    and ok :: "globals \<Rightarrow> stat_buf \<Rightarrow> bool"
  assumes accepts: "ok (gl w) st \<Longrightarrow> check st name w = (Ret (), w)"
    and rejects: "\<not> ok (gl w) st \<Longrightarrow> \<exists>v. check st name w = (Stop (Exit 1), v)"
    and attributes: "st_mode st = st_mode st' \<Longrightarrow> st_uid st = st_uid st' \<Longrightarrow> st_gid st = st_gid st' \<Longrightarrow>
           ok g st = ok g st'"
begin

lemma pc_check: "(ok (gl w) st \<Longrightarrow> Q () w) \<Longrightarrow> pc (check st name) Q w"
  using accepts [of w st name] rejects [of w st name] by (cases "ok (gl w) st") (auto simp: wp_def)

text \<open>The directory that has been entered is one the validator accepts.\<close>

abbreviation entered :: "world \<Rightarrow> world \<Rightarrow> bool" where
  "entered w w' \<equiv> gl w' = gl w \<and>
     (\<exists>r t. trace w' = (Fs (Lstat ''.''), r) # t \<and> 0 \<le> r_ret r \<and> S_ISDIR (st_mode (r_stat r))
            \<and> ok (gl w) (r_stat r))"

lemma unchanged_ok:
  "is_changed st st' = None \<Longrightarrow> ok g st \<Longrightarrow> ok g st' \<and> st_mode st = st_mode st'"
  using attributes [of st st'] by (auto simp: is_changed_def split: if_splits)

lemma component_entered: "pc (safe_chdir_component name check) (\<lambda>_ w'. entered w w') w"
  unfolding safe_chdir_component_def
  by (intro pc_rules pc_check) (auto dest!: unchanged_ok)

lemma chdir_entered: "pc (safe_chdir path check) (\<lambda>_ w'. entered w w') w"
proof (cases "is_single path")
  case True
  then show ?thesis unfolding safe_chdir_def by (simp only: if_True component_entered)
next
  case False
  have "path \<noteq> [] \<and> hd path \<noteq> CHR ''/'' \<and> CHR ''/'' \<in> set path"
    using False by (auto simp: is_single_def strchr_def split: if_splits)
  then obtain c cs where p: "path = c # cs" "c \<noteq> CHR ''/''" by (cases path) auto
  then obtain e es where es: "strtok_all ''/'' path = e # es"
    by (simp add: strtok_all.simps [of "''/''" "c # cs"])
  have "pc (for_each es (\<lambda>elem. safe_chdir_component elem check)) (\<lambda>_ w'. entered w w') v"
    if "entered w v" for v
    by (rule pc_for_each [where I = "entered w"]) (use that in \<open>auto intro!: wp_conseq [OF component_entered]\<close>)
  then show ?thesis
    using False by (auto simp: safe_chdir_def es wp_seq intro!: wp_conseq [OF component_entered])
qed

end

definition caller_ok :: "globals \<Rightarrow> stat_buf \<Rightarrow> bool" where
  "caller_ok g st \<longleftrightarrow> st_uid st = caller_uid (cl g) \<and> st_gid st = change_gid1 (cf g)
     \<and> \<not> bad_perms (st_mode st)"

definition caller_rooter_ok :: "globals \<Rightarrow> stat_buf \<Rightarrow> bool" where
  "caller_rooter_ok g st \<longleftrightarrow>
     (st_uid st = caller_uid (cl g) \<or> st_uid st = change_uid1 (cf g))
     \<and> st_gid st = change_gid1 (cf g) \<and> \<not> bad_perms (st_mode st)"

definition root_ok :: "globals \<Rightarrow> stat_buf \<Rightarrow> bool" where
  "root_ok g st \<longleftrightarrow> st_uid st = 0 \<and> st_mode st AND (S_IWGRP OR S_IWOTH) = 0"

lemma die_stops: "\<exists>v. error_msg_and_die s w = (Stop (Exit 1), v)"
  by (simp add: error_msg_and_die_def error_msg_def vprint_or_log_msg_def vprint_msg_def die_def c_exit_def bnd_def
      getg_def seq_def stop_def ret_def emit_def)

interpretation by_caller: file_validator stat_caller_ok_validator caller_ok
  by unfold_locales
    (auto simp: stat_caller_ok_validator_def caller_ok_def bnd_def getg_def ret_def die_stops)

interpretation by_caller_or_rooter: file_validator stat_caller_rooter_ok_validator caller_rooter_ok
  by unfold_locales
    (auto simp: stat_caller_rooter_ok_validator_def caller_rooter_ok_def bnd_def getg_def ret_def die_stops)

interpretation by_root: file_validator stat_root_ok_validator root_ok
  by unfold_locales (auto simp: stat_root_ok_validator_def root_ok_def ret_def die_stops)

subsection \<open>Prefixes\<close>

text \<open>A path is below a prefix when it is the prefix or continues it after a slash.\<close>

lemma is_prefix_iff: "is_prefix p s \<longleftrightarrow> s = p \<or> (\<exists>t. s = p @ CHR ''/'' # t)"
proof -
  have "(drop (length p) s = [] \<or> hd (drop (length p) s) = CHR ''/'') \<longleftrightarrow> t = [] \<or> (\<exists>u. t = CHR ''/'' # u)"
    if "s = p @ t" for t
    using that by (cases t) auto
  then show ?thesis unfolding is_prefix_def strneq_prefix by auto
qed

subsection \<open>Whose credentials a file is accessed with\<close>

text \<open>
  What a process can know of its fsuid and fsgid: \<open>setfsuid\<close> returns the previous value, so a
  value is known after a call that returns the value it asks for. The other calls that change
  these identities leave them unknown here.
\<close>

type_synonym fs_creds = "u32 option \<times> u32 option"

fun creds_step :: "call \<times> reply \<Rightarrow> fs_creds \<Rightarrow> fs_creds" where
  "creds_step (Pr (Setfsuid u), r) (a, b) = (if word_of_int (r_ret r) = u then Some u else None, b)"
| "creds_step (Pr (Setfsgid g), r) (a, b) = (a, if word_of_int (r_ret r) = g then Some g else None)"
| "creds_step (Pr (Setuid u), r) (a, b) = (None, b)"
| "creds_step (Pr (Setreuid u v), r) (a, b) = (None, b)"
| "creds_step (Pr (Setgid g), r) (a, b) = (a, None)"
| "creds_step _ ab = ab"

definition creds_of :: "trace \<Rightarrow> fs_creds" where
  "creds_of t = foldr creds_step t (None, None)"

lemma creds_of_simps [simp]: "creds_of [] = (None, None)" "creds_of (x # t) = creds_step x (creds_of t)"
  by (simp_all add: creds_of_def)

text \<open>Every file system call among the new ones was made with the given credentials.\<close>

fun files_as :: "fs_creds \<Rightarrow> trace \<Rightarrow> trace \<Rightarrow> bool" where
  "files_as want [] base = True"
| "files_as want ((c, r) # new) base =
     ((\<forall>x. c = Fs x \<longrightarrow> creds_of (new @ base) = want) \<and> files_as want new base)"

text \<open>The kernel's side: \<open>setfsuid\<close> and \<open>setfsgid\<close> return the value that was in force.\<close>

fun setfs_contract :: "trace \<Rightarrow> bool" where
  "setfs_contract [] = True"
| "setfs_contract ((c, r) # t) =
     (setfs_contract t \<and>
      (case c of
         Pr (Setfsuid u) \<Rightarrow> fst (creds_of t) \<in> {None, Some (word_of_int (r_ret r))}
       | Pr (Setfsgid g) \<Rightarrow> snd (creds_of t) \<in> {None, Some (word_of_int (r_ret r))}
       | _ \<Rightarrow> True))"

lemma setfs_contract_append: "setfs_contract (t @ u) \<Longrightarrow> setfs_contract u"
  by (induction t rule: setfs_contract.induct) auto

lemma files_as_append:
  "files_as want (new @ mid) base \<longleftrightarrow> files_as want new (mid @ base) \<and> files_as want mid base"
  by (induction want new base rule: files_as.induct) auto

definition keeps_creds :: "call \<Rightarrow> bool" where
  "keeps_creds c \<longleftrightarrow> (case c of
       Pr p \<Rightarrow> (case p of Setfsuid _ \<Rightarrow> False | Setfsgid _ \<Rightarrow> False | Setuid _ \<Rightarrow> False
                  | Setreuid _ _ \<Rightarrow> False | Setgid _ \<Rightarrow> False | _ \<Rightarrow> True)
     | _ \<Rightarrow> True)"

lemma keeps_creds_step: "keeps_creds c \<Longrightarrow> creds_step (c, r) ab = ab"
  by (cases ab; cases "((c, r), ab)" rule: creds_step.cases) (auto simp: keeps_creds_def)

definition acts_as :: "fs_creds \<Rightarrow> world \<Rightarrow> world \<Rightarrow> bool" where
  "acts_as want w w' \<longleftrightarrow> gl w' = gl w \<and>
     (\<exists>new. trace w' = new @ trace w \<and>
        (creds_of (trace w) = want \<longrightarrow> creds_of (trace w') = want \<and> files_as want new (trace w)))"

lemma acts_as_step:
  "keeps_creds c \<Longrightarrow> trace w' = (c, r) # trace w \<Longrightarrow> gl w' = gl w \<Longrightarrow> acts_as want w w'"
  unfolding acts_as_def by (intro conjI exI [of _ "[(c, r)]"]) (auto simp: keeps_creds_step)

interpretation acting: run_property "acts_as want" keeps_creds "\<lambda>_. False" for want
proof unfold_locales
  show "acts_as want u w" if uv: "acts_as want u v" and vw: "acts_as want v w" for u v w
  proof -
    from uv vw obtain n1 n2 where
      1: "gl v = gl u" "trace v = n1 @ trace u"
        "creds_of (trace u) = want \<longrightarrow> creds_of (trace v) = want \<and> files_as want n1 (trace u)" and
      2: "gl w = gl v" "trace w = n2 @ trace v"
        "creds_of (trace v) = want \<longrightarrow> creds_of (trace w) = want \<and> files_as want n2 (trace v)"
      unfolding acts_as_def by blast
    then show ?thesis
      unfolding acts_as_def by (intro conjI exI [of _ "n2 @ n1"]) (auto simp: files_as_append)
  qed
  show "acts_as want w (answer c r rs w)" if "keeps_creds c" for c w r rs
    using that by (rule acts_as_step) simp_all
  show "acts_as want w (w\<lparr>trace := (c, rep 0) # trace w\<rparr>)" if "keeps_creds c" for c w
    using that by (rule acts_as_step) simp_all
qed (auto simp: acts_as_def keeps_creds_def)

definition caller_validators :: "validator set" where
  "caller_validators = {stat_caller_ok_validator, stat_caller_rooter_ok_validator}"

lemma acting_parts:
  assumes "v \<in> caller_validators"
  shows "runs (acts_as want) (v st n)" and "runs (acts_as want) (safe_fchdir fd v)"
    and "runs (acts_as want) (safe_chdir path v)" and "runs (acts_as want) check_cwd"
proof -
  show v: "runs (acts_as want) (v st n)" for st n
    using assms unfolding caller_validators_def stat_caller_ok_validator_def stat_caller_rooter_ok_validator_def
    by (auto intro!: acting.rules runs_cases)
  show "runs (acts_as want) (safe_fchdir fd v)"
    unfolding safe_fchdir_def by (intro acting.rules runs_cases v) (simp_all add: keeps_creds_def)
  have comp: "runs (acts_as want) (safe_chdir_component n v)" for n
    unfolding safe_chdir_component_def by (intro acting.rules runs_cases v) (simp_all add: keeps_creds_def)
  show "runs (acts_as want) (safe_chdir path v)"
    unfolding safe_chdir_def by (intro acting.rules runs_cases comp)
  show "runs (acts_as want) check_cwd"
    unfolding check_cwd_def by (intro acting.rules runs_cases) (simp_all add: keeps_creds_def)
qed

definition caller_creds :: "globals \<Rightarrow> fs_creds" where
  "caller_creds g = (Some (caller_uid (cl g)), Some (caller_gid (cl g)))"

text \<open>The values saved are those in force before, when they were known and the kernel is honest.\<close>

definition saved_ok :: "world \<Rightarrow> world \<Rightarrow> u32 \<Rightarrow> u32 \<Rightarrow> bool" where
  "saved_ok w v su sg \<longleftrightarrow>
     (setfs_contract (trace v) \<longrightarrow>
        (\<forall>a. fst (creds_of (trace w)) = Some a \<longrightarrow> su = a) \<and> (\<forall>b. snd (creds_of (trace w)) = Some b \<longrightarrow> sg = b))"

lemma change_creds_pc:
  "pc change_creds (\<lambda>(su, sg) v. gl v = gl w \<and> creds_of (trace v) = caller_creds (gl w)
      \<and> (\<exists>new. trace v = new @ trace w \<and> files_as want new (trace w)) \<and> saved_ok w v su sg) w"
proof -
  obtain a b where ab: "creds_of (trace w) = (a, b)" by (cases "creds_of (trace w)")
  show ?thesis
    unfolding change_creds_def ch_uid_def ch_gid_def saved_ok_def caller_creds_def
    by (intro pc_rules) (auto simp: ab)
qed

lemma restore_creds_pc:
  "pc (restore_creds su sg) (\<lambda>_ v. gl v = gl w \<and> creds_of (trace v) = (Some su, Some sg)
      \<and> (\<exists>new. trace v = new @ trace w \<and> files_as want new (trace w))) w"
proof -
  obtain a b where ab: "creds_of (trace w) = (a, b)" by (cases "creds_of (trace w)")
  show ?thesis
    unfolding restore_creds_def ch_uid_def ch_gid_def
    by (intro pc_rules) (auto simp: ab)
qed

text \<open>Code between the change and the restoration acts as the caller.\<close>

definition bracketed :: "world \<Rightarrow> world \<Rightarrow> bool" where
  "bracketed w v \<longleftrightarrow> gl v = gl w
     \<and> (\<exists>new. trace v = new @ trace w \<and> files_as (caller_creds (gl w)) new (trace w))
     \<and> (setfs_contract (trace v) \<longrightarrow>
          (\<forall>a b. creds_of (trace w) = (Some a, Some b) \<longrightarrow> creds_of (trace v) = (Some a, Some b)))"

lemma bracket_tail:
  assumes body: "runs (acts_as (caller_creds (gl w))) body"
    and u: "gl u = gl w" "creds_of (trace u) = caller_creds (gl w)" "trace u = new @ trace w"
      "files_as (caller_creds (gl w)) new (trace w)" "saved_ok w u su sg"
  shows "pc (seq body (restore_creds su sg)) (\<lambda>_. bracketed w) u"
proof (rule pc_comb(2), rule pc_runs [OF body], rule pc_conseq [OF restore_creds_pc])
  fix v v2 :: world
  let ?want = "caller_creds (gl w)"
  assume v: "acts_as ?want u v"
    and v2: "gl v2 = gl v \<and> creds_of (trace v2) = (Some su, Some sg)
        \<and> (\<exists>new. trace v2 = new @ trace v \<and> files_as ?want new (trace v))"
  from v u obtain n1 where n1: "gl v = gl w" "trace v = n1 @ trace u" "files_as ?want n1 (trace u)"
    unfolding acts_as_def by auto
  from v2 obtain n2 where n2: "trace v2 = n2 @ trace v" "files_as ?want n2 (trace v)" by blast
  have "trace v2 = (n2 @ n1 @ new) @ trace w" "files_as ?want (n2 @ n1 @ new) (trace w)"
    "trace v2 = (n2 @ n1) @ trace u"
    using n1 n2 u by (auto simp: files_as_append)
  moreover from this(3) have "setfs_contract (trace v2) \<Longrightarrow> setfs_contract (trace u)"
    by (metis setfs_contract_append)
  ultimately show "bracketed w v2"
    using n1(1) v2 u(5) by (auto simp: bracketed_def saved_ok_def)
qed

lemma as_caller_bracket:
  assumes "runs (acts_as (caller_creds (gl w))) body"
  shows "pc (bnd change_creds (\<lambda>(su, sg). seq body (restore_creds su sg))) (\<lambda>_. bracketed w) w"
  by (rule pc_comb, rule pc_conseq [OF change_creds_pc [where want = "caller_creds (gl w)"]])
    (auto intro!: bracket_tail [OF assms])

text \<open>The working directory is below one of the configured prefixes, if there are any.\<close>

definition below_prefix :: "globals \<Rightarrow> string \<Rightarrow> bool" where
  "below_prefix g cwd \<longleftrightarrow>
     (\<forall>ps. chroot_prefix_list (cf g) = Some ps \<longrightarrow> (\<exists>p \<in> set ps. cwd = p \<or> (\<exists>t. cwd = p @ CHR ''/'' # t)))"

lemma check_cwd_pc:
  "pc check_cwd (\<lambda>_ v. gl v = gl w \<and>
     (\<exists>r. trace v = (Fs Getcwd, r) # trace w \<and> r_ret r \<noteq> 0 \<and> below_prefix (gl w) (r_buf r))) w"
  unfolding check_cwd_def
  by (intro pc_rules) (auto simp: below_prefix_def list_ex_iff is_prefix_iff)

lemma safe_fchdir_pc:
  assumes "file_validator v ok"
  shows "pc (safe_fchdir fd v) (\<lambda>_ u. gl u = gl w \<and>
     (\<exists>r q. trace u = (Fs (Fchdir fd), q) # (Fs (Fstat fd), r) # trace w \<and> 0 \<le> r_ret r \<and> 0 \<le> r_ret q
        \<and> ok (gl w) (r_stat r))) w"
  unfolding safe_fchdir_def
  by (intro pc_rules file_validator.pc_check [OF assms]) auto

lemma creds_extend:
  "runs (extends_by (\<lambda>_. True)) change_creds" "runs (extends_by (\<lambda>_. True)) (restore_creds a b)"
proof -
  have or: "or_log (\<lambda>_. True) = (\<lambda>_. True)" by (simp add: or_log_def fun_eq_iff)
  have "emits (\<lambda>_. True) change_creds" "emits (\<lambda>_. True) (restore_creds a b)"
    unfolding change_creds_def restore_creds_def ch_uid_def ch_gid_def
    by (intro inv_intros; simp)+
  then show "runs (extends_by (\<lambda>_. True)) change_creds" "runs (extends_by (\<lambda>_. True)) (restore_creds a b)"
    by (simp_all add: or)
qed


definition demo_globals :: globals where
  "demo_globals = globals_init
     \<lparr>cl := caller_data_init\<lparr>caller_user := ''u'', caller_uid := 500, caller_gid := 500\<rparr>,
      cf := conf_init\<lparr>change_uid1 := 600, change_gid1 := 600, chroot_prefix_list := Some [''/home'']\<rparr>\<rparr>"

definition demo_stat :: stat_buf where
  "demo_stat = stat0\<lparr>st_mode := 0x41C0, st_uid := 500, st_gid := 600\<rparr>"

definition demo_replies :: "reply list" where
  "demo_replies = [rep 0, rep 0, rep 500, rep 0, rep 500, (rep 0)\<lparr>r_stat := demo_stat\<rparr>, rep 0,
     (rep 1)\<lparr>r_buf := ''/home/u''\<rparr>, rep 500, rep 0, rep 500, rep 0, rep 0]"


end
