(* ===== verification/Trace_Logic.thy ===== *)
theory Trace_Logic
  imports Monad_Logic
begin

text \<open>
  Safety of traces: that a dangerous call is made only in a state of the process that permits
  it. The state is a function of the calls made before, such as the identity that the
  successful calls have given the process. The rules walk through a function call by call.
\<close>

locale trace_safety =
  fixes T :: "trace \<Rightarrow> bool"
  assumes log: "T t \<Longrightarrow> T ((Mi (Log l p s), r) # t)"
begin

text \<open>
  \<open>meets m Q w\<close>: the trace satisfies \<open>T\<close> wherever the run of \<open>m\<close> from \<open>w\<close> ends, and if it
  returns, the value and the world satisfy \<open>Q\<close>.
\<close>

definition meets :: "'a m \<Rightarrow> ('a \<Rightarrow> world \<Rightarrow> bool) \<Rightarrow> world \<Rightarrow> bool" where
  "meets m Q w \<longleftrightarrow> wp m (\<lambda>x v. T (trace v) \<and> Q x v) (\<lambda>_ v. T (trace v)) w"

abbreviation safe :: "'a m \<Rightarrow> world \<Rightarrow> bool" where
  "safe m w \<equiv> meets m (\<lambda>_ _. True) w"

lemma safe_def: "safe m w \<longleftrightarrow> T (trace (snd (m w)))"
  using wp_same [of m "\<lambda>v. T (trace v)" w] by (simp add: meets_def)

lemma meets_safe: "meets m Q w \<Longrightarrow> T (trace (snd (m w)))"
  by (auto simp: meets_def wp_def split: prod.splits outcome.splits)

lemma meets_conseq: "meets m P w \<Longrightarrow> (\<And>x v. T (trace v) \<Longrightarrow> P x v \<Longrightarrow> Q x v) \<Longrightarrow> meets m Q w"
  unfolding meets_def by (erule wp_conseq) auto

lemma after:
  assumes "meets m P w" and "\<And>x v. T (trace v) \<Longrightarrow> P x v \<Longrightarrow> meets (k x) Q v"
  shows "meets (bnd m k) Q w"
  unfolding meets_def wp_bnd using assms(1) unfolding meets_def
  by (rule wp_conseq) (auto intro: assms(2) [unfolded meets_def])

lemma after_seq:
  "meets m P w \<Longrightarrow> (\<And>v. T (trace v) \<Longrightarrow> P () v \<Longrightarrow> meets k Q v) \<Longrightarrow> meets (seq m k) Q w"
  unfolding seq_def by (rule after [where P = P]) auto

lemma step:
  assumes "T (trace w)"
    and "\<And>r v. trace v = (c, r) # trace w \<Longrightarrow> gl v = gl w \<Longrightarrow> meets (k r) Q v"
  shows "meets (bnd (sys c) k) Q w"
  using assms by (auto simp: meets_def wp_bnd wp_sys split: list.split)

lemma step_family:
  "T (trace w) \<Longrightarrow> (\<And>r v. trace v = (Fs c1, r) # trace w \<Longrightarrow> gl v = gl w \<Longrightarrow> meets (k r) Q v) \<Longrightarrow>
     meets (bnd (sys_fs c1) k) Q w"
  "T (trace w) \<Longrightarrow> (\<And>r v. trace v = (Fd c2, r) # trace w \<Longrightarrow> gl v = gl w \<Longrightarrow> meets (k r) Q v) \<Longrightarrow>
     meets (bnd (sys_fd c2) k) Q w"
  "T (trace w) \<Longrightarrow> (\<And>r v. trace v = (Pr c3, r) # trace w \<Longrightarrow> gl v = gl w \<Longrightarrow> meets (k r) Q v) \<Longrightarrow>
     meets (bnd (sys_pr c3) k) Q w"
  "T (trace w) \<Longrightarrow> (\<And>r v. trace v = (Mi c4, r) # trace w \<Longrightarrow> gl v = gl w \<Longrightarrow> meets (k r) Q v) \<Longrightarrow>
     meets (bnd (sys_mi c4) k) Q w"
  unfolding sys_fs_def sys_fd_def sys_pr_def sys_mi_def by (rule step; assumption)+

lemma dies:
  "T (trace w) \<Longrightarrow> meets (error_msg_and_die s) Q w" "T (trace w) \<Longrightarrow> meets (perror_msg_and_die s) Q w"
  "T (trace w) \<Longrightarrow> meets die Q w" "T (trace w) \<Longrightarrow> meets (c_exit n) Q w" "T (trace w) \<Longrightarrow> meets (stop st) Q w"
  by (simp_all add: meets_def wp_simps logged_trace log)

lemma returns_safe: "T (trace w) \<Longrightarrow> Q x w \<Longrightarrow> meets (ret x) Q w"
  by (simp add: meets_def wp_ret)

lemma get: "meets (f (h (gl w))) Q w \<Longrightarrow> meets (bnd (getg h) f) Q w"
  by (simp add: meets_def wp_simps)

lemma put: "(\<And>v. trace v = trace w \<Longrightarrow> gl v = f (gl w) \<Longrightarrow> meets k Q v) \<Longrightarrow> meets (seq (modg f) k) Q w"
  by (simp add: meets_def wp_simps)

lemma branch: "(b \<Longrightarrow> meets m Q w) \<Longrightarrow> (\<not> b \<Longrightarrow> meets n Q w) \<Longrightarrow> meets (if b then m else n) Q w"
  by simp

lemma branch_option:
  "(x = None \<Longrightarrow> meets m Q w) \<Longrightarrow> (\<And>y. x = Some y \<Longrightarrow> meets (f y) Q w) \<Longrightarrow>
     meets (case x of None \<Rightarrow> m | Some y \<Rightarrow> f y) Q w"
  by (cases x) auto

lemma branch_prod:
  "(\<And>a b. p = (a, b) \<Longrightarrow> meets (f a b) Q w) \<Longrightarrow> meets (case p of (a, b) \<Rightarrow> f a b) Q w"
  by (cases p) auto

lemma let_safe: "(\<And>y. y = x \<Longrightarrow> meets (f y) Q w) \<Longrightarrow> meets (Let x f) Q w"
  by (simp add: Let_def)

text \<open>A part that makes only calls of a harmless class.\<close>

lemma class_meets:
  assumes T: "T (trace w)" and C: "emits C m"
    and ok: "\<And>c r t. C c \<Longrightarrow> T t \<Longrightarrow> T ((c, r) # t)"
    and Q: "\<And>x v new. trace v = new @ trace w \<Longrightarrow> list_all (\<lambda>(c, r). or_log C c) new \<Longrightarrow> T (trace v) \<Longrightarrow> Q x v"
  shows "meets m Q w"
proof -
  obtain out v where m: "m w = (out, v)" by (cases "m w")
  obtain new where new: "trace v = new @ trace w" "\<And>c r. (c, r) \<in> set new \<Longrightarrow> or_log C c"
    using emits_trace [OF C m] by blast
  have "T (n @ trace w)" if "set n \<subseteq> set new" for n
    using that
  proof (induction n)
    case (Cons x n)
    obtain c r where x: "x = (c, r)" by (cases x)
    with Cons.prems new(2) have "C c \<or> (\<exists>l p s. c = Mi (Log l p s))" by (auto simp: or_log_def)
    with Cons show ?case by (auto simp: x intro: ok log)
  qed (simp add: T)
  from this [of new] have Tv: "T (trace v)" by (simp add: new(1))
  have "Q x v" for x by (rule Q [OF new(1) _ Tv]) (auto simp: list_all_iff new(2))
  with m Tv show ?thesis by (auto simp: meets_def wp_def split: outcome.split)
qed

lemma runs_meets:
  assumes "runs R m" and "\<And>v. R w v \<Longrightarrow> T (trace v)" and "\<And>x v. R w v \<Longrightarrow> Q x v"
  shows "meets m Q w"
  unfolding meets_def by (rule wpI) (auto intro: assms(2,3) dest: runsD [OF assms(1)])

lemma part:
  assumes "T (trace w)" and "emits C m" and "\<And>c r t. C c \<Longrightarrow> T t \<Longrightarrow> T ((c, r) # t)"
    and "\<And>x v new. trace v = new @ trace w \<Longrightarrow> list_all (\<lambda>(c, r). or_log C c) new \<Longrightarrow> T (trace v) \<Longrightarrow> meets (k x) Q v"
  shows "meets (bnd m k) Q w"
  using class_meets [OF assms(1,2), of "\<lambda>x v. meets (k x) Q v"] assms(3,4) by (auto intro!: after)

lemma part_seq:
  assumes "T (trace w)" and "emits C m" and "\<And>c r t. C c \<Longrightarrow> T t \<Longrightarrow> T ((c, r) # t)"
    and "\<And>v new. trace v = new @ trace w \<Longrightarrow> list_all (\<lambda>(c, r). or_log C c) new \<Longrightarrow> T (trace v) \<Longrightarrow> meets k Q v"
  shows "meets (seq m k) Q w"
  unfolding seq_def by (rule part [OF assms(1,2)]) (blast intro: assms(3), blast intro: assms(4))

lemma last_part:
  assumes "T (trace w)" and "emits C m" and "\<And>c r t. C c \<Longrightarrow> T t \<Longrightarrow> T ((c, r) # t)"
  shows "safe m w"
  by (rule class_meets [OF assms(1,2)]) (rule assms(3), assumption+, rule TrueI)

text \<open>Parts that keep the property whatever went before, and loops over them.\<close>

lemma compose: "safe m w \<Longrightarrow> (\<And>x v. T (trace v) \<Longrightarrow> meets (k x) Q v) \<Longrightarrow> meets (bnd m k) Q w"
  by (rule after [where P = "\<lambda>_ _. True"])

lemma compose_seq: "safe m w \<Longrightarrow> (\<And>v. T (trace v) \<Longrightarrow> meets k Q v) \<Longrightarrow> meets (seq m k) Q w"
  unfolding seq_def by (rule compose)

lemma for_each_meets:
  assumes "T (trace w)" and "I w"
    and "\<And>x v. x \<in> set xs \<Longrightarrow> T (trace v) \<Longrightarrow> I v \<Longrightarrow> meets (f x) (\<lambda>_. I) v"
  shows "meets (for_each xs f) (\<lambda>_. I) w"
  using assms
proof (induction xs arbitrary: w)
  case (Cons x xs)
  show ?case
    unfolding for_each.simps by (rule after_seq [of _ "\<lambda>_. I"]) (auto intro!: Cons)
qed (simp add: returns_safe)

lemma for_each_safe:
  "T (trace w) \<Longrightarrow> (\<And>x v. T (trace v) \<Longrightarrow> safe (f x) v) \<Longrightarrow> safe (for_each xs f) w"
  using for_each_meets [of w "\<lambda>_. True" xs f] by simp

lemma loop_meets:
  assumes "\<And>s v. T (trace v) \<Longrightarrow> I s v \<Longrightarrow>
      meets (body s) (\<lambda>x u. case x of Inl s' \<Rightarrow> I s' u | Inr r \<Rightarrow> Q r u) v"
  shows "T (trace w) \<Longrightarrow> I s w \<Longrightarrow> meets (loop n body s) Q w"
proof (induction n arbitrary: s w)
  case (Suc n)
  show ?case
    unfolding loop.simps
    by (rule after [OF assms [OF Suc.prems]]) (auto intro: Suc.IH returns_safe split: sum.splits)
qed (simp add: dies)

lemma event_loop_meets:
  assumes "T (trace w)" and "I s w"
    and "\<And>s v. T (trace v) \<Longrightarrow> I s v \<Longrightarrow>
      meets (body s) (\<lambda>x u. case x of Inl s' \<Rightarrow> I s' u | Inr r \<Rightarrow> Q r u) v"
  shows "meets (event_loop body s) Q w"
  using loop_meets [of I body Q w s "Suc (length (replies w))"] assms
  by (simp add: meets_def event_loop_def wp_def)

lemma loop_safe:
  "T (trace w) \<Longrightarrow> (\<And>s v. T (trace v) \<Longrightarrow> safe (body s) v) \<Longrightarrow> safe (loop n body s) w"
  by (rule loop_meets [where I = "\<lambda>_ _. True"]) (auto elim!: meets_conseq split: sum.split)

lemma event_loop_safe:
  "T (trace w) \<Longrightarrow> (\<And>s v. T (trace v) \<Longrightarrow> safe (body s) v) \<Longrightarrow> safe (event_loop body s) w"
  by (rule event_loop_meets [where I = "\<lambda>_ _. True"]) (auto elim!: meets_conseq split: sum.split)

lemma messages:
  assumes "T (trace w)"
  shows "safe (error_msg s) w" "safe (perror_msg s) w" "safe (warn_msg s) w" "safe (notice_msg s) w"
    "safe (info_msg s) w" "safe (debug_msg s) w"
  using assms by (simp_all add: meets_def wp_simps logged_trace log)

end

subsection \<open>The identity of the process\<close>

text \<open>
  The real and effective uid that the last successful change has set (\<open>None\<close>: none yet), and
  likewise the gid. \<open>setuid\<close> and \<open>setgid\<close> of a privileged process set all ids.
\<close>

fun uid_step :: "call \<times> reply \<Rightarrow> (u32 \<times> u32) option \<Rightarrow> (u32 \<times> u32) option" where
  "uid_step (Pr (Setuid u), r) ids = (if 0 \<le> r_ret r then Some (u, u) else ids)"
| "uid_step (Pr (Setreuid u e), r) ids = (if 0 \<le> r_ret r then Some (u, e) else ids)"
| "uid_step _ ids = ids"

definition uids_of :: "trace \<Rightarrow> (u32 \<times> u32) option" where
  "uids_of t = foldr uid_step t None"

fun gid_step :: "call \<times> reply \<Rightarrow> u32 option \<Rightarrow> u32 option" where
  "gid_step (Pr (Setgid g), r) ids = (if 0 \<le> r_ret r then Some g else ids)"
| "gid_step _ ids = ids"

definition gid_of :: "trace \<Rightarrow> u32 option" where
  "gid_of t = foldr gid_step t None"

lemma ids_simps [simp]:
  "uids_of [] = None" "uids_of (x # t) = uid_step x (uids_of t)"
  "gid_of [] = None" "gid_of (x # t) = gid_step x (gid_of t)"
  by (simp_all add: uids_of_def gid_of_def)

definition keeps_ids :: "call \<Rightarrow> bool" where
  "keeps_ids c \<longleftrightarrow> (case c of
       Pr p \<Rightarrow> (case p of Setuid _ \<Rightarrow> False | Setreuid _ _ \<Rightarrow> False | Setgid _ \<Rightarrow> False | _ \<Rightarrow> True) | _ \<Rightarrow> True)"

lemma keeps_ids_step: "keeps_ids c \<Longrightarrow> uid_step (c, r) u = u \<and> gid_step (c, r) g = g"
  by (cases "((c, r), u)" rule: uid_step.cases; cases "((c, r), g)" rule: gid_step.cases)
    (auto simp: keeps_ids_def)

lemma keeps_ids_list:
  "list_all (\<lambda>(c, r). keeps_ids c) new \<Longrightarrow> uids_of (new @ t) = uids_of t \<and> gid_of (new @ t) = gid_of t"
  by (induction new) (auto simp: keeps_ids_step)

end
