(* ===== verification/Terminal.thy ===== *)
theory Terminal
  imports Chdir Trace_Logic
begin

text \<open>
  Terminals: saving and restoring the caller's terminal (tty.c) and opening a pseudo-terminal
  inside and outside the chroot (pty.c).
\<close>

definition set_par :: "(parent_state \<Rightarrow> parent_state) \<Rightarrow> unit m" where
  "set_par f = modg (par_update f)"

subsection \<open>The caller's terminal (tty.c)\<close>

text \<open>
  The contents of the terminal settings are not modelled, nor the call of \<open>restore_tty\<close> at
  \<open>exit\<close>, which \<open>atexit\<close> asks for.
\<close>

definition restore_tty :: "unit m" where
  "restore_tty =
     bnd (getg (tty_is_saved \<circ> par)) (\<lambda>saved.
     only_if saved
       (seq (set_par (tty_is_saved_update (\<lambda>_. False)))
            (bnd (sys_fd (Tcsetattr 0)) (\<lambda>_. ret ()))))"

definition init_tty :: "int m" where
  "init_tty =
     bnd (sys_fd (Tcgetattr 0)) (\<lambda>r.
     if r_ret r \<noteq> 0 then ret 0
     else bnd (getg (use_pty \<circ> cf)) (\<lambda>pty.
     if pty then
       seq (set_par (tty_is_saved_update (\<lambda>_. True)))
      (bnd (sys_mi Atexit) (\<lambda>r.
       if r_ret r \<noteq> 0 then perror_msg_and_die ''atexit''
       else bnd (sys_fd (Tcsetattr 0)) (\<lambda>r.
       if r_ret r \<noteq> 0 then perror_msg_and_die ''tcsetattr'' else ret 1)))
     else seq nullify_stdin (ret 0)))"

definition tty_copy_winsize :: "int \<Rightarrow> int \<Rightarrow> int m" where
  "tty_copy_winsize master_fd slave_fd =
     bnd (sys_fd (Ioctl master_fd ''TIOCGWINSZ'' 0)) (\<lambda>r.
     if r_ret r < 0 then ret (r_ret r)
     else bnd (sys_fd (Ioctl slave_fd ''TIOCSWINSZ'' 0)) (\<lambda>r. ret (r_ret r)))"

subsection \<open>Pseudo-terminals (pty.c)\<close>

text \<open>
  The part of \<open>open_pty\<close> after the directory has been chosen, up to the label \<open>out\<close>: the
  descriptors of the master and the slave. The number of the terminal comes with the reply to
  \<open>TIOCGPTN\<close>.
\<close>

definition close_ptys :: "int \<Rightarrow> int \<Rightarrow> (int \<times> int) m" where
  "close_ptys ptmx slave =
     bnd (xclose_to slave) (\<lambda>slave'. bnd (xclose_to ptmx) (\<lambda>ptmx'. ret (ptmx', slave')))"

definition open_ptmx :: "string \<Rightarrow> string \<Rightarrow> bool \<Rightarrow> (int \<times> int) m" where
  "open_ptmx dev_ptmx pts_prefix verbose =
     bnd (sys_fs (Open dev_ptmx [O_RDWR, O_NOCTTY] 0)) (\<lambda>r.
     let ptmx = r_ret r in
     if ptmx < 0 then seq (only_if verbose (perror_msg ''open: %s'')) (close_ptys ptmx (-1))
     else bnd (sys_fd (Ioctl ptmx ''TIOCGPTN'' 0)) (\<lambda>n.
     if r_ret n \<noteq> 0 then seq (only_if verbose (perror_msg ''ioctl TIOCGPTN: %s'')) (close_ptys ptmx (-1))
     else let num = (case r_ints n of k # _ \<Rightarrow> unat (word_of_int k :: u32) | [] \<Rightarrow> 0);
              ptsname = pts_prefix @ fmt_u num in
     bnd (sys_fd (Ioctl ptmx ''TIOCSPTLCK'' 0)) (\<lambda>r.
     if r_ret r \<noteq> 0 then seq (only_if verbose (perror_msg ''ioctl TIOCSPTLCK: %s'')) (close_ptys ptmx (-1))
     else bnd (sys_fs (Open ptsname [O_RDWR, O_NOCTTY] 0)) (\<lambda>r.
     let slave = r_ret r in
     if slave < 0 then seq (only_if verbose (perror_msg ''open: %s'')) (close_ptys ptmx slave)
     else ret (ptmx, slave)))))"

definition open_pty_from :: "bool \<Rightarrow> bool \<Rightarrow> (int \<times> int) m" where
  "open_pty_from chrooted verbose =
     (if chrooted then
        bnd (getg dev_pts_mounted) (\<lambda>mounted.
        if \<not> mounted then close_ptys (-1) (-1)
        else seq (safe_chdir ''dev'' stat_root_ok_validator)
        (bnd (sys_fs (Stat ''pts/ptmx'')) (\<lambda>r.
         let rwdev = 0x21B6 :: u32 in
         if r_ret r \<noteq> 0 \<or> st_mode (r_stat r) AND rwdev \<noteq> rwdev then close_ptys (-1) (-1)
         else open_ptmx ''ptmx'' ''pts/'' verbose)))
      else open_ptmx ''/dev/ptmx'' ''/dev/pts/'' verbose)"

text \<open>The result is the master's descriptor and \<open>*slave_fd\<close>.\<close>

definition open_pty :: "bool \<Rightarrow> bool \<Rightarrow> (int \<times> int) m" where
  "open_pty chrooted verbose =
     bnd (getg cl) (\<lambda>c.
     bnd (ch_gid (caller_gid c)) (\<lambda>saved_gid.
     bnd (ch_uid (caller_uid c)) (\<lambda>saved_uid.
     bnd (open_pty_from chrooted verbose) (\<lambda>fds.
     seq (only_if chrooted
            (bnd (sys_fs (Chdir ''/'')) (\<lambda>r. if r_ret r \<noteq> 0 then perror_msg_and_die ''chdir: %s'' else ret ())))
    (bnd (ch_uid saved_uid) (\<lambda>_. bnd (ch_gid saved_gid) (\<lambda>_. ret fds)))))))"

subsection \<open>What they leave behind\<close>

text \<open>The terminal is restored at most once.\<close>

lemma restore_tty_once: "pc restore_tty (\<lambda>_ v. \<not> tty_is_saved (par (gl v))) w"
  unfolding restore_tty_def set_par_def by (intro pc_rules) simp_all

lemma restore_tty_twice: "\<not> tty_is_saved (par (gl w)) \<Longrightarrow> restore_tty w = (Ret (), w)"
  by (simp add: restore_tty_def run_defs)

text \<open>A pseudo-terminal is returned as a whole or not at all.\<close>

lemma close_ptys_returns:
  "returns (close_ptys ptmx slave) (\<lambda>fds. (fst fds = ptmx \<or> fst fds = -1) \<and> (snd fds = slave \<or> snd fds = -1))"
  unfolding close_ptys_def xclose_to_def xclose_def bnd_if bnd_assoc bnd_ret prod.case
  by (intro returns_rules) auto

subsection \<open>Terminals are opened as the caller\<close>

definition as_files :: "fs_creds \<Rightarrow> trace \<Rightarrow> trace \<Rightarrow> bool" where
  "as_files want base t \<longleftrightarrow> (\<exists>new. t = new @ base \<and> files_as want new base)"

lemma as_files_step: "as_files want base t \<Longrightarrow> (\<And>f. c \<noteq> Fs f) \<Longrightarrow> as_files want base ((c, r) # t)"
  unfolding as_files_def by (elim exE conjE, intro exI [of _ "(c, r) # _"]) auto

lemma as_files_Fs: "as_files want base t \<Longrightarrow> creds_of t = want \<Longrightarrow> as_files want base ((c, r) # t)"
  unfolding as_files_def by (elim exE conjE, intro exI [of _ "(c, r) # _"]) auto

lemma as_files_start [simp]: "as_files want base base"
  by (simp add: as_files_def)

interpretation filing: trace_safety "as_files want base" for want base
  by unfold_locales (rule as_files_step, simp_all)

lemma acting_open_pty: "runs (acts_as want) (open_pty_from chrooted verbose)"
proof -
  have v: "runs (acts_as want) (stat_root_ok_validator st n)" for st n
    unfolding stat_root_ok_validator_def by (intro acting.rules runs_cases)
  have c: "runs (acts_as want) (safe_chdir p stat_root_ok_validator)" for p
    unfolding safe_chdir_def safe_chdir_component_def
    by (intro acting.rules runs_cases v) (simp_all add: keeps_creds_def)
  have cl: "runs (acts_as want) (close_ptys a b)" for a b
    unfolding close_ptys_def xclose_to_def xclose_def
    by (intro acting.rules runs_cases) (simp_all add: keeps_creds_def)
  have o: "runs (acts_as want) (open_ptmx d p verbose)" for d p
    unfolding open_ptmx_def Let_def by (intro acting.rules runs_cases cl) (simp_all add: keeps_creds_def)
  show ?thesis
    unfolding open_pty_from_def Let_def by (intro acting.rules runs_cases c o cl) (simp_all add: keeps_creds_def)
qed

lemma acting_chdir:
  "runs (acts_as want) (only_if b (bnd (sys_fs (Chdir d)) (\<lambda>r. if r_ret r \<noteq> 0 then perror_msg_and_die e else ret ())))"
  by (intro acting.rules runs_cases) (simp_all add: keeps_creds_def)

text \<open>
  C26: opening a pseudo-terminal, inside or outside the chroot, every file system call is made
  with the caller's fsuid and fsgid, whatever the kernel answers and however the run ends.
\<close>

theorem open_pty_as_caller:
  "\<exists>new. trace (snd (open_pty chrooted verbose w)) = new @ trace w
     \<and> files_as (caller_creds (gl w)) new (trace w)"
proof -
  let ?want = "caller_creds (gl w)" and ?base = "trace w"
  have known: "as_files ?want ?base (trace v)" "creds_of (trace v) = ?want"
    if "acts_as ?want u v" "as_files ?want ?base (trace u)" "creds_of (trace u) = ?want" for u v
    using that unfolding acts_as_def as_files_def by (auto simp: files_as_append)
  obtain a b where ab: "creds_of (trace w) = (a, b)" by (cases "creds_of (trace w)")
  have "filing.safe ?want ?base (open_pty chrooted verbose) w"
    unfolding open_pty_def ch_uid_def ch_gid_def
    apply (simp add: monad_norm cong: if_cong)
    apply (intro filing.get filing.step_family filing.branch filing.dies)
    apply (simp_all add: as_files_step)
    apply (rule filing.after [where P = "\<lambda>_ v. creds_of (trace v) = ?want"])
     apply (rule filing.runs_meets [OF acting_open_pty [where want = "?want"]])
      apply (erule known(1); simp add: as_files_step caller_creds_def ab)
     apply (erule known(2); simp add: as_files_step caller_creds_def ab)
    apply (intro conjI impI filing.step_family filing.branch filing.dies filing.returns_safe)
    apply (simp_all add: as_files_step as_files_Fs)
    done
  then have "as_files ?want ?base (trace (snd (open_pty chrooted verbose w)))" by (rule filing.meets_safe)
  then show ?thesis by (simp add: as_files_def)
qed

end
