(* ===== verification/File_Config.thy ===== *)
theory File_Config
  imports Opt_Parse
begin

text \<open>
  The line format of the configuration files, \<open>fread_config_name_value\<close> of file_config.c:
  how \<open>fgets\<close> cuts a file into buffers, how a buffer is split into a name and a value, and
  the loop that hands them to a setter. The setter is a parameter; the locale
  \<open>config_setter\<close> states what a setter owes its module, and the modules that provide setters
  interpret it.
\<close>

subsection \<open>Reading lines\<close>

definition BUFSIZ :: nat where "BUFSIZ = 8192"

text \<open>
  The successive buffers \<open>fgets (buf, size, fp)\<close> fills: up to \<open>size - 1\<close> bytes, or through
  the first newline, whichever comes first.
\<close>

definition fgets_len :: "nat \<Rightarrow> string \<Rightarrow> nat" where
  "fgets_len sz s =
     min (sz - 1)
         (let k = length (takeWhile (\<lambda>c. c \<noteq> newline) s) in if k < length s then Suc k else k)"

function fgets_all :: "nat \<Rightarrow> string \<Rightarrow> string list" where
  "fgets_all sz s =
     (if s = [] \<or> sz < 2 then []
      else take (fgets_len sz s) s # fgets_all sz (drop (fgets_len sz s) s))"
  by pat_completeness auto
termination
proof (relation "measure (\<lambda>(sz, s). length s)", goal_cases)
  case 1
  show ?case by simp
next
  case (2 sz s)
  then have "0 < fgets_len sz s" by (cases s) (auto simp: fgets_len_def Let_def)
  with 2 show ?case by (cases s) auto
qed

declare fgets_all.simps [simp del]

text \<open>The C string in a buffer ends at the first NUL byte.\<close>

definition c_string :: "string \<Rightarrow> string" where
  "c_string b = takeWhile (\<lambda>c. c \<noteq> nul) b"

definition rstrip :: "string \<Rightarrow> string" where
  "rstrip s = rev (dropWhile isspace (rev s))"

subsection \<open>One line\<close>

text \<open>
  The body of the loop up to the call of the setter: \<open>Inr None\<close> is \<open>continue\<close> (an empty line
  or a comment), \<open>Inr (Some (name, value))\<close> the arguments of the setter.
\<close>

definition config_line :: "string \<Rightarrow> nat \<Rightarrow> string \<Rightarrow> (string \<times> string) option res" where
  "config_line fname line buf =
     (let start = dropWhile isspace buf
      in if start = [] \<or> hd start = CHR ''#'' then Inr None
         else case strchr start (CHR ''='') of
                None \<Rightarrow> Inl (Diag ''%s: syntax error at line %u'' [fname, fmt_u line])
              | Some eq \<Rightarrow>
                  let left = rstrip (take eq start);
                      right = rstrip (dropWhile isspace (drop (Suc eq) start))
                  in if left = [] then Inl (Diag ''%s: syntax error at line %u'' [fname, fmt_u line])
                     else Inr (Some (left, right)))"

subsection \<open>The loop\<close>

text \<open>
  \<open>set_nv s name value fname\<close> is the callback. \<open>contents\<close> are the bytes the stream delivers and
  \<open>ferr\<close> whether it ended with an error.
\<close>

fun fread_lines ::
    "('s \<Rightarrow> string \<Rightarrow> string \<Rightarrow> string \<Rightarrow> 's res) \<Rightarrow> string \<Rightarrow> nat \<Rightarrow> 's \<Rightarrow> string list \<Rightarrow> 's res" where
  "fread_lines set_nv fname line s [] = Inr s"
| "fread_lines set_nv fname line s (buf # bufs) =
     ebind (config_line fname line (c_string buf))
       (\<lambda>nv. case nv of
               None \<Rightarrow> fread_lines set_nv fname (Suc line) s bufs
             | Some (name, val) \<Rightarrow>
                 ebind (set_nv s name val fname)
                   (\<lambda>s'. fread_lines set_nv fname (Suc line) s' bufs))"

definition fread_config_name_value ::
    "('s \<Rightarrow> string \<Rightarrow> string \<Rightarrow> string \<Rightarrow> 's res) \<Rightarrow> 's \<Rightarrow> string \<Rightarrow> bool \<Rightarrow> string \<Rightarrow> 's res" where
  "fread_config_name_value set_nv s contents ferr fname =
     ebind (fread_lines set_nv fname 1 s (fgets_all BUFSIZ contents))
       (\<lambda>s'. if ferr then Inl (Diag ''fgets: %s'' [fname]) else Inr s')"

subsection \<open>What a setter owes its module\<close>

locale config_setter =
  fixes set_nv :: "'s \<Rightarrow> string \<Rightarrow> string \<Rightarrow> string \<Rightarrow> 's res"
    and inv :: "'s \<Rightarrow> bool"
  assumes set_nv_inv: "inv s \<Longrightarrow> set_nv s name val fname = Inr s' \<Longrightarrow> inv s'"
begin

lemma fread_lines_inv:
  "inv s \<Longrightarrow> fread_lines set_nv fname line s bufs = Inr s' \<Longrightarrow> inv s'"
proof (induction bufs arbitrary: line s)
  case Nil
  then show ?case by simp
next
  case (Cons b bufs)
  then show ?case
    by (fastforce simp: ebind_eq_Inr_iff split: option.splits dest: set_nv_inv)
qed

lemma fread_config_inv:
  "inv s \<Longrightarrow> fread_config_name_value set_nv s contents ferr fname = Inr s' \<Longrightarrow> inv s'"
  by (auto simp: fread_config_name_value_def ebind_eq_Inr_iff dest: fread_lines_inv split: if_splits)

end

subsection \<open>Lines that are written the way the manual says parse back\<close>

lemma dropWhile_blank: "\<forall>c \<in> set sp. isspace c \<Longrightarrow> dropWhile isspace (sp @ s) = dropWhile isspace s"
  by (induction sp) auto

lemma rstrip_blank: "\<forall>c \<in> set sp. isspace c \<Longrightarrow> rstrip (s @ sp) = rstrip s"
  by (simp add: rstrip_def dropWhile_blank)

lemma rstrip_id: "s = [] \<or> \<not> isspace (last s) \<Longrightarrow> rstrip s = s"
  by (cases s rule: rev_cases) (auto simp: rstrip_def)

lemma isspace_newline: "isspace newline"
  by (simp add: isspace_def)

lemma eq_not_space: "\<not> isspace (CHR ''='')"
  by (simp add: isspace_def)

text \<open>A name or value as it may be written in a file.\<close>

definition plain :: "string \<Rightarrow> bool" where
  "plain s \<longleftrightarrow> newline \<notin> set s \<and> nul \<notin> set s"

definition trimmed :: "string \<Rightarrow> bool" where
  "trimmed s \<longleftrightarrow> s = [] \<or> \<not> isspace (hd s) \<and> \<not> isspace (last s)"

definition blank :: "string \<Rightarrow> bool" where
  "blank s \<longleftrightarrow> (\<forall>c \<in> set s. isspace c \<and> c \<noteq> newline)"

definition good_name :: "string \<Rightarrow> bool" where
  "good_name n \<longleftrightarrow> n \<noteq> [] \<and> hd n \<noteq> CHR ''#'' \<and> CHR ''='' \<notin> set n \<and> trimmed n \<and> plain n"

definition good_value :: "string \<Rightarrow> bool" where
  "good_value v \<longleftrightarrow> trimmed v \<and> plain v"

text \<open>A directive with blanks around the name and the value.\<close>

definition directive :: "string \<times> string \<times> string \<times> string \<Rightarrow> string \<times> string \<Rightarrow> string" where
  "directive sps nv =
     (case (sps, nv) of ((a, b, c, d), (n, v)) \<Rightarrow> a @ n @ b @ ''='' @ c @ v @ d @ [newline])"

lemma nul_not_space: "\<not> isspace nul"
  by (simp add: isspace_def)

lemma nul_not_blank: "blank s \<Longrightarrow> nul \<notin> set s"
  using nul_not_space unfolding blank_def by blast

lemma config_line_directive:
  assumes n: "good_name n" and v: "good_value v"
    and sp: "blank a" "blank b" "blank c" "blank d"
  shows "config_line fname line (directive (a, b, c, d) (n, v)) = Inr (Some (n, v))"
proof -
  obtain x xs where nx: "n = x # xs" using n by (cases n) (auto simp: good_name_def)
  have x: "\<not> isspace x" "x \<noteq> CHR ''#''" using n by (auto simp: good_name_def trimmed_def nx)
  have sps: "\<forall>y \<in> set a. isspace y" "\<forall>y \<in> set b. isspace y" "\<forall>y \<in> set c. isspace y"
    "\<forall>y \<in> set (d @ [newline]). isspace y"
    using sp by (auto simp: blank_def isspace_newline)
  let ?tl = "c @ v @ d @ [newline]"
  have start: "dropWhile isspace (directive (a, b, c, d) (n, v)) = n @ b @ ''='' @ ?tl"
    using x by (simp add: directive_def dropWhile_blank [OF sps(1)] nx)
  have noeq: "CHR ''='' \<notin> set (n @ b)"
    using n sps(2) eq_not_space by (auto simp: good_name_def)
  have eq: "strchr (n @ b @ ''='' @ ?tl) (CHR ''='') = Some (length (n @ b))"
    using takeWhile_not_mem_append [OF noeq, of ?tl] by (simp add: strchr_def)
  have rn: "rstrip n = n" using n by (intro rstrip_id) (auto simp: good_name_def trimmed_def)
  have left: "rstrip (take (length (n @ b)) (n @ b @ ''='' @ ?tl)) = n"
    using rn rstrip_blank [OF sps(2)] by simp
  have "dropWhile isspace ?tl = dropWhile isspace (v @ d @ [newline])"
    by (rule dropWhile_blank [OF sps(3)])
  also have "rstrip \<dots> = v"
  proof (cases "v = []")
    case True
    have "dropWhile isspace (d @ [newline]) = []"
      using sps(4) by (simp add: dropWhile_eq_Nil_conv)
    then show ?thesis by (simp add: True rstrip_def)
  next
    case False
    then have "dropWhile isspace (v @ d @ [newline]) = v @ d @ [newline]"
      using v by (cases v) (auto simp: good_value_def trimmed_def)
    moreover have "rstrip v = v"
      using v by (intro rstrip_id) (auto simp: good_value_def trimmed_def)
    ultimately show ?thesis using rstrip_blank [OF sps(4), of v] by simp
  qed
  finally have right: "rstrip (dropWhile isspace (drop (Suc (length (n @ b))) (n @ b @ ''='' @ ?tl))) = v"
    by simp
  have hd: "n @ b @ ''='' @ ?tl \<noteq> []" "hd (n @ b @ ''='' @ ?tl) \<noteq> CHR ''#''" and "n \<noteq> []"
    using x by (auto simp: nx)
  then show ?thesis
    unfolding config_line_def start by (simp only: Let_def eq option.case left right) simp
qed

lemma fgets_all_line:
  assumes "newline \<notin> set l" and "length l + 2 \<le> sz"
  shows "fgets_all sz ((l @ [newline]) @ rest) = (l @ [newline]) # fgets_all sz rest"
proof -
  have "takeWhile (\<lambda>c. c \<noteq> newline) (l @ newline # rest) = l"
    by (rule takeWhile_not_mem_append [OF assms(1)])
  then have "fgets_len sz ((l @ [newline]) @ rest) = length (l @ [newline])"
    using assms(2) by (simp add: fgets_len_def Let_def)
  then show ?thesis
    using assms(2) by (subst fgets_all.simps) simp
qed

definition good_directive :: "(string \<times> string \<times> string \<times> string) \<times> string \<times> string \<Rightarrow> bool" where
  "good_directive d =
     (case d of ((a, b, c, e), (n, v)) \<Rightarrow>
        blank a \<and> blank b \<and> blank c \<and> blank e \<and> good_name n \<and> good_value v
        \<and> length (directive (a, b, c, e) (n, v)) < BUFSIZ)"

text \<open>
  The lines of a file as the manual describes them: directives, comments and empty lines. What
  such a file says is the list of its settings.
\<close>

datatype item =
    Directive "string \<times> string \<times> string \<times> string" "string \<times> string"
  | Comment string string
  | Empty_line string

fun item_line :: "item \<Rightarrow> string" where
  "item_line (Directive sps nv) = directive sps nv"
| "item_line (Comment sp t) = sp @ ''#'' @ t @ [newline]"
| "item_line (Empty_line sp) = sp @ [newline]"

fun item_setting :: "item \<Rightarrow> (string \<times> string) option" where
  "item_setting (Directive _ nv) = Some nv"
| "item_setting _ = None"

fun good_item :: "item \<Rightarrow> bool" where
  "good_item (Directive sps nv) = good_directive (sps, nv)"
| "good_item (Comment sp t) \<longleftrightarrow> blank sp \<and> plain t \<and> length (item_line (Comment sp t)) < BUFSIZ"
| "good_item (Empty_line sp) \<longleftrightarrow> blank sp \<and> length (item_line (Empty_line sp)) < BUFSIZ"

lemma directive_line:
  assumes "good_directive (sps, nv)"
  shows "\<exists>l. directive sps nv = l @ [newline] \<and> newline \<notin> set l"
proof -
  obtain a b c d n v where f: "sps = (a, b, c, d)" "nv = (n, v)" by (cases sps, cases nv) auto
  have "directive sps nv = (a @ n @ b @ ''='' @ c @ v @ d) @ [newline]" by (simp add: f directive_def)
  moreover have "newline \<notin> set (a @ n @ b @ ''='' @ c @ v @ d)"
    using assms by (auto simp: f good_directive_def blank_def good_name_def good_value_def plain_def)
  ultimately show ?thesis by blast
qed

lemma directive_c_string:
  assumes "good_directive (sps, nv)"
  shows "c_string (directive sps nv) = directive sps nv"
  using assms nul_not_blank
  by (cases sps, cases nv) (auto simp: good_directive_def c_string_def directive_def takeWhile_eq_all_conv
      good_name_def good_value_def plain_def)

lemma item_line_ends:
  assumes "good_item i"
  shows "\<exists>l. item_line i = l @ [newline] \<and> newline \<notin> set l \<and> length (l @ [newline]) < BUFSIZ"
proof (cases i)
  case (Directive sps nv)
  with assms obtain l where l: "item_line i = l @ [newline]" "newline \<notin> set l"
    using directive_line by fastforce
  have "length (item_line i) < BUFSIZ"
    using assms by (simp add: Directive good_directive_def split: prod.splits)
  with l show ?thesis by auto
next
  case (Comment sp t)
  with assms show ?thesis
    by (intro exI [of _ "sp @ ''#'' @ t"]) (auto simp: blank_def plain_def)
next
  case (Empty_line sp)
  with assms show ?thesis by (intro exI [of _ sp]) (auto simp: blank_def)
qed

lemma items_bufs: "list_all good_item is \<Longrightarrow> fgets_all BUFSIZ (concat (map item_line is)) = map item_line is"
proof (induction "is")
  case Nil
  then show ?case by (simp add: fgets_all.simps)
next
  case (Cons i "is")
  then obtain l where "item_line i = l @ [newline]" "newline \<notin> set l" "length (l @ [newline]) < BUFSIZ"
    using item_line_ends by force
  with Cons fgets_all_line [of l BUFSIZ] show ?case by simp
qed

lemma item_config_line:
  assumes "good_item i"
  shows "config_line fname line (c_string (item_line i)) = Inr (item_setting i)"
proof (cases i)
  case (Directive sps nv)
  with assms config_line_directive directive_c_string show ?thesis
    by (cases sps, cases nv) (simp add: good_directive_def)
next
  case (Comment sp t)
  then have b: "\<forall>c \<in> set sp. isspace c" and "nul \<notin> set sp" "nul \<notin> set t"
    using assms nul_not_blank by (auto simp: blank_def plain_def)
  then have c: "c_string (item_line i) = item_line i"
    by (simp add: Comment c_string_def takeWhile_eq_all_conv) blast
  show ?thesis
    unfolding c by (simp add: Comment config_line_def Let_def dropWhile_blank [OF b] isspace_def)
next
  case (Empty_line sp)
  then have b: "\<forall>c \<in> set (sp @ [newline]). isspace c" and "nul \<notin> set sp"
    using assms nul_not_blank by (auto simp: blank_def isspace_newline)
  then have c: "c_string (item_line i) = item_line i"
    by (simp add: Empty_line c_string_def takeWhile_eq_all_conv) blast
  have "dropWhile isspace (sp @ [newline]) = []" using b by (simp add: dropWhile_eq_Nil_conv)
  then show ?thesis unfolding c by (simp add: Empty_line config_line_def Let_def)
qed

lemma fread_lines_items:
  "list_all good_item is \<Longrightarrow> fread_lines set_nv fname line s (map item_line is)
     = efold (\<lambda>s (name, val). set_nv s name val fname) s (List.map_filter item_setting is)"
proof (induction "is" arbitrary: s line)
  case (Cons i "is")
  then show ?case
    by (cases "item_setting i") (auto simp: item_config_line List.map_filter_def)
qed (simp add: List.map_filter_def)

text \<open>
  C11: reading a configuration file of directives (with blanks around names and values), comments
  and empty lines, all shorter than the buffer, is the same as applying the setter to the
  settings it states, in their order, up to the first one that the setter rejects; neither the
  blanks nor the comments nor the numbers of the lines have a part in the result.
\<close>

theorem fread_config_settings:
  assumes "list_all good_item is"
  shows "fread_config_name_value set_nv s (concat (map item_line is)) False fname
    = efold (\<lambda>s (name, val). set_nv s name val fname) s (List.map_filter item_setting is)"
  by (simp add: fread_config_name_value_def items_bufs [OF assms] fread_lines_items [OF assms] ebind_def split: sum.split)

theorem fread_config_settings_witness:
  "fread_config_name_value (\<lambda>s n v f. Inr (s @ [(n, v)])) []
     (''# who'' @ [newline] @ '' user1 = a b '' @ [newline] @ [newline] @ ''user2='' @ [newline]) False ''c''
   = (Inr [(''user1'', ''a b''), (''user2'', [])] :: (string \<times> string) list res)"
proof -
  let ?is = "[Comment [] '' who'', Directive ('' '', '' '', '' '', '' '') (''user1'', ''a b''), Empty_line [],
    Directive ([], [], [], []) (''user2'', [])]"
  have "list_all good_item ?is"
    by (simp add: good_directive_def blank_def good_name_def good_value_def trimmed_def plain_def directive_def
        BUFSIZ_def isspace_def)
  from fread_config_settings [OF this, of "\<lambda>s n v f. Inr (s @ [(n, v)])" "[]" "''c''"]
  show ?thesis by (simp add: directive_def List.map_filter_def)
qed

end
