(* ===== verification/Relay.thy ===== *)
theory Relay
  imports X11 Terminal File_Config "HOL-Library.Multiset"
begin

text \<open>
  Relaying in the unprivileged parent: descriptor sets (fd_set.c), the connections of the log
  socket (io_log.c) and the X11 connections with their authentication data (io_x11.c).
\<close>

subsection \<open>Descriptor sets (fd_set.c)\<close>

text \<open>
  A set is the list of its members. The size of an \<open>fd_set\<close> is not modelled: \<open>FD_SET\<close> on a
  descriptor of \<open>FD_SETSIZE\<close> or more, which the code does not exclude, has no defined effect.
\<close>

definition fds_add_fd :: "int list \<times> int \<Rightarrow> int \<Rightarrow> int list \<times> int" where
  "fds_add_fd s fd = (case s of (fds, max_fd) \<Rightarrow>
     if fd < 0 then (fds, max_fd) else (List.insert fd fds, if max_fd < fd then fd else max_fd))"

definition fds_isset :: "int list \<Rightarrow> int \<Rightarrow> bool" where
  "fds_isset fds fd \<longleftrightarrow> 0 \<le> fd \<and> fd \<in> set fds"

subsection \<open>Output (parent.c)\<close>

definition xwrite_all :: "int \<Rightarrow> string \<Rightarrow> unit m" where
  "xwrite_all fd buffer =
     bnd (write_loop fd buffer) (\<lambda>n.
     if n \<noteq> int (length buffer) then perror_msg_and_die ''write''
     else set_par (total_bytes_written_update (\<lambda>t. t + word_of_nat (length buffer))))"

subsection \<open>The log socket (io_log.c)\<close>

definition put_slot :: "'a list \<Rightarrow> nat \<Rightarrow> 'a \<Rightarrow> 'a list" where
  "put_slot l i x = (if i = length l then l @ [x] else l[i := x])"

definition fd_new :: "int \<Rightarrow> unit m" where
  "fd_new fd =
     (if fd < 0 then ret ()
      else seq (set_par (log_fd_list_update (\<lambda>l. put_slot l (length (takeWhile (\<lambda>x. 0 \<le> x) l)) fd)))
             (unblock_fd fd))"

definition fd_free :: "int \<Rightarrow> unit m" where
  "fd_free fd =
     bnd (getg (log_fd_list \<circ> par)) (\<lambda>l.
     let i = length (takeWhile (\<lambda>x. fd \<noteq> x) l) in
     if i < length l
     then bnd (xclose_to (l ! i)) (\<lambda>fd'. set_par (log_fd_list_update (\<lambda>l. l[i := fd'])))
     else error_msg_and_die ''descriptor %d not found, count=%lu'')"

definition log_handle_new :: "int \<Rightarrow> int list \<Rightarrow> unit m" where
  "log_handle_new fd fds = (if fds_isset fds fd then bnd (unix_accept fd) fd_new else ret ())"

definition fds_add_log :: "int list \<Rightarrow> int list \<times> int \<Rightarrow> int list \<times> int" where
  "fds_add_log l s = foldl fds_add_fd s l"

text \<open>What is written for a message read from a log connection: it ends with a line end.\<close>

definition log_text :: "string \<Rightarrow> string" where
  "log_text data =
     (let buf = c_string data
      in if buf \<noteq> [] \<and> last buf \<noteq> newline then buf @ [carriage_return, newline] else buf)"

definition copy_log :: "int \<Rightarrow> unit m" where
  "copy_log fd =
     bnd (read_retry fd (BUFSIZ - 2)) (\<lambda>r.
     if r_ret r \<le> 0 then fd_free fd
     else xwrite_all 2 (log_text (take (nat (r_ret r)) (r_buf r))))"

definition log_handle_select :: "int list \<Rightarrow> unit m" where
  "log_handle_select fds =
     bnd (getg (length \<circ> log_fd_list \<circ> par)) (\<lambda>fd_count.
     for_each [0..<fd_count] (\<lambda>i.
       bnd (getg (\<lambda>g. log_fd_list (par g) ! i)) (\<lambda>fd.
       if fds_isset fds fd then copy_log fd else ret ())))"

subsection \<open>X11 connections (io_x11.c)\<close>

definition store_io :: "nat \<Rightarrow> io_x11 option \<Rightarrow> unit m" where
  "store_io i io = set_par (io_x11_list_update (\<lambda>l. put_slot l i io))"

definition io_x11_new :: "int \<Rightarrow> int \<Rightarrow> unit m" where
  "io_x11_new master_fd slave_fd =
     bnd (getg (io_x11_list \<circ> par)) (\<lambda>l.
     let i = length (takeWhile (\<lambda>io. io \<noteq> None) l) in
     seq (store_io i (Some \<lparr>x_master_fd = master_fd, x_slave_fd = slave_fd, x_master_buf = [],
                           x_slave_buf = [], authenticated = False\<rparr>))
    (seq (unblock_fd master_fd) (unblock_fd slave_fd)))"

text \<open>
  A connection is known by its slot, so the search of \<open>io_x11_free\<close> for the slot of a
  connection, which every caller has just taken from there, cannot fail.
\<close>

definition io_x11_free :: "nat \<Rightarrow> io_x11 \<Rightarrow> unit m" where
  "io_x11_free i io =
     seq (store_io i None) (seq (close_fd (x_master_fd io)) (close_fd (x_slave_fd io)))"

definition x11_handle_new :: "int \<Rightarrow> int list \<Rightarrow> unit m" where
  "x11_handle_new fd read_fds =
     (if \<not> fds_isset read_fds fd then ret ()
      else bnd (unix_accept fd) (\<lambda>accept_fd.
      if accept_fd < 0 then ret ()
      else bnd x11_connect (\<lambda>connect_fd.
      if 0 \<le> connect_fd then io_x11_new connect_fd accept_fd else close_fd accept_fd)))"

text \<open>The sets to read from and to write to, with the highest descriptor.\<close>

definition fds_add_io :: "io_x11 option \<Rightarrow> int list \<times> int list \<times> int \<Rightarrow> int list \<times> int list \<times> int" where
  "fds_add_io io_opt s =
     (case io_opt of None \<Rightarrow> s
      | Some io \<Rightarrow> (case s of (reads, writes, m) \<Rightarrow>
          let (reads, writes, m) =
                (if x_slave_buf io \<noteq> [] then (let (w, m) = fds_add_fd (writes, m) (x_master_fd io) in (reads, w, m))
                 else (let (r, m) = fds_add_fd (reads, m) (x_slave_fd io) in (r, writes, m)))
          in if x_master_buf io \<noteq> [] then (let (w, m) = fds_add_fd (writes, m) (x_slave_fd io) in (reads, w, m))
             else (let (r, m) = fds_add_fd (reads, m) (x_master_fd io) in (r, writes, m))))"

definition fds_add_x11 :: "io_x11 option list \<Rightarrow> int list \<times> int list \<times> int \<Rightarrow> int list \<times> int list \<times> int" where
  "fds_add_x11 l s = foldl (\<lambda>s io. fds_add_io io s) s l"

text \<open>
  The authentication data of the first packet of a client: \<open>Inl\<close> is the message printed, the
  packet being left as it is, \<open>Inr\<close> the packet passed on. The two lengths are 16 bits wide.
\<close>

definition pad4 :: "nat \<Rightarrow> nat" where "pad4 n = 4 * ((n + 3) div 4)"

definition be16 :: "string \<Rightarrow> nat \<Rightarrow> nat" where
  "be16 p i = ord (p ! i) * 256 + ord (p ! Suc i)"

definition le16 :: "string \<Rightarrow> nat \<Rightarrow> nat" where
  "le16 p i = ord (p ! i) + ord (p ! Suc i) * 256"

definition splice_at :: "nat \<Rightarrow> string \<Rightarrow> string \<Rightarrow> string" where
  "splice_at pos new p = take pos p @ new @ drop (pos + length new) p"

definition proto_len :: "string \<Rightarrow> nat" where
  "proto_len p = (if ord (p ! 0) = 0x42 then be16 p 6 else le16 p 6)"

definition data_len :: "string \<Rightarrow> nat" where
  "data_len p = (if ord (p ! 0) = 0x42 then be16 p 8 else le16 p 8)"

definition data_pos :: "string \<Rightarrow> nat" where "data_pos p = 12 + pad4 (proto_len p)"

definition auth_packet :: "nat \<Rightarrow> string \<Rightarrow> string \<Rightarrow> string \<Rightarrow> string + string" where
  "auth_packet x11_len saved fake p =
     (if length p < 12 then Inl ''Initial X11 packet too short, expected length = %lu''
      else if ord (p ! 0) \<noteq> 0x42 \<and> ord (p ! 0) \<noteq> 0x6c
      then Inl ''Initial X11 packet contains unrecognized order byte: %#x''
      else if length p < data_pos p + pad4 (data_len p)
      then Inl ''Initial X11 packet too short, expected length = %lu''
      else if proto_len p = 0 \<and> data_len p = 0 then Inr p
      else if data_len p \<noteq> x11_len \<or> take x11_len (drop (data_pos p) p) \<noteq> fake
      then Inl ''X11 auth data does not match fake data''
      else Inr (splice_at (data_pos p) saved p))"

definition io_check_auth_data :: "io_x11 \<Rightarrow> io_x11 m" where
  "io_check_auth_data io =
     (if authenticated io then ret io
      else bnd (getg (\<lambda>g. g)) (\<lambda>g.
        let io' = io\<lparr>authenticated := True\<rparr>;
            data = (\<lambda>d. case d of None \<Rightarrow> [] | Some s \<Rightarrow> s)
        in case auth_packet (unat (x11_data_len (cf g))) (data (x11_saved_data (par g)))
                  (data (x11_fake_data (par g))) (x_slave_buf io) of
             Inl e \<Rightarrow> seq (error_msg (e @ [carriage_return])) (ret io')
           | Inr p \<Rightarrow> ret (io'\<lparr>x_slave_buf := p\<rparr>)))"

text \<open>
  The four stages of the body of \<open>x11_handle_select\<close>. A stage returns the connection, or
  \<open>None\<close> when it has freed it (\<open>continue\<close>).
\<close>

definition flush_master :: "int list \<Rightarrow> nat \<Rightarrow> io_x11 \<Rightarrow> io_x11 option m" where
  "flush_master write_fds i io =
     (if x_master_buf io \<noteq> [] \<and> fds_isset write_fds (x_slave_fd io) then
        bnd (write_loop (x_slave_fd io) (x_master_buf io)) (\<lambda>n.
        if n \<le> 0 then seq (io_x11_free i io) (ret None)
        else let io' = io\<lparr>x_master_buf := drop (nat n) (x_master_buf io)\<rparr>
             in seq (store_io i (Some io')) (ret (Some io')))
      else ret (Some io))"

definition fill_master :: "int list \<Rightarrow> nat \<Rightarrow> io_x11 \<Rightarrow> io_x11 option m" where
  "fill_master read_fds i io =
     (if x_master_buf io = [] \<and> fds_isset read_fds (x_master_fd io) then
        bnd (read_retry (x_master_fd io) BUFSIZ) (\<lambda>r.
        if r_ret r \<le> 0 then seq (io_x11_free i io) (ret None)
        else let io' = io\<lparr>x_master_buf := take (nat (r_ret r)) (r_buf r)\<rparr>
             in seq (store_io i (Some io')) (ret (Some io')))
      else ret (Some io))"

definition flush_slave :: "int list \<Rightarrow> nat \<Rightarrow> io_x11 \<Rightarrow> io_x11 option m" where
  "flush_slave write_fds i io =
     (if x_slave_buf io \<noteq> [] \<and> fds_isset write_fds (x_master_fd io) then
        bnd (write_loop (x_master_fd io) (x_slave_buf io)) (\<lambda>n.
        if n \<le> 0 then seq (io_x11_free i io) (ret None)
        else let io' = io\<lparr>x_slave_buf := drop (nat n) (x_slave_buf io)\<rparr>
             in seq (store_io i (Some io')) (ret (Some io')))
      else ret (Some io))"

definition fill_slave :: "int list \<Rightarrow> nat \<Rightarrow> io_x11 \<Rightarrow> io_x11 option m" where
  "fill_slave read_fds i io =
     (if x_slave_buf io = [] \<and> fds_isset read_fds (x_slave_fd io) then
        bnd (read_retry (x_slave_fd io) BUFSIZ) (\<lambda>r.
        if r_ret r \<le> 0 then seq (io_x11_free i io) (ret None)
        else bnd (io_check_auth_data (io\<lparr>x_slave_buf := take (nat (r_ret r)) (r_buf r)\<rparr>)) (\<lambda>io'.
             seq (store_io i (Some io')) (ret (Some io'))))
      else ret (Some io))"

definition and_then :: "io_x11 option m \<Rightarrow> (io_x11 \<Rightarrow> io_x11 option m) \<Rightarrow> io_x11 option m" where
  "and_then m f = bnd m (\<lambda>x. case x of None \<Rightarrow> ret None | Some io \<Rightarrow> f io)"

definition x11_relay :: "int list \<Rightarrow> int list \<Rightarrow> nat \<Rightarrow> unit m" where
  "x11_relay read_fds write_fds i =
     bnd (getg (\<lambda>g. io_x11_list (par g) ! i)) (\<lambda>io_opt.
     case io_opt of
       None \<Rightarrow> ret ()
     | Some io \<Rightarrow>
         bnd (and_then (and_then (and_then (flush_master write_fds i io) (fill_master read_fds i))
                (flush_slave write_fds i)) (fill_slave read_fds i)) (\<lambda>_. ret ()))"

definition x11_handle_select :: "int list \<Rightarrow> int list \<Rightarrow> unit m" where
  "x11_handle_select read_fds write_fds =
     bnd (getg (length \<circ> io_x11_list \<circ> par)) (\<lambda>io_x11_count.
     for_each [0..<io_x11_count] (x11_relay read_fds write_fds))"

subsection \<open>The cookie goes only to clients that know the fake one\<close>

lemma pad4_ge: "n \<le> pad4 n"
  by (simp add: pad4_def)

lemma pad4_bounds: "pad4 n < n + 4 \<and> pad4 n mod 4 = 0"
  unfolding pad4_def by presburger

lemma splice_at_parts:
  assumes "pos + length new \<le> length p"
  shows "length (splice_at pos new p) = length p"
    and "take (length new) (drop pos (splice_at pos new p)) = new"
    and "take pos (splice_at pos new p) = take pos p"
    and "drop (pos + length new) (splice_at pos new p) = drop (pos + length new) p"
  using assms by (simp_all add: splice_at_def)

text \<open>
  C27: the packet an X11 client opens its connection with is passed on with its length and every
  byte outside the authentication data unchanged; the data are replaced by the caller's cookie
  only if the client has sent the fake cookie at their place, and the bytes compared and
  replaced lie within the packet.
\<close>

theorem auth_packet_splices:
  assumes "length saved = n" and "auth_packet n saved fake p = Inr q"
  shows "length q = length p \<and>
     (if q = p then True
      else data_pos p + n \<le> length p \<and> take n (drop (data_pos p) p) = fake
         \<and> take n (drop (data_pos p) q) = saved
         \<and> take (data_pos p) q = take (data_pos p) p
         \<and> drop (data_pos p + n) q = drop (data_pos p + n) p)"
proof (cases "q = p")
  case False
  with assms(2) have q: "q = splice_at (data_pos p) saved p" and fake: "take n (drop (data_pos p) p) = fake"
    and "data_len p = n" "data_pos p + pad4 (data_len p) \<le> length p"
    unfolding auth_packet_def by (auto split: if_splits)
  then have "data_pos p + length saved \<le> length p"
    using pad4_ge [of "data_len p"] assms(1) by simp
  from splice_at_parts [OF this] q fake this assms(1) show ?thesis by simp
qed simp

definition demo_packet :: "string \<Rightarrow> string" where
  "demo_packet cookie =
     map char_of ([0x6c, 0, 11, 0, 0, 0, 2, 0, 4, 0, 0, 0] :: nat list) @ ''MI'' @ [nul, nul] @ cookie"

lemma auth_packet_splices_witness:
  "auth_packet 4 ''real'' ''fake'' (demo_packet ''fake'') = Inr (demo_packet ''real'')
   \<and> length (demo_packet ''real'') = length (demo_packet ''fake'')
   \<and> take 4 (drop (data_pos (demo_packet ''fake'')) (demo_packet ''real'')) = ''real''"
proof -
  have ev: "auth_packet 4 ''real'' ''fake'' (demo_packet ''fake'') = Inr (demo_packet ''real'')"
    by (simp add: auth_packet_def demo_packet_def data_pos_def data_len_def proto_len_def be16_def
        le16_def pad4_def splice_at_def)
  with auth_packet_splices [of "''real''" 4 "''fake''" "demo_packet ''fake''" "demo_packet ''real''"]
  show ?thesis by (auto simp: demo_packet_def split: if_splits)
qed

subsection \<open>Log connections\<close>

text \<open>What is written for one read fits the buffer it is assembled in, and ends with a newline unless it is empty.\<close>

lemma log_text_fits:
  "length (log_text (take (BUFSIZ - 2) data)) \<le> BUFSIZ
   \<and> (log_text data = [] \<or> last (log_text data) = newline)"
proof -
  have "length (c_string (take (BUFSIZ - 2) data)) \<le> BUFSIZ - 2"
    unfolding c_string_def by (rule order_trans [OF length_takeWhile_le]) simp
  then show ?thesis
    by (auto simp: log_text_def Let_def BUFSIZ_def)
qed

text \<open>
  The slots of \<open>fd_list\<close> stand for the bag of the open connections: a slot that is reused and a
  list that grows are the same to the rest of the program.
\<close>

definition open_logs :: "globals \<Rightarrow> int multiset" where
  "open_logs g = mset (filter (\<lambda>fd. 0 \<le> fd) (log_fd_list (par g)))"

lemma filter_update:
  "i < length l \<Longrightarrow> mset (filter P (l[i := x])) + (if P (l ! i) then {#l ! i#} else {#})
     = mset (filter P l) + (if P x then {#x#} else {#})"
proof -
  assume i: "i < length l"
  then have "mset (l[i := x]) + {#l ! i#} = mset l + {#x#}"
    by (simp add: mset_update nth_mem_mset)
  from arg_cong [OF this, of "filter_mset P"] show ?thesis by auto
qed

lemma open_logs_new:
  assumes "i = length (takeWhile (\<lambda>x. 0 \<le> x) l)"
  shows "mset (filter (\<lambda>fd. 0 \<le> fd) (put_slot l i fd))
       = mset (filter (\<lambda>fd. 0 \<le> fd) l) + (if 0 \<le> (fd :: int) then {#fd#} else {#})"
proof (cases "i = length l")
  case False
  moreover have "i \<le> length l" unfolding assms by (rule length_takeWhile_le)
  ultimately have "i < length l" by simp
  moreover from this assms have "\<not> 0 \<le> l ! i" using nth_length_takeWhile by blast
  ultimately show ?thesis using filter_update [of i l "\<lambda>x. 0 \<le> x" fd] False by (simp add: put_slot_def)
qed (simp add: put_slot_def)

lemma par_simps [simp]:
  "par (par_update f g) = f (par g)" "cf (par_update f g) = cf g" "x11 (par_update f g) = x11 g"
  "cl (par_update f g) = cl g" "sv (par_update f g) = sv g" "log_fd (par_update f g) = log_fd g"
  "log_level (par_update f g) = log_level g"
  by simp_all

lemma pc_case: "pc m Q w \<Longrightarrow> (case m w of (Ret x, v) \<Rightarrow> Q x v | (Stop _, _) \<Rightarrow> True)"
  by (simp add: wp_def)

lemma unblock_fd_keeps: "runs (keeps P) (unblock_fd fd)"
  unfolding unblock_fd_def by (intro keeps_rules; simp)

lemma fd_new_pc:
  "pc (fd_new fd) (\<lambda>_ v. open_logs (gl v) = open_logs (gl w) + (if 0 \<le> fd then {#fd#} else {#})) w"
  (is "pc _ (\<lambda>_ v. open_logs (gl v) = ?want) w")
  unfolding fd_new_def set_par_def
  by (intro pc_rules pc_keeps [OF unblock_fd_keeps [where P = "\<lambda>g. open_logs g = ?want"]])
    (simp_all add: open_logs_def open_logs_new [OF HOL.refl] del: mset_filter)

lemma fd_free_pc:
  "pc (fd_free (int n)) (\<lambda>_ v. \<exists>r. trace v = (Fd (Close (int n)), r) # trace w \<and> int n \<in># open_logs (gl w)
     \<and> open_logs (gl v) = (if r_ret r < 0 then open_logs (gl w) else open_logs (gl w) - {#int n#})) w"
proof -
  let ?l = "log_fd_list (par (gl w))"
  let ?i = "length (takeWhile (\<lambda>x. int n \<noteq> x) ?l)"
  let ?logs = "\<lambda>l. mset (filter (\<lambda>fd. 0 \<le> fd) l)"
  have found: "?l ! ?i = int n" if "?i < length ?l"
    using nth_length_takeWhile [OF that] by simp
  have upd: "?logs (?l[?i := fd]) + {#int n#} = ?logs ?l + (if 0 \<le> fd then {#fd#} else {#})"
    if "?i < length ?l" for fd
    using filter_update [OF that, of "\<lambda>x. 0 \<le> x" fd] by (simp add: found [OF that])
  have mem: "int n \<in># ?logs ?l" if "?i < length ?l"
    using nth_mem [OF that] by (simp add: found [OF that])
  show ?thesis
    unfolding fd_free_def xclose_to_def xclose_def set_par_def Let_def
    apply (intro pc_rules)
    apply (simp_all add: found monad_norm wp_simps cong: if_cong)
    using upd [of "int n"] upd [of "-1"] mem
     apply (simp_all add: open_logs_def del: mset_filter)
    apply (metis add_mset_remove_trivial)
    done
qed

text \<open>
  C28: accepting a log connection adds its descriptor to the bag of open connections, whether a
  slot is reused or added; dropping one closes its descriptor and removes it from the bag (it
  stays when \<open>close\<close> fails).
\<close>

theorem log_slots_refine:
  "(case fd_new fd w of
      (Ret _, v) \<Rightarrow> open_logs (gl v) = open_logs (gl w) + (if 0 \<le> fd then {#fd#} else {#})
    | (Stop _, _) \<Rightarrow> True)
   \<and> (case fd_free (int n) w of
        (Ret _, v) \<Rightarrow> (\<exists>r. trace v = (Fd (Close (int n)), r) # trace w \<and> int n \<in># open_logs (gl w)
           \<and> open_logs (gl v) = (if r_ret r < 0 then open_logs (gl w) else open_logs (gl w) - {#int n#}))
      | (Stop _, _) \<Rightarrow> True)"
  by (intro conjI pc_case fd_new_pc fd_free_pc)

end
