(* ===== verification/Caller_Config.thy ===== *)
theory Caller_Config
  imports File_Config Globals
begin

text \<open>
  The caller configuration of caller_config.c: the parsers of option values, the setter
  \<open>set_caller_name_value\<close> and the invariant it keeps, and the rule by which the client's
  environment may change the work limits. (Loading the files and \<open>parse_env\<close> are in theories
  \<open>Config_Load\<close> and \<open>Parse_Env\<close>.)
\<close>

subsection \<open>Numbers\<close>

definition str2umask :: "string \<Rightarrow> string \<Rightarrow> string \<Rightarrow> u32 res" where
  "str2umask name val fname =
     (if val = [] then opt_bad_value name val fname
      else let (n, p, _) = strtoul 8 val
           in if p \<noteq> [] \<or> 511 < n then opt_bad_value name val fname else Inr (word_of_nat n))"

definition str2nice :: "string \<Rightarrow> string \<Rightarrow> string \<Rightarrow> int res" where
  "str2nice name val fname =
     (if val = [] then opt_bad_value name val fname
      else let (n, p, _) = strtoul 10 val
           in if p \<noteq> [] \<or> 19 < n then opt_bad_value name val fname else Inr (int n))"

definition str2nproc :: "string \<Rightarrow> string \<Rightarrow> string \<Rightarrow> u64 res" where
  "str2nproc name val fname =
     (if val = [] then opt_bad_value name val fname
      else let (n, p, _) = strtol 10 val
           in if p \<noteq> [] \<or> n < 1 then opt_bad_value name val fname else Inr (word_of_int n))"

definition RLIM_INFINITY :: u64 where "RLIM_INFINITY = - 1"

definition str2rlim :: "string \<Rightarrow> string \<Rightarrow> string \<Rightarrow> u64 res" where
  "str2rlim name val fname =
     (if val = [] then opt_bad_value name val fname
      else if strcaseeq val ''inf'' then Inr RLIM_INFINITY
      else let (n, p, erange) = strtoul 10 val
           in if p \<noteq> [] \<or> ulong_max < n \<or> (n = ulong_max \<and> erange)
              then opt_bad_value name val fname
              else Inr (word_of_nat n))"

subsection \<open>Resource and work limits\<close>

fun set_rlim ::
    "change_rlimit_t list \<Rightarrow> string \<Rightarrow> string \<Rightarrow> bool \<Rightarrow> string \<Rightarrow> string \<Rightarrow> change_rlimit_t list res" where
  "set_rlim [] name val hard optname fname = opt_bad_name optname fname"
| "set_rlim (p # ps) name val hard optname fname =
     (if strcaseeq name (rl_name p) then
        ebind (str2rlim optname val fname)
          (\<lambda>v. Inr ((if hard then p\<lparr>rl_hard := Some v\<rparr> else p\<lparr>rl_soft := Some v\<rparr>) # ps))
      else ebind (set_rlim ps name val hard optname fname) (\<lambda>ps'. Inr (p # ps')))"

definition parse_rlim ::
    "change_rlimit_t list \<Rightarrow> string \<Rightarrow> string \<Rightarrow> string \<Rightarrow> string \<Rightarrow> change_rlimit_t list res" where
  "parse_rlim ls name val optname fname =
     (if strncaseeq ''hard_'' name 5 then set_rlim ls (drop 5 name) val True optname fname
      else if strncaseeq ''soft_'' name 5 then set_rlim ls (drop 5 name) val False optname fname
      else opt_bad_name optname fname)"

definition modify_wlim :: "u64 \<Rightarrow> string \<Rightarrow> string \<Rightarrow> string \<Rightarrow> bool \<Rightarrow> u64 res" where
  "modify_wlim pval val optname fname is_system =
     ebind (opt_str2ul optname val fname)
       (\<lambda>v. Inr (if is_system \<or> pval = 0 \<or> (0 < v \<and> v < pval) then v else pval))"

definition parse_wlim :: "work_limit \<Rightarrow> string \<Rightarrow> string \<Rightarrow> string \<Rightarrow> string \<Rightarrow> work_limit res" where
  "parse_wlim l name val optname fname =
     (if strcaseeq ''time_elapsed'' name then
        ebind (modify_wlim (time_elapsed l) val optname fname True) (\<lambda>v. Inr (l\<lparr>time_elapsed := v\<rparr>))
      else if strcaseeq ''time_idle'' name then
        ebind (modify_wlim (time_idle l) val optname fname True) (\<lambda>v. Inr (l\<lparr>time_idle := v\<rparr>))
      else if strcaseeq ''bytes_written'' name then
        ebind (modify_wlim (bytes_written l) val optname fname True) (\<lambda>v. Inr (l\<lparr>bytes_written := v\<rparr>))
      else opt_bad_name optname fname)"

subsection \<open>Lists of strings\<close>

text \<open>
  \<open>parse_str_list\<close>: the tokens, sorted by \<open>strcmp\<close>; of equal neighbours all but the last are
  cleared. (The old contents of the list are discarded, so they are no argument here.)
\<close>

fun clear_duplicates :: "string list \<Rightarrow> str_list" where
  "clear_duplicates [] = []"
| "clear_duplicates [x] = [Some x]"
| "clear_duplicates (x # y # zs) = (if x = y then None else Some x) # clear_duplicates (y # zs)"

definition list_delim :: string where "list_delim = [CHR '' '', CHR 0x09, CHR '','']"

definition parse_str_list :: "string \<Rightarrow> str_list" where
  "parse_str_list val = clear_duplicates (sort (strtok_all list_delim val))"

subsection \<open>Chroot prefixes\<close>

definition strip_slashes :: "string \<Rightarrow> string" where
  "strip_slashes s = rev (dropWhile (\<lambda>c. c = CHR ''/'') (rev s))"

definition parse_prefix :: "string \<Rightarrow> string \<Rightarrow> string \<Rightarrow> string \<Rightarrow> string res" where
  "parse_prefix home name val fname =
     (let prefix = strip_slashes (if val = ''~'' then home else val)
      in if prefix = [] \<or> hd prefix = CHR ''/'' then Inr prefix
         else Inl (Diag ''%s: invalid value \"%s\" for \"%s\" option'' [fname, val, name]))"

definition parse_prefix_list :: "string \<Rightarrow> conf \<Rightarrow> string \<Rightarrow> string \<Rightarrow> string \<Rightarrow> conf res" where
  "parse_prefix_list home c name val fname =
     ebind (efold (\<lambda>l path. ebind (parse_prefix home name path fname) (\<lambda>p. Inr (l @ [p])))
              [] (strtok_all '':'' val))
       (\<lambda>l. Inr (c\<lparr>chroot_prefix_path := Some val,
                   chroot_prefix_list := (if l = [] then None else Some l)\<rparr>))"

subsection \<open>The setter\<close>

definition set_caller_name_value ::
    "string \<Rightarrow> conf \<Rightarrow> string \<Rightarrow> string \<Rightarrow> string \<Rightarrow> conf res" where
  "set_caller_name_value home c name val fname =
     (if strcaseeq ''user1'' name then Inr (c\<lparr>change_user1 := Some val\<rparr>)
      else if strcaseeq ''user2'' name then Inr (c\<lparr>change_user2 := Some val\<rparr>)
      else if strcaseeq ''prefix'' name then parse_prefix_list home c name val fname
      else if strcaseeq ''umask'' name then
        ebind (str2umask name val fname) (\<lambda>n. Inr (c\<lparr>change_umask := n\<rparr>))
      else if strcaseeq ''nice'' name then
        ebind (str2nice name val fname) (\<lambda>n. Inr (c\<lparr>change_nice := n\<rparr>))
      else if strcaseeq ''nproc'' name then
        ebind (str2nproc name val fname) (\<lambda>n. Inr (c\<lparr>change_nproc := n\<rparr>))
      else if strcaseeq ''allowed_devices'' name then
        Inr (c\<lparr>allowed_devices := parse_str_list val\<rparr>)
      else if strcaseeq ''allowed_mountpoints'' name then
        Inr (c\<lparr>allowed_mountpoints := parse_str_list val\<rparr>)
      else if strcaseeq ''allow_ttydev'' name then
        ebind (opt_str2bool name val fname) (\<lambda>_. Inr c)
      else if strncaseeq ''rlimit_'' name 7 then
        ebind (parse_rlim (change_rlimit c) (drop 7 name) val name fname)
          (\<lambda>ls. Inr (c\<lparr>change_rlimit := ls\<rparr>))
      else if strncaseeq ''wlimit_'' name 7 then
        ebind (parse_wlim (wlimit c) (drop 7 name) val name fname) (\<lambda>l. Inr (c\<lparr>wlimit := l\<rparr>))
      else opt_bad_name name fname)"

subsection \<open>Lists of strings: what they hold\<close>

definition str_list_items :: "str_list \<Rightarrow> string list" where
  "str_list_items s = List.map_filter id s"

lemma items_simps [simp]:
  "str_list_items [] = []"
  "str_list_items (Some x # s) = x # str_list_items s"
  "str_list_items (None # s) = str_list_items s"
  by (simp_all add: str_list_items_def map_filter_simps)

lemma items_mem: "x \<in> set (str_list_items s) \<longleftrightarrow> Some x \<in> set s"
  by (induction s) (auto simp: str_list_items_def map_filter_simps split: option.splits)

lemma clear_duplicates_set: "set (str_list_items (clear_duplicates xs)) = set xs"
  by (induction xs rule: clear_duplicates.induct) auto

lemma clear_duplicates_length: "length (clear_duplicates xs) = length xs"
  by (induction xs rule: clear_duplicates.induct) auto

lemma clear_duplicates_sorted:
  "sorted xs \<Longrightarrow> sorted_wrt (<) (str_list_items (clear_duplicates xs))"
proof (induction xs rule: clear_duplicates.induct)
  case (3 x y zs)
  then have rest: "sorted_wrt (<) (str_list_items (clear_duplicates (y # zs)))" by simp
  show ?case
  proof (cases "x = y")
    case True
    then show ?thesis using rest by simp
  next
    case False
    have "\<forall>z \<in> set (y # zs). x < z"
      using "3.prems" False by (auto simp: order_le_less)
    then have "\<forall>z \<in> set (str_list_items (clear_duplicates (y # zs))). x < z"
      by (simp only: clear_duplicates_set)
    with rest False show ?thesis by simp
  qed
qed auto

lemma parse_str_list_items:
  "set (str_list_items (parse_str_list v)) = set (strtok_all list_delim v)"
  "sorted_wrt (<) (str_list_items (parse_str_list v))"
  by (simp_all add: parse_str_list_def clear_duplicates_set clear_duplicates_sorted)

subsection \<open>The invariant of the configuration\<close>

definition prefix_ok :: "string \<Rightarrow> bool" where
  "prefix_ok p \<longleftrightarrow> p = [] \<or> hd p = CHR ''/'' \<and> last p \<noteq> CHR ''/''"

text \<open>
  The umask has permission bits only; the nice value is one \<open>nice(2)\<close> accepts from an
  unprivileged process; the number of processors fits \<open>ssize_t\<close>; every chroot prefix is
  absolute and has no trailing slash; the table of resource limits keeps its entries; there is
  no limit on the bytes read (no option sets one).
\<close>

definition conf_ok :: "conf \<Rightarrow> bool" where
  "conf_ok c \<longleftrightarrow>
     change_umask c \<le> 511 \<and> 0 \<le> change_nice c \<and> change_nice c \<le> 19
     \<and> 0 \<le> sint (change_nproc c)
     \<and> (\<forall>l. chroot_prefix_list c = Some l \<longrightarrow> l \<noteq> [] \<and> (\<forall>p \<in> set l. prefix_ok p))
     \<and> map rl_name (change_rlimit c) = map rl_name change_rlimit_init
     \<and> map rl_resource (change_rlimit c) = map rl_resource change_rlimit_init
     \<and> bytes_read (wlimit c) = 0"

lemma conf_ok_init: "conf_ok conf_init"
  by (simp add: conf_ok_def conf_init_def wlimit_init_def)

lemma str2umask_range: "str2umask name val fname = Inr n \<Longrightarrow> n \<le> 511"
proof -
  assume "str2umask name val fname = Inr n"
  then obtain k where k: "k \<le> 511" "n = word_of_nat k"
    by (fastforce simp: str2umask_def Let_def not_less split: if_splits prod.splits)
  then have "unat n = k" by (simp add: unsigned_of_nat take_bit_nat_eq_self)
  then show ?thesis using k by (simp add: word_le_nat_alt)
qed

lemma str2nice_range: "str2nice name val fname = Inr n \<Longrightarrow> 0 \<le> n \<and> n \<le> 19"
  by (auto simp: str2nice_def Let_def split: if_splits prod.splits)

lemma str2nproc_range: "str2nproc name val fname = Inr n \<Longrightarrow> 1 \<le> sint n"
proof -
  assume "str2nproc name val fname = Inr n"
  then obtain k where k: "k = fst (strtol 10 val)" "1 \<le> k" "n = word_of_int k"
    by (auto simp: str2nproc_def Let_def split: if_splits prod.splits)
  then have "k \<le> long_max" using strtol_bounds(2) by simp
  with k have "sint n = k"
    by (simp add: sint_sbintrunc' signed_take_bit_int_eq_self)
  with k show ?thesis by simp
qed

lemma set_rlim_shape:
  "set_rlim ls name val hard optname fname = Inr ls' \<Longrightarrow>
     map rl_name ls' = map rl_name ls \<and> map rl_resource ls' = map rl_resource ls"
  by (induction ls arbitrary: ls') (auto simp: ebind_eq_Inr_iff split: if_splits)

lemma parse_rlim_shape:
  "parse_rlim ls name val optname fname = Inr ls' \<Longrightarrow>
     map rl_name ls' = map rl_name ls \<and> map rl_resource ls' = map rl_resource ls"
  by (auto simp: parse_rlim_def dest: set_rlim_shape split: if_splits)

lemma parse_wlim_bytes_read:
  "parse_wlim l name val optname fname = Inr l' \<Longrightarrow> bytes_read l' = bytes_read l"
  by (auto simp: parse_wlim_def ebind_eq_Inr_iff split: if_splits)

lemma strip_slashes_last: "strip_slashes s \<noteq> [] \<Longrightarrow> last (strip_slashes s) \<noteq> CHR ''/''"
  unfolding strip_slashes_def by (metis (full_types) hd_dropWhile last_rev rev_is_Nil_conv)

lemma parse_prefix_ok: "parse_prefix home name val fname = Inr p \<Longrightarrow> prefix_ok p"
  using strip_slashes_last by (auto simp: parse_prefix_def prefix_ok_def Let_def split: if_splits)

lemma parse_prefix_list_ok:
  assumes "parse_prefix_list home c name val fname = Inr c'" and "conf_ok c"
  shows "conf_ok c'"
proof -
  let ?f = "\<lambda>l path. ebind (parse_prefix home name path fname) (\<lambda>p. Inr (l @ [p]))"
  from assms(1) obtain l where l: "efold ?f [] (strtok_all '':'' val) = Inr l"
    and c': "c' = c\<lparr>chroot_prefix_path := Some val, chroot_prefix_list := (if l = [] then None else Some l)\<rparr>"
    by (auto simp: parse_prefix_list_def ebind_eq_Inr_iff)
  have "\<forall>p \<in> set l. prefix_ok p"
    by (rule efold_invariant [OF l]) (auto simp: ebind_eq_Inr_iff dest: parse_prefix_ok)
  with assms(2) show ?thesis by (simp add: conf_ok_def c')
qed

lemma set_caller_name_value_ok:
  assumes "conf_ok c" and "set_caller_name_value home c name val fname = Inr c'"
  shows "conf_ok c'"
proof (cases "strcaseeq ''prefix'' name \<and> \<not> strcaseeq ''user1'' name \<and> \<not> strcaseeq ''user2'' name")
  case True
  with assms show ?thesis by (auto simp: set_caller_name_value_def dest: parse_prefix_list_ok)
next
  case False
  note facts = str2umask_range str2nice_range str2nproc_range parse_rlim_shape parse_wlim_bytes_read
  from assms False show ?thesis
    unfolding set_caller_name_value_def conf_ok_def
    by (auto simp: ebind_eq_Inr_iff dest: facts split: if_splits)
qed

interpretation caller: config_setter "set_caller_name_value home" conf_ok for home
  by unfold_locales (rule set_caller_name_value_ok)

subsection \<open>The environment can only tighten a limit\<close>

lemma modify_wlim_user:
  assumes "modify_wlim old val optname fname False = Inr new" and "old \<noteq> 0"
  shows "new \<noteq> 0 \<and> new \<le> old"
  using assms by (auto simp: modify_wlim_def ebind_eq_Inr_iff split: if_splits)

end
