(* ===== verification/Parse_Env.thy ===== *)
theory Parse_Env
  imports X11 Caller_Config
begin

text \<open>
  The client's environment: \<open>parse_env\<close> of caller_config.c, the only way in which the
  unprivileged client can influence the configuration of its job.
\<close>

text \<open>\<open>getenv\<close> on an array of \<open>NAME=value\<close> strings: the value of the first match.\<close>

fun getenv :: "string list \<Rightarrow> string \<Rightarrow> string option" where
  "getenv [] name = None"
| "getenv (e # es) name =
     (if strneq e (name @ ''='') (length name + 1) then Some (drop (length name + 1) e)
      else getenv es name)"

text \<open>\<open>(e = getenv (name)) && *e\<close>.\<close>

definition getenv_set :: "string list \<Rightarrow> string \<Rightarrow> string option" where
  "getenv_set env name = (case getenv env name of Some (c # cs) \<Rightarrow> Some (c # cs) | _ \<Rightarrow> None)"

definition set_cf :: "(conf \<Rightarrow> conf) \<Rightarrow> unit m" where
  "set_cf f = modg (cf_update f)"

definition env_wlim ::
    "string list \<Rightarrow> string \<Rightarrow> (work_limit \<Rightarrow> u64) \<Rightarrow> (u64 \<Rightarrow> work_limit \<Rightarrow> work_limit) \<Rightarrow> unit m" where
  "env_wlim env name get put =
     (case getenv_set env name of
        None \<Rightarrow> ret ()
      | Some e \<Rightarrow>
          bnd (getg (wlimit \<circ> cf)) (\<lambda>l.
          bnd (lift_res (modify_wlim (get l) e name ''environment'' False)) (\<lambda>v.
          set_cf (wlimit_update (put v)))))"

definition env_bool :: "string list \<Rightarrow> string \<Rightarrow> (bool \<Rightarrow> conf \<Rightarrow> conf) \<Rightarrow> unit m" where
  "env_bool env name put =
     (case getenv env name of
        None \<Rightarrow> ret ()
      | Some e \<Rightarrow> bnd (lift_res (opt_str2bool name e ''environment'')) (\<lambda>b. set_cf (put b)))"

definition env_string :: "string list \<Rightarrow> string \<Rightarrow> (string \<Rightarrow> conf \<Rightarrow> conf) \<Rightarrow> unit m" where
  "env_string env name put =
     (case getenv_set env name of None \<Rightarrow> ret () | Some e \<Rightarrow> set_cf (put e))"

definition parse_x11_key :: "unit m" where
  "parse_x11_key =
     bnd (getg cf) (\<lambda>c.
     case (x11_display c, x11_key c) of
       (Some _, Some key) \<Rightarrow>
         if odd (length key)
         then seq (set_cf (x11_data_len_update (\<lambda>_. word_of_nat (length key))))
             (seq (error_msg ''Invalid X11 authentication data'')
                  (set_cf (x11_data_len_update (\<lambda>_. 0))))
         else seq (set_cf (x11_data_len_update (\<lambda>_. word_of_nat (length key) div 2)))
             (bnd x11_parse_display (\<lambda>rc.
              if rc \<noteq> 0 then set_cf (x11_data_len_update (\<lambda>_. 0)) else ret ()))
     | _ \<Rightarrow> ret ())"

definition parse_env :: "string list option \<Rightarrow> unit m" where
  "parse_env o_env =
     (case o_env of
        None \<Rightarrow> ret ()
      | Some env \<Rightarrow>
          seq (env_wlim env ''wlimit_time_elapsed'' time_elapsed (\<lambda>v. time_elapsed_update (\<lambda>_. v)))
         (seq (env_wlim env ''wlimit_time_idle'' time_idle (\<lambda>v. time_idle_update (\<lambda>_. v)))
         (seq (env_wlim env ''wlimit_bytes_written'' bytes_written (\<lambda>v. bytes_written_update (\<lambda>_. v)))
         (seq (env_bool env ''makedev_console'' (\<lambda>b. makedev_console_update (\<lambda>_. b)))
         (seq (env_bool env ''use_pty'' (\<lambda>b. use_pty_update (\<lambda>_. b)))
         (seq (bnd (getg (use_pty \<circ> cf)) (\<lambda>pty.
               only_if pty (env_string env ''TERM'' (\<lambda>e. term_name_update (\<lambda>_. Some e)))))
         (seq (env_string env ''XAUTH_DISPLAY'' (\<lambda>e. x11_display_update (\<lambda>_. Some e)))
         (seq (env_string env ''XAUTH_KEY'' (\<lambda>e. x11_key_update (\<lambda>_. Some e)))
         (seq parse_x11_key
         (seq (bnd (getg (x11_data_len \<circ> cf)) (\<lambda>n. only_if (n = 0) x11_drop_display))
         (seq (env_bool env ''share_ipc'' (\<lambda>b. share_ipc_update (\<lambda>_. of_bool b)))
         (seq (env_bool env ''share_network'' (\<lambda>b. share_network_update (\<lambda>_. of_bool b)))
         (seq (env_bool env ''share_uts'' (\<lambda>b. share_uts_update (\<lambda>_. of_bool b)))
         (case getenv env ''requested_mountpoints'' of
            None \<Rightarrow> ret ()
          | Some e \<Rightarrow> set_cf (requested_mountpoints_update (\<lambda>_. parse_str_list e))))))))))))))))"

subsection \<open>What the environment cannot change\<close>

text \<open>A limit that is set stays set and does not grow.\<close>

definition tighter :: "u64 \<Rightarrow> u64 \<Rightarrow> bool" where
  "tighter old new \<longleftrightarrow> (old \<noteq> 0 \<longrightarrow> new \<noteq> 0 \<and> new \<le> old)"

lemma tighter_refl: "tighter x x"
  by (simp add: tighter_def)

lemma tighter_trans: "tighter x y \<Longrightarrow> tighter y z \<Longrightarrow> tighter x z"
  by (auto simp: tighter_def)

text \<open>Everything an administrator configures is the same, apart from limits that got tighter.\<close>

definition only_tightened :: "globals \<Rightarrow> globals \<Rightarrow> bool" where
  "only_tightened g g' \<longleftrightarrow>
     cl g' = cl g \<and> sv g' = sv g \<and> chroot_fd g' = chroot_fd g \<and> log_fd g' = log_fd g
   \<and> (let c = cf g; c' = cf g' in
        chroot_prefix_list c' = chroot_prefix_list c
      \<and> change_user1 c' = change_user1 c \<and> change_user2 c' = change_user2 c
      \<and> change_uid1 c' = change_uid1 c \<and> change_uid2 c' = change_uid2 c
      \<and> change_gid1 c' = change_gid1 c \<and> change_gid2 c' = change_gid2 c
      \<and> allowed_devices c' = allowed_devices c \<and> allowed_mountpoints c' = allowed_mountpoints c
      \<and> change_umask c' = change_umask c \<and> change_nice c' = change_nice c
      \<and> change_nproc c' = change_nproc c \<and> change_rlimit c' = change_rlimit c
      \<and> bytes_read (wlimit c') = bytes_read (wlimit c)
      \<and> tighter (time_elapsed (wlimit c)) (time_elapsed (wlimit c'))
      \<and> tighter (time_idle (wlimit c)) (time_idle (wlimit c'))
      \<and> tighter (bytes_written (wlimit c)) (bytes_written (wlimit c')))"

lemmas only_tightened_simps = only_tightened_def Let_def tighter_refl

lemma only_tightened_refl: "only_tightened g g"
  by (simp add: only_tightened_simps)

lemma only_tightened_trans: "only_tightened f g \<Longrightarrow> only_tightened g h \<Longrightarrow> only_tightened f h"
  unfolding only_tightened_def Let_def by (auto intro: tighter_trans)

definition env_rel :: "world \<Rightarrow> world \<Rightarrow> bool" where
  "env_rel w w' \<longleftrightarrow> only_tightened (gl w) (gl w')"

definition env_mod :: "(globals \<Rightarrow> globals) \<Rightarrow> bool" where
  "env_mod f \<longleftrightarrow> (\<forall>g. only_tightened g (f g))"

interpretation env: run_property env_rel "\<lambda>_. True" env_mod
proof unfold_locales
  show "env_rel u w" if "env_rel u v" "env_rel v w" for u v w
    using that unfolding env_rel_def by (rule only_tightened_trans)
qed (auto simp: env_rel_def env_mod_def only_tightened_simps answer_def)

lemma env_wlim_runs:
  assumes "\<And>g v. tighter (get (wlimit (cf g))) v \<Longrightarrow> only_tightened g (cf_update (wlimit_update (put v)) g)"
  shows "runs env_rel (env_wlim env name get put)"
proof -
  have "tighter old new" if "modify_wlim old e name f False = Inr new" for old new e f
    using modify_wlim_user [OF that] by (auto simp: tighter_def)
  then show ?thesis
    unfolding env_wlim_def set_cf_def
    by (auto simp: runs_wp wp_simps env_rel_def only_tightened_refl logged_def intro: assms
        split: option.splits sum.splits)
qed

lemma env_parts:
  "(\<And>b. env_mod (cf_update (put b))) \<Longrightarrow> runs env_rel (env_bool env name put)"
  "(\<And>e. env_mod (cf_update (put' e))) \<Longrightarrow> runs env_rel (env_string env name put')"
  unfolding env_bool_def env_string_def set_cf_def by (intro env.rules runs_cases; simp)+

lemma parse_x11_runs: "runs env_rel x11_parse_display" "runs env_rel parse_x11_key" "runs env_rel x11_drop_display"
proof -
  have xm: "env_mod (x11_update f)" for f by (simp add: env_mod_def only_tightened_simps)
  show d: "runs env_rel x11_parse_display"
    unfolding x11_parse_display_def set_x11_def Let_def by (intro env.rules runs_cases xm)
  show "runs env_rel parse_x11_key"
    unfolding parse_x11_key_def set_cf_def
    by (intro env.rules runs_cases d) (auto simp: env_mod_def only_tightened_simps)
  show "runs env_rel x11_drop_display"
    unfolding x11_drop_display_def by (intro env.rules) (auto simp: env_mod_def only_tightened_simps)
qed

lemma parse_env_runs: "runs env_rel (parse_env env)"
  unfolding parse_env_def set_cf_def
  by (intro env.rules runs_cases env_wlim_runs env_parts parse_x11_runs)
    (auto simp: env_mod_def only_tightened_simps)

text \<open>
  C20: whatever environment a client sends, and however its parsing ends, the identities, the
  allowed devices and mount points, the chroot prefixes, the umask, nice value, number of
  processors and resource limits an administrator has configured are the same afterwards, and a
  work limit that was set is still set and not larger.
\<close>

theorem parse_env_only_tightens:
  "only_tightened (gl w) (gl (snd (parse_env env w)))"
  using parse_env_runs [of env] by (simp add: runs_def env_rel_def)

subsection \<open>X11 forwarding is all or nothing\<close>

text \<open>
  When forwarding is on (\<open>x11_data_len\<close> is not 0) there are a display that has been understood
  and a key of two hexadecimal digits per byte; when it is off there are neither.
\<close>

definition x11_consistent :: "globals \<Rightarrow> bool" where
  "x11_consistent g \<longleftrightarrow>
     (if x11_data_len (cf g) = 0 then x11_display (cf g) = None \<and> x11_key (cf g) = None
      else x11_connect_method (x11 g) \<noteq> None \<and> x11_display (cf g) \<noteq> None
         \<and> (\<exists>key. x11_key (cf g) = Some key \<and> even (length key)
              \<and> x11_data_len (cf g) = word_of_nat (length key) div 2))"

lemma x11_parse_display_pc:
  "pc x11_parse_display (\<lambda>rc v. cf (gl v) = cf (gl w) \<and> (rc = 0 \<longrightarrow> x11_connect_method (x11 (gl v)) \<noteq> None)) w"
  unfolding x11_parse_display_def set_x11_def Let_def
  by (intro pc_rules) auto

lemma parse_x11_key_pc:
  "pc parse_x11_key (\<lambda>_ v. x11_data_len (cf (gl w)) = 0 \<longrightarrow>
     x11_data_len (cf (gl v)) = 0 \<or> x11_consistent (gl v)) w"
  unfolding parse_x11_key_def set_cf_def
  by (intro pc_rules) (auto simp: x11_consistent_def wp_simps set_cf_def logged_def split: option.splits prod.splits
      intro!: pc_rules wp_conseq [OF x11_parse_display_pc])

lemma env_keeps_x11_off:
  fixes P :: "globals \<Rightarrow> bool"
  assumes "P = (\<lambda>g. x11_data_len (cf g) = 0)"
  shows "runs (keeps P) (env_wlim env name get wput)"
    and "(\<And>b c. x11_data_len (bput b c) = x11_data_len c) \<Longrightarrow> runs (keeps P) (env_bool env name bput)"
    and "(\<And>e c. x11_data_len (sput e c) = x11_data_len c) \<Longrightarrow> runs (keeps P) (env_string env name sput)"
  unfolding env_wlim_def env_bool_def env_string_def set_cf_def
  by (intro keeps_rules; simp add: stable_def assms)+

lemma env_keeps_x11_on:
  assumes "\<And>b c. x11_data_len (put b c) = x11_data_len c \<and> x11_display (put b c) = x11_display c
     \<and> x11_key (put b c) = x11_key c"
  shows "runs (keeps x11_consistent) (env_bool env name put)"
  unfolding env_bool_def set_cf_def
  by (intro keeps_rules; simp add: stable_def x11_consistent_def assms)

lemma parse_env_x11_pc:
  assumes "x11_data_len (cf (gl w)) = 0"
  shows "pc (parse_env (Some env)) (\<lambda>_ v. x11_consistent (gl v)) w"
proof -
  let ?off = "\<lambda>g. x11_data_len (cf g) = 0"
  note off = env_keeps_x11_off [where P = ?off, OF HOL.refl]
  have pty: "runs (keeps ?off) (bnd (getg (use_pty \<circ> cf)) (\<lambda>pty.
      only_if pty (env_string env ''TERM'' (\<lambda>e. term_name_update (\<lambda>_. Some e)))))"
    by (intro keeps_rules off) simp
  have drop: "pc (bnd (getg (x11_data_len \<circ> cf)) (\<lambda>n. only_if (n = 0) x11_drop_display))
      (\<lambda>_ v. x11_consistent (gl v)) v" if "?off (gl v) \<or> x11_consistent (gl v)" for v
    using that unfolding x11_drop_display_def by (intro pc_rules) (auto simp: x11_consistent_def)
  have tail: "runs (keeps x11_consistent) (case getenv env ''requested_mountpoints'' of
      None \<Rightarrow> ret () | Some e \<Rightarrow> set_cf (requested_mountpoints_update (\<lambda>_. parse_str_list e)))"
    unfolding set_cf_def by (intro keeps_rules) (simp add: stable_def x11_consistent_def)
  note s = pc_comb(2) and k = pc_keeps [where P = ?off] and c = pc_keeps [where P = x11_consistent]
  show ?thesis
    unfolding parse_env_def option.case
    by (rule s, rule k [OF off(1)], rule assms, rule s, rule k [OF off(1)], assumption,
        rule s, rule k [OF off(1)], assumption, rule s, rule k [OF off(2)], simp, assumption,
        rule s, rule k [OF off(2)], simp, assumption, rule s, rule k [OF pty], assumption,
        rule s, rule k [OF off(3)], simp, assumption, rule s, rule k [OF off(3)], simp, assumption,
        rule s, rule pc_conseq [OF parse_x11_key_pc], rule s, rule pc_conseq [OF drop], blast,
        rule s, rule c [OF env_keeps_x11_on], simp, assumption, rule s, rule c [OF env_keeps_x11_on],
        simp, assumption, rule s, rule c [OF env_keeps_x11_on], simp, assumption, rule c [OF tail])
qed

text \<open>
  C25: once the environment has been parsed (X11 forwarding being off before, as it is when a job
  starts), X11 forwarding is either fully set up (a display
  that was understood, a key of an even number of digits, the length of the key in bytes) or
  fully off.
\<close>

theorem parse_env_x11:
  "case parse_env (Some env) (start (g\<lparr>cf := (cf g)\<lparr>x11_data_len := 0\<rparr>\<rparr>) [] rs) of
     (Ret _, w') \<Rightarrow> x11_consistent (gl w')
   | (Stop _, _) \<Rightarrow> True"
proof -
  have "wp (parse_env (Some env)) (\<lambda>_ v. x11_consistent (gl v)) (\<lambda>_ _. True)
      (start (g\<lparr>cf := (cf g)\<lparr>x11_data_len := 0\<rparr>\<rparr>) [] rs)"
    by (rule parse_env_x11_pc) (simp add: start_def)
  then show ?thesis by (auto simp: wp_def split: prod.splits outcome.splits)
qed

end
