(* ===== verification/Makedev.thy ===== *)
theory Makedev
  imports Chdir X11
begin

text \<open>The device files of a chroot: makedev.c.\<close>

definition S_IFCHR :: u32 where "S_IFCHR = 0x2000"
definition S_IFBLK :: u32 where "S_IFBLK = 0x6000"
definition S_IRUSR :: u32 where "S_IRUSR = 0x100"
definition S_IWUSR :: u32 where "S_IWUSR = 0x80"
definition S_IRGRP :: u32 where "S_IRGRP = 0x20"
definition S_IROTH :: u32 where "S_IROTH = 0x4"

text \<open>\<open>major\<close> and \<open>minor\<close> of a device number.\<close>

definition dev_major :: "nat \<Rightarrow> nat" where
  "dev_major dev = (let d = word_of_nat dev :: u64 in
     unat ((drop_bit 8 d AND 0xFFF) OR (drop_bit 32 d AND NOT 0xFFF)))"

definition dev_minor :: "nat \<Rightarrow> nat" where
  "dev_minor dev = (let d = word_of_nat dev :: u64 in
     unat ((d AND 0xFF) OR (drop_bit 12 d AND 0xFFFFFF00)))"

definition xmknod :: "string \<Rightarrow> u32 \<Rightarrow> nat \<Rightarrow> nat \<Rightarrow> unit m" where
  "xmknod name mode major minor =
     bnd (sys_fs (Mknod name mode major minor)) (\<lambda>r.
     if r_ret r \<noteq> 0 then perror_msg_and_die ''%s'' else ret ())"

definition xmkdir :: "string \<Rightarrow> u32 \<Rightarrow> unit m" where
  "xmkdir name mode =
     bnd (sys_fs (Mkdir name mode)) (\<lambda>r. if r_ret r \<noteq> 0 then perror_msg_and_die ''%s'' else ret ())"

definition xsymlink :: "string \<Rightarrow> string \<Rightarrow> unit m" where
  "xsymlink target linkpath =
     bnd (sys_fs (Symlink target linkpath)) (\<lambda>r. if r_ret r \<noteq> 0 then perror_msg_and_die ''%s'' else ret ())"

text \<open>The prefixes of a name that end before a slash, in order.\<close>

definition parent_directories :: "string \<Rightarrow> string list" where
  "parent_directories name =
     map (\<lambda>i. take i name) (List.filter (\<lambda>i. name ! i = CHR ''/'') [0..<length name])"

definition make_parent_directories :: "string \<Rightarrow> unit m" where
  "make_parent_directories name =
     for_each (parent_directories name) (\<lambda>dir.
       bnd (sys_fs (Mkdir dir 0x1ED)) (\<lambda>r.
       if r_ret r \<noteq> 0 \<and> r_errno r \<noteq> EEXIST then perror_msg_and_die ''%s'' else ret ()))"

text \<open>The mode of the copy of a device with the given mode (0: it is not a device).\<close>

definition copy_dev_mode :: "u32 \<Rightarrow> u32" where
  "copy_dev_mode mode =
     (let dev_mode = mode AND (S_IFCHR OR S_IFBLK);
          rd = (if mode AND S_IRUSR \<noteq> 0 \<and> mode AND (S_IRGRP OR S_IROTH) \<noteq> 0
                then S_IRUSR OR S_IRGRP OR S_IROTH else 0);
          wr = (if mode AND S_IWUSR \<noteq> 0 \<and> mode AND (S_IWGRP OR S_IWOTH) \<noteq> 0
                then S_IWUSR OR S_IWGRP OR S_IWOTH else 0)
      in if dev_mode = 0 then 0 else dev_mode OR rd OR wr)"

definition copy_dev :: "string \<Rightarrow> unit m" where
  "copy_dev src =
     (let prefix = ''/dev/''; name = drop (length prefix) src in
      if \<not> strneq src prefix (length prefix) \<or> name = []
      then error_msg_and_die ''%s: invalid device name''
      else bnd (sys_fs (Stat src)) (\<lambda>r.
      if r_ret r \<noteq> 0 then perror_msg_and_die ''stat: %s''
      else let st = r_stat r; dev_mode = copy_dev_mode (st_mode st) in
        if dev_mode = 0 then error_msg_and_die ''%s: not a device''
        else seq (only_if (CHR ''/'' \<in> set name) (make_parent_directories name))
          (xmknod name dev_mode (dev_major (st_rdev st)) (dev_minor (st_rdev st)))))"

text \<open>The fixed part of \<open>setup_devices\<close>.\<close>

definition std_devices :: "(string \<times> u32 \<times> nat \<times> nat) list" where
  "std_devices =
     [(''null'', S_IFCHR OR 0x1B6, 1, 3), (''zero'', S_IFCHR OR 0x1B6, 1, 5),
      (''full'', S_IFCHR OR 0x1B6, 1, 7), (''urandom'', S_IFCHR OR 0x1A4, 1, 9),
      (''random'', S_IFCHR OR 0x1A4, 1, 9)]"

definition console_devices :: "(string \<times> u32 \<times> nat \<times> nat) list" where
  "console_devices =
     [(''console'', S_IFCHR OR 0x180, 5, 1), (''tty0'', S_IFCHR OR 0x180, 4, 0),
      (''fb0'', S_IFCHR OR 0x180, 29, 0)]"

abbreviation mknod_all :: "(string \<times> u32 \<times> nat \<times> nat) list \<Rightarrow> unit m" where
  "mknod_all ds \<equiv> for_each ds (\<lambda>(name, mode, major, minor). xmknod name mode major minor)"

definition setup_devices :: "string list \<Rightarrow> unit m" where
  "setup_devices vec =
     bnd (getg chroot_fd) (\<lambda>fd.
     seq (fchdiruid fd stat_caller_ok_validator)
    (seq (chdiruid (Some ''dev'') stat_root_ok_validator)
    (bnd (ch_gid 0) (\<lambda>saved_gid.
     bnd (sys_fs (Umask 0)) (\<lambda>r.
     seq (xmkdir ''pts'' 0x1ED)
    (seq (xmkdir ''shm'' 0x1ED)
    (seq (xsymlink ''../proc/self/fd'' ''fd'')
    (seq (xsymlink ''../proc/self/fd/0'' ''stdin'')
    (seq (xsymlink ''../proc/self/fd/1'' ''stdout'')
    (seq (xsymlink ''../proc/self/fd/2'' ''stderr'')
    (seq (mknod_all std_devices)
    (seq (bnd (getg (makedev_console \<circ> cf)) (\<lambda>b. only_if b (mknod_all console_devices)))
    (seq (bnd (getg dev_pts_mounted) (\<lambda>b. only_if b
            (seq (xmknod ''tty'' (S_IFCHR OR 0x1B6) 5 0) (xsymlink ''pts/ptmx'' ''ptmx''))))
    (seq (bnd log_listen (\<lambda>fd. modg (log_fd_update (\<lambda>_. fd))))
    (seq (for_each vec copy_dev)
    (seq (bnd (sys_fs (Umask (word_of_int (r_ret r)))) (\<lambda>_. ret ()))
    (bnd (ch_gid saved_gid) (\<lambda>_. ret ()))))))))))))))))))"

end
