(* ===== verification/Server_Config.thy ===== *)
theory Server_Config
  imports File_Config Globals
begin

text \<open>
  The setter of the daemon's configuration file, \<open>set_server_name_value\<close> of server_config.c.
  (\<open>configure_server\<close>, which loads the file, is in theory \<open>Config_Load\<close>.)
\<close>

definition set_server_name_value ::
    "server_conf \<Rightarrow> string \<Rightarrow> string \<Rightarrow> string \<Rightarrow> server_conf res" where
  "set_server_name_value s name val fname =
     (if strcaseeq ''session_timeout'' name then
        ebind (opt_str2ul name val fname) (\<lambda>n. Inr (s\<lparr>server_session_timeout := n\<rparr>))
      else if strcaseeq ''loglevel'' name then Inr (s\<lparr>server_loglevel := Some val\<rparr>)
      else if strcaseeq ''pidfile'' name then Inr (s\<lparr>server_pidfile := Some val\<rparr>)
      else if strcaseeq ''access_group'' name then Inr (s\<lparr>server_access_group := Some val\<rparr>)
      else if strcaseeq ''min_uid'' name then
        ebind (opt_str2int name val fname) (\<lambda>n. Inr (s\<lparr>min_uid := n\<rparr>))
      else if strcaseeq ''min_gid'' name then
        ebind (opt_str2int name val fname) (\<lambda>n. Inr (s\<lparr>min_gid := n\<rparr>))
      else opt_bad_name name fname)"

text \<open>The minimal ids stay values of a C \<open>int\<close>.\<close>

definition server_conf_ok :: "server_conf \<Rightarrow> bool" where
  "server_conf_ok s \<longleftrightarrow>
     int_min \<le> min_uid s \<and> min_uid s \<le> int_max \<and> int_min \<le> min_gid s \<and> min_gid s \<le> int_max"

lemma server_conf_ok_init: "server_conf_ok server_conf_init"
  by (simp add: server_conf_ok_def server_conf_init_def)

interpretation server: config_setter set_server_name_value server_conf_ok
  by unfold_locales
    (auto simp: set_server_name_value_def server_conf_ok_def ebind_eq_Inr_iff
      dest: opt_str2int_range split: if_splits)

text \<open>
  With the ids a C \<open>int\<close>, the unsigned comparison of \<open>valid_uid\<close> is the comparison of the
  numbers.
\<close>

lemma word_of_int_le_iff:
  assumes "0 \<le> m" and "m \<le> int_max"
  shows "(word_of_int m :: u32) \<le> u \<longleftrightarrow> m \<le> int (unat u)"
proof -
  have "uint (word_of_int m :: u32) = m"
    using assms by (simp add: unsigned_of_int take_bit_int_eq_self)
  then show ?thesis by (simp add: word_le_def)
qed

lemma valid_uid_iff:
  "server_conf_ok s \<Longrightarrow> valid_uid s uid \<longleftrightarrow> min_uid s \<le> int (unat uid)"
proof (cases "min_uid s < 0")
  case True
  then have "min_uid s \<le> int (unat uid)" by linarith
  with True show ?thesis by (simp add: valid_uid_def)
next
  case False
  assume "server_conf_ok s"
  with False show ?thesis by (simp add: valid_uid_def server_conf_ok_def word_of_int_le_iff)
qed

lemma valid_gid_iff:
  "server_conf_ok s \<Longrightarrow> valid_gid s gid \<longleftrightarrow> min_gid s \<le> int (unat gid)"
proof (cases "min_gid s < 0")
  case True
  then have "min_gid s \<le> int (unat gid)" by linarith
  with True show ?thesis by (simp add: valid_gid_def)
next
  case False
  assume "server_conf_ok s"
  with False show ?thesis by (simp add: valid_gid_def server_conf_ok_def word_of_int_le_iff)
qed

end
