(* ===== verification/Config_Load.thy ===== *)
theory Config_Load
  imports Chdir Server_Config Caller_Config
begin

text \<open>
  Finding, checking and reading the configuration files: \<open>load_config\<close> of file_config.c,
  \<open>configure_server\<close> of server_config.c, \<open>configure_caller\<close> of caller_config.c and
  \<open>init_caller_data\<close> of caller.c.
\<close>

subsection \<open>Loading a file (file_config.c)\<close>

definition MAX_CONFIG_SIZE :: int where "MAX_CONFIG_SIZE = 16384"

definition load_config :: "string \<Rightarrow> (int \<Rightarrow> string \<Rightarrow> unit m) \<Rightarrow> unit m" where
  "load_config fname fread_config_func =
     bnd (sys_fs (Open fname [O_RDONLY, O_NOFOLLOW, O_NOCTTY] 0)) (\<lambda>r.
     let fd = r_ret r in
     if fd < 0 then perror_msg_and_die ''open: %s''
     else bnd (sys_fs (Fstat fd)) (\<lambda>r.
     let st = r_stat r in
     if r_ret r < 0 then perror_msg_and_die ''fstat: %s''
     else seq (stat_root_ok_validator st fname)
     (if \<not> S_ISREG (st_mode st) then error_msg_and_die ''%s: not a regular file''
      else if MAX_CONFIG_SIZE < st_size st then error_msg_and_die ''%s: file too large: %lu''
      else bnd (sys_fs (Fdopen fd)) (\<lambda>r.
      if r_ret r = 0 then perror_msg_and_die ''fdopen: %s''
      else seq (fread_config_func fd fname)
      (bnd (sys_fs (Fclose fd)) (\<lambda>r.
      if r_ret r \<noteq> 0 then perror_msg_and_die ''fclose: %s'' else ret ()))))))"

text \<open>
  Reading the stream on a descriptor: the reply holds the bytes it delivers, and a negative
  value if it ends with an error.
\<close>

definition fread_server_config :: "int \<Rightarrow> string \<Rightarrow> unit m" where
  "fread_server_config fd fname =
     bnd (sys_fs (Fread_all fd)) (\<lambda>r. bnd (getg sv) (\<lambda>s.
     bnd (lift_res (fread_config_name_value set_server_name_value s (r_buf r) (r_ret r < 0) fname))
       (\<lambda>s'. modg (sv_update (\<lambda>_. s')))))"

definition fread_caller_config :: "int \<Rightarrow> string \<Rightarrow> unit m" where
  "fread_caller_config fd fname =
     bnd (sys_fs (Fread_all fd)) (\<lambda>r. bnd (getg cf) (\<lambda>c. bnd (getg (caller_home \<circ> cl)) (\<lambda>home.
     bnd (lift_res (fread_config_name_value (set_caller_name_value home) c (r_buf r) (r_ret r < 0) fname))
       (\<lambda>c'. modg (cf_update (\<lambda>_. c'))))))"

definition load_server_config :: "string \<Rightarrow> unit m" where
  "load_server_config fname = load_config fname fread_server_config"

definition load_caller_config :: "string \<Rightarrow> unit m" where
  "load_caller_config fname =
     seq (load_config fname fread_caller_config)
       (modg (cf_update (caller_config_file_name_update (\<lambda>_. Some fname))))"

subsection \<open>The server (server_config.c)\<close>

definition set_server_access_gid :: "unit m" where
  "set_server_access_gid =
     bnd (getg (server_access_group \<circ> sv)) (\<lambda>group.
     case group of
       None \<Rightarrow> error_msg_and_die ''undefined option: access_group''
     | Some name \<Rightarrow>
         if name = [] then error_msg_and_die ''undefined option: access_group''
         else bnd (sys_pr (Getgrnam name)) (\<lambda>r.
           case r_gr r of
             None \<Rightarrow> error_msg_and_die ''access_group: %s lookup failure''
           | Some gr \<Rightarrow>
               if gr_name gr = None then error_msg_and_die ''access_group: %s lookup failure''
               else modg (sv_update (server_gid_update (\<lambda>_. gr_gid gr)))))"

definition configure_server :: "unit m" where
  "configure_server =
     seq (safe_chdir ''/'' stat_root_ok_validator)
    (seq (safe_chdir ''etc/hasher-priv'' stat_root_ok_validator)
    (seq (load_server_config ''daemon.conf'')
    (seq (safe_chdir ''/'' stat_root_ok_validator)
      set_server_access_gid)))"

subsection \<open>The caller (caller.c, caller_config.c)\<close>

definition init_caller_data :: "u32 \<Rightarrow> u32 \<Rightarrow> unit m" where
  "init_caller_data uid gid =
     seq (modg (cl_update (\<lambda>c. c\<lparr>caller_uid := uid, caller_gid := gid\<rparr>)))
    (bnd (sys_pr (Getpwuid uid)) (\<lambda>r.
     case r_pw r of
       None \<Rightarrow> error_msg_and_die ''caller lookup failure''
     | Some pw \<Rightarrow>
         (case pw_name pw of
            None \<Rightarrow> error_msg_and_die ''caller lookup failure''
          | Some name \<Rightarrow>
              seq (modg (cl_update (caller_user_update (\<lambda>_. name))))
             (if uid \<noteq> pw_uid pw then error_msg_and_die ''caller %s: uid mismatch''
              else if gid \<noteq> pw_gid pw then error_msg_and_die ''caller %s: gid mismatch''
              else bnd (case pw_dir pw of
                          Some dir \<Rightarrow>
                            if dir \<noteq> [] \<and> hd dir = CHR ''/''
                            then bnd (sys_fs (Canonicalize_file_name dir)) (\<lambda>r.
                                 ret (if r_ret r = 0 then None else Some (r_buf r)))
                            else ret None
                        | None \<Rightarrow> ret None)
              (\<lambda>home.
                case home of
                  Some h \<Rightarrow>
                    if h \<noteq> [] \<and> hd h = CHR ''/''
                    then modg (cl_update (caller_home_update (\<lambda>_. h)))
                    else perror_msg_and_die ''caller %s: invalid home''
                | None \<Rightarrow> perror_msg_and_die ''caller %s: invalid home'')))))"

text \<open>\<open>check_user\<close> returns the uid and gid it stores; it dies unless the name is usable.\<close>

definition check_user :: "string option \<Rightarrow> string \<Rightarrow> (u32 \<times> u32) m" where
  "check_user user_name name =
     (case user_name of
        None \<Rightarrow> error_msg_and_die ''undefined: %s''
      | Some user \<Rightarrow>
          if user = [] then error_msg_and_die ''undefined: %s''
          else bnd (sys_pr (Getpwnam user)) (\<lambda>r.
          case r_pw r of
            None \<Rightarrow> error_msg_and_die ''%s: %s lookup failure''
          | Some pw \<Rightarrow>
              (case pw_name pw of
                 None \<Rightarrow> error_msg_and_die ''%s: %s lookup failure''
               | Some found \<Rightarrow>
                   bnd (getg sv) (\<lambda>s. bnd (getg cl) (\<lambda>c.
                   if user \<noteq> found then error_msg_and_die ''%s: %s: name mismatch''
                   else if \<not> valid_uid s (pw_uid pw) then error_msg_and_die ''%s: %s: invalid uid: %u''
                   else if \<not> valid_gid s (pw_gid pw) then error_msg_and_die ''%s: %s: invalid gid: %u''
                   else if caller_user c = user
                   then error_msg_and_die ''%s: %s: name coincides with caller''
                   else if caller_uid c = pw_uid pw
                   then error_msg_and_die ''%s: %s: uid coincides with caller''
                   else if caller_gid c = pw_gid pw
                   then error_msg_and_die ''%s: %s: gid coincides with caller''
                   else ret (pw_uid pw, pw_gid pw))))))"

text \<open>The files a caller's configuration is read from.\<close>

definition load_user_configs :: "unit m" where
  "load_user_configs =
     bnd (getg cl) (\<lambda>c.
     let uid_name = fmt_u (unat (caller_uid c)) in
     seq (bnd (sys_fs (Access uid_name)) (\<lambda>r.
          if r_ret r \<noteq> 0 then load_caller_config (caller_user c) else load_caller_config uid_name))
     (if caller_num c \<noteq> 0 then
        seq (modg (cf_update (\<lambda>k. k\<lparr>change_user1 := None, change_user2 := None\<rparr>)))
       (let num = fmt_u (unat (caller_num c)) in
        bnd (sys_fs (Access (uid_name @ '':'' @ num))) (\<lambda>r.
        load_caller_config (if r_ret r \<noteq> 0 then caller_user c @ '':'' @ num else uid_name @ '':'' @ num)))
      else ret ()))"

definition check_users :: "unit m" where
  "check_users =
     bnd (getg cf) (\<lambda>c.
     bnd (check_user (change_user1 c) ''user1'') (\<lambda>(uid1, gid1).
     seq (modg (cf_update (\<lambda>k. k\<lparr>change_uid1 := uid1, change_gid1 := gid1\<rparr>)))
    (bnd (check_user (change_user2 c) ''user2'') (\<lambda>(uid2, gid2).
     seq (modg (cf_update (\<lambda>k. k\<lparr>change_uid2 := uid2, change_gid2 := gid2\<rparr>)))
    (if change_user1 c = change_user2 c then error_msg_and_die ''user1 coincides with user2''
     else if uid1 = uid2 then error_msg_and_die ''uid of user1 coincides with uid of user2''
     else if gid1 = gid2 then error_msg_and_die ''gid of user1 coincides with gid of user2''
     else ret ())))))"

definition configure_caller :: "unit m" where
  "configure_caller =
     seq (safe_chdir ''/'' stat_root_ok_validator)
    (seq (safe_chdir ''etc/hasher-priv'' stat_root_ok_validator)
    (seq (load_caller_config ''system'')
    (seq (safe_chdir ''user.d'' stat_root_ok_validator)
    (seq load_user_configs
    (seq (safe_chdir ''/'' stat_root_ok_validator)
      check_users)))))"

subsection \<open>Two distinct, valid identities\<close>

text \<open>
  What the rest of the program relies on: user1, user2 and the caller are three different
  users with three different uids, user1 and user2 have different groups that are not the
  caller's, and the ids of user1 and user2 are in the permitted range.
\<close>

definition identities_ok :: "globals \<Rightarrow> bool" where
  "identities_ok g \<longleftrightarrow>
     (let c = cf g; k = cl g in
      (\<exists>u1 u2. change_user1 c = Some u1 \<and> change_user2 c = Some u2 \<and> u1 \<noteq> [] \<and> u2 \<noteq> []
         \<and> distinct [u1, u2, caller_user k])
      \<and> distinct [change_uid1 c, change_uid2 c, caller_uid k]
      \<and> distinct [change_gid1 c, change_gid2 c, caller_gid k]
      \<and> valid_uid (sv g) (change_uid1 c) \<and> valid_uid (sv g) (change_uid2 c)
      \<and> valid_gid (sv g) (change_gid1 c) \<and> valid_gid (sv g) (change_gid2 c))"

lemma check_user_pc:
  "pc (check_user user name) (\<lambda>(uid, gid) v. gl v = gl w \<and>
     (\<exists>u. user = Some u \<and> u \<noteq> [] \<and> u \<noteq> caller_user (cl (gl w)))
     \<and> valid_uid (sv (gl w)) uid \<and> valid_gid (sv (gl w)) gid
     \<and> uid \<noteq> caller_uid (cl (gl w)) \<and> gid \<noteq> caller_gid (cl (gl w))) w"
  unfolding check_user_def by (intro pc_rules) auto

lemma check_users_pc: "pc check_users (\<lambda>_ v. identities_ok (gl v)) w"
  unfolding check_users_def
  by (rule pc_comb, rule pc_comb, rule pc_comb, rule pc_conseq [OF check_user_pc], clarsimp split del: if_split,
      rule pc_comb, rule pc_comb, rule pc_comb, rule pc_conseq [OF check_user_pc], clarsimp split del: if_split,
      intro pc_rules) (auto simp: identities_ok_def Let_def)

subsection \<open>The configuration stays well-formed\<close>

abbreviation keeps_conf :: "world \<Rightarrow> world \<Rightarrow> bool" where
  "keeps_conf \<equiv> keeps (\<lambda>g. conf_ok (cf g))"

lemma fread_caller_config_keeps: "runs keeps_conf (fread_caller_config fd fname)"
  unfolding runs_wp fread_caller_config_def
  by (auto simp: wp_simps keeps_def logged_def split: list.splits sum.splits dest: caller.fread_config_inv)

lemma validator_runs: "runs keeps_conf (stat_root_ok_validator st name)"
  unfolding stat_root_ok_validator_def by (intro keeps_rules)

lemma safe_chdir_keeps: "runs keeps_conf (safe_chdir path stat_root_ok_validator)"
  unfolding safe_chdir_def safe_chdir_component_def
  by (intro keeps_rules validator_runs) auto

lemma load_caller_config_keeps: "runs keeps_conf (load_caller_config fname)"
  unfolding load_caller_config_def load_config_def
  by (intro keeps_rules validator_runs fread_caller_config_keeps)
    (auto simp: stable_def conf_ok_def)

lemma configure_caller_keeps: "runs keeps_conf configure_caller"
  unfolding configure_caller_def load_user_configs_def check_users_def check_user_def
  by (intro keeps_rules safe_chdir_keeps load_caller_config_keeps)
    (auto simp: stable_def conf_ok_def)

lemma configure_caller_identities: "pc configure_caller (\<lambda>_ v. identities_ok (gl v)) w"
  unfolding configure_caller_def by (rule pc_comb, rule pc_any)+ (rule check_users_pc)

text \<open>
  C18: a session server that has read its configuration has two usable identities: user1, user2
  and the caller are different users with different uids and gids, all ids of user1 and user2
  are within the range the server configuration permits, and the configuration is well-formed
  (umask, nice value, prefixes, table of resource limits).
\<close>

theorem configure_caller_ok:
  assumes "configure_caller w = (Ret (), w')" and "conf_ok (cf (gl w))"
  shows "identities_ok (gl w') \<and> conf_ok (cf (gl w'))"
proof
  show "identities_ok (gl w')" using configure_caller_identities assms(1) by (rule pcD)
  show "conf_ok (cf (gl w'))"
    using runsD [OF configure_caller_keeps assms(1)] assms(2) by (simp add: keeps_def)
qed

subsection \<open>An example\<close>

text \<open>A directory and a file of root's, and the replies while one is entered and the other read.\<close>

definition demo_dir :: stat_buf where "demo_dir = stat0\<lparr>st_mode := 0x41ED\<rparr>"
definition demo_file :: stat_buf where "demo_file = stat0\<lparr>st_mode := 0x81A4\<rparr>"

definition enter_replies :: "reply list" where
  "enter_replies = [(rep 0)\<lparr>r_stat := demo_dir\<rparr>, rep 0, (rep 0)\<lparr>r_stat := demo_dir\<rparr>]"

definition load_replies :: "string \<Rightarrow> reply list" where
  "load_replies contents = [rep 3, (rep 0)\<lparr>r_stat := demo_file\<rparr>, rep 1, (rep 0)\<lparr>r_buf := contents\<rparr>, rep 0]"

definition user_reply :: "string \<Rightarrow> u32 \<Rightarrow> reply" where
  "user_reply n i = (rep 0)\<lparr>r_pw := Some \<lparr>pw_name = Some n, pw_uid = i, pw_gid = i, pw_dir = None\<rparr>\<rparr>"

definition demo_config :: string where
  "demo_config = concat (map item_line
     [Directive ([], [], [], []) (''user1'', ''a''), Directive ([], [], [], []) (''user2'', ''b'')])"

lemma demo_config_read:
  "fread_config_name_value (set_caller_name_value home) c demo_config False fname
     = Inr (c\<lparr>change_user1 := Some ''a'', change_user2 := Some ''b''\<rparr>)"
proof -
  let ?is = "[Directive ([], [], [], []) (''user1'', ''a''), Directive ([], [], [], []) (''user2'', ''b'')]"
  have g: "list_all good_item ?is"
    by (simp add: good_directive_def blank_def good_name_def good_value_def trimmed_def plain_def
        directive_def BUFSIZ_def isspace_def)
  show ?thesis
    unfolding demo_config_def fread_config_name_value_def items_bufs [OF g] fread_lines_items [OF g]
    by (simp add: List.map_filter_def set_caller_name_value_def strcaseeq_def tolower_def)
qed

lemma empty_config_read:
  "fread_config_name_value (set_caller_name_value home) c [] False fname = Inr c"
  by (simp add: fread_config_name_value_def fgets_all.simps)

lemma component_gives:
  "gives (safe_chdir_component n stat_root_ok_validator) g (enter_replies @ rs) () g rs"
  by (simp add: gives_def start_def enter_replies_def safe_chdir_component_def run_defs
      stat_root_ok_validator_def S_ISDIR_def S_IFMT_def S_IFDIR_def S_IWGRP_def S_IWOTH_def
      is_changed_def demo_dir_def rep_def stat0_def)

lemma safe_chdir_gives:
  "gives (safe_chdir ''/'' stat_root_ok_validator) g (enter_replies @ rs) () g rs"
  "gives (safe_chdir ''user.d'' stat_root_ok_validator) g (enter_replies @ rs) () g rs"
  "gives (safe_chdir ''etc/hasher-priv'' stat_root_ok_validator) g (enter_replies @ enter_replies @ rs) () g rs"
proof -
  have "strtok_all ''/'' ''etc/hasher-priv'' = [''etc'', ''hasher-priv'']"
    using strtok_all_snoc [of "''etc''" "''/''" "CHR ''/''" "''hasher-priv''"]
      strtok_all_single [of "''hasher-priv''" "''/''"] by simp
  then show "gives (safe_chdir ''etc/hasher-priv'' stat_root_ok_validator) g (enter_replies @ enter_replies @ rs) () g rs"
    unfolding safe_chdir_def
    by (auto simp: is_single_def strchr_def intro!: gives_seq [OF component_gives] gives_ret)
qed (simp_all add: safe_chdir_def is_single_def strchr_def component_gives)

lemma load_gives:
  "fread_config_name_value (set_caller_name_value (caller_home (cl g))) (cf g) s False n = Inr c \<Longrightarrow>
   gives (load_caller_config n) g (load_replies s @ rs) ()
     (g\<lparr>cf := c\<lparr>caller_config_file_name := Some n\<rparr>\<rparr>) rs"
  by (simp add: gives_def start_def load_replies_def load_caller_config_def load_config_def
      fread_caller_config_def run_defs stat_root_ok_validator_def S_ISREG_def S_IFMT_def S_IFREG_def
      S_IWGRP_def S_IWOTH_def demo_file_def rep_def stat0_def MAX_CONFIG_SIZE_def)

definition demo_caller :: globals where
  "demo_caller = globals_init\<lparr>cl := caller_data_init
     \<lparr>caller_user := ''u'', caller_uid := 500, caller_gid := 500\<rparr>\<rparr>"

definition configure_replies :: "reply list" where
  "configure_replies = enter_replies @ (enter_replies @ enter_replies @ (load_replies [] @
     (enter_replies @ (rep 0 # load_replies demo_config @ (enter_replies @
     [user_reply ''a'' 600, user_reply ''b'' 601])))))"

lemma configure_gives:
  "\<exists>g'. gives configure_caller demo_caller configure_replies () g' []"
proof -
  let ?g1 = "demo_caller\<lparr>cf := (cf demo_caller)\<lparr>caller_config_file_name := Some ''system''\<rparr>\<rparr>"
  let ?u = "[user_reply ''a'' 600, user_reply ''b'' 601]"
  have l1: "gives (load_caller_config ''system'') demo_caller (load_replies [] @ rs) () ?g1 rs" for rs
    by (rule load_gives) (simp add: empty_config_read)
  obtain g2 where g2: "g2 = ?g1\<lparr>cf := (cf ?g1)\<lparr>change_user1 := Some ''a'', change_user2 := Some ''b'',
      caller_config_file_name := Some (fmt_u 500)\<rparr>\<rparr>" by blast
  have l2: "gives load_user_configs ?g1 (rep 0 # load_replies demo_config @ rs) () g2 rs" for rs
  proof -
    have "gives (load_caller_config (fmt_u 500)) ?g1 (load_replies demo_config @ rs) () g2 rs"
      using load_gives [OF demo_config_read, where g = ?g1 and n = "fmt_u 500" and rs = rs] by (simp add: g2)
    then have "gives (bnd (sys_fs (Access (fmt_u 500))) (\<lambda>r. if r_ret r \<noteq> 0 then load_caller_config ''u''
        else load_caller_config (fmt_u 500))) ?g1 (rep 0 # load_replies demo_config @ rs) () g2 rs"
      unfolding sys_fs_def by (intro gives_bnd [OF gives_sys]) (simp add: rep_def)
    note run = gives_seq [OF this gives_ret [of "()"]]
    have c: "cl ?g1 = cl demo_caller" "caller_uid (cl demo_caller) = 500" "caller_num (cl demo_caller) = 0"
      "caller_user (cl demo_caller) = ''u''"
      by (simp_all add: demo_caller_def caller_data_init_def)
    show ?thesis
      unfolding load_user_configs_def
      by (rule gives_bnd [OF gives_getg [OF HOL.refl]]) (use run in \<open>simp add: Let_def c cong: if_cong\<close>)
  qed
  have l3: "\<exists>g'. gives check_users g2 ?u () g' []"
    by (simp add: g2 gives_def start_def check_users_def check_user_def run_defs user_reply_def rep_def
        demo_caller_def globals_init_def caller_data_init_def conf_init_def valid_uid_def valid_gid_def
        server_conf_init_def)
  then obtain g' where g': "gives check_users g2 ?u () g' []" by blast
  have "gives configure_caller demo_caller configure_replies () g' []"
    unfolding configure_caller_def configure_replies_def
    by (rule gives_seq [OF safe_chdir_gives(1)], rule gives_seq [OF safe_chdir_gives(3)],
        rule gives_seq [OF l1], rule gives_seq [OF safe_chdir_gives(2)], rule gives_seq [OF l2],
        rule gives_seq [OF safe_chdir_gives(1)], rule g')
  then show ?thesis by blast
qed

lemma configure_caller_ok_witness:
  "\<exists>w'. configure_caller (start demo_caller [] configure_replies) = (Ret (), w')
     \<and> identities_ok (gl w') \<and> conf_ok (cf (gl w'))"
proof -
  from configure_gives obtain g' where "gives configure_caller demo_caller configure_replies () g' []" ..
  from givesD [OF this] obtain w' where
    run: "configure_caller (start demo_caller [] configure_replies) = (Ret (), w')" by blast
  have "conf_ok (cf (gl (start demo_caller [] configure_replies)))"
    by (simp add: start_def demo_caller_def globals_init_def conf_ok_init)
  with run configure_caller_ok [OF run] show ?thesis by blast
qed

subsection \<open>Configuration is read from root's files only\<close>

text \<open>The attributes \<open>fstat\<close> has reported for a descriptor since it was opened.\<close>

fun fstat_of :: "int \<Rightarrow> trace \<Rightarrow> stat_buf option" where
  "fstat_of fd [] = None"
| "fstat_of fd ((Fs (Fstat f), r) # t) = (if f = fd \<and> 0 \<le> r_ret r then Some (r_stat r) else fstat_of fd t)"
| "fstat_of fd ((Fs (Open n fl mode), r) # t) = (if r_ret r = fd then None else fstat_of fd t)"
| "fstat_of fd (_ # t) = fstat_of fd t"

definition config_file_ok :: "stat_buf \<Rightarrow> bool" where
  "config_file_ok st \<longleftrightarrow> st_uid st = 0 \<and> st_mode st AND (S_IWGRP OR S_IWOTH) = 0
     \<and> S_ISREG (st_mode st) \<and> st_size st \<le> MAX_CONFIG_SIZE"

text \<open>Each of the new reads was from a descriptor whose file had been found acceptable.\<close>

fun reads_ok :: "trace \<Rightarrow> trace \<Rightarrow> bool" where
  "reads_ok [] base = True"
| "reads_ok ((c, r) # new) base =
     (reads_ok new base \<and>
      (\<forall>fd. c = Fs (Fread_all fd) \<longrightarrow> (\<exists>st. fstat_of fd (new @ base) = Some st \<and> config_file_ok st)))"

lemma reads_ok_append: "reads_ok (new @ mid) base \<longleftrightarrow> reads_ok new (mid @ base) \<and> reads_ok mid base"
  by (induction new base rule: reads_ok.induct) auto

definition reads_checked :: "world \<Rightarrow> world \<Rightarrow> bool" where
  "reads_checked w w' \<longleftrightarrow> (\<exists>new. trace w' = new @ trace w \<and> reads_ok new (trace w))"

definition no_read :: "call \<Rightarrow> bool" where
  "no_read c \<longleftrightarrow> (case c of Fs f \<Rightarrow> (case f of Fread_all _ \<Rightarrow> False | _ \<Rightarrow> True) | _ \<Rightarrow> True)"

lemma reads_checked_trans: "reads_checked u v \<Longrightarrow> reads_checked v w \<Longrightarrow> reads_checked u w"
  unfolding reads_checked_def by (metis append.assoc reads_ok_append)

interpretation reading: run_property reads_checked no_read "\<lambda>_. True"
proof unfold_locales
  show "reads_checked u w" if "reads_checked u v" "reads_checked v w" for u v w
    using that by (rule reads_checked_trans)
  show "reads_checked w (answer c r rs w)" if "no_read c" for c w r rs
    using that unfolding reads_checked_def no_read_def by (intro exI [of _ "[(c, r)]"]) auto
  show "reads_checked w (w\<lparr>trace := (c, rep 0) # trace w\<rparr>)" if "no_read c" for c w
    using that unfolding reads_checked_def no_read_def by (intro exI [of _ "[(c, rep 0)]"]) auto
qed (auto simp: reads_checked_def no_read_def)

text \<open>A reader of configuration files reads its descriptor once.\<close>

definition reads_once :: "(int \<Rightarrow> string \<Rightarrow> unit m) \<Rightarrow> bool" where
  "reads_once reader \<longleftrightarrow> (\<forall>fd fname. \<exists>k. reader fd fname = bnd (sys_fs (Fread_all fd)) k
     \<and> (\<forall>r. runs reads_checked (k r)))"

lemma readers_once: "reads_once fread_server_config" "reads_once fread_caller_config"
  unfolding reads_once_def fread_server_config_def fread_caller_config_def
  by (intro allI exI conjI, rule HOL.refl, intro reading.rules runs_cases, simp)+

lemma checked_read:
  assumes "fstat_of fd (trace w) = Some st" "config_file_ok st" and reader: "reads_once reader"
  shows "reads_checked w (snd (reader fd fname w))"
proof -
  obtain k where k: "reader fd fname = bnd (sys_fs (Fread_all fd)) k" "\<And>r. runs reads_checked (k r)"
    using reader unfolding reads_once_def by blast
  show ?thesis
  proof (cases "replies w")
    case Nil
    then show ?thesis by (simp add: k(1) run_defs reading.refl)
  next
    case (Cons r rs)
    let ?v = "answer (Fs (Fread_all fd)) r rs w"
    have "reads_checked w ?v"
      unfolding reads_checked_def by (intro exI [of _ "[(Fs (Fread_all fd), r)]"]) (simp add: assms(1,2))
    moreover have "reads_checked ?v (snd (k r ?v))"
      using k(2) [of r] by (simp add: runs_def)
    ultimately have "reads_checked w (snd (k r ?v))" by (rule reads_checked_trans)
    then show ?thesis
      by (simp add: k(1) bnd_def sys_fs_def sys_def Cons)
  qed
qed

lemma checked_tail:
  assumes "fstat_of fd (trace w) = Some st" "config_file_ok st" "reads_once reader"
    and "runs reads_checked k"
  shows "reads_checked w (snd (seq (reader fd fname) k w))"
proof (cases "reader fd fname w")
  case (Pair x v)
  have "reads_checked w v" using checked_read [OF assms(1-3), of fname] by (simp add: Pair)
  moreover have "reads_checked v (snd (k v))" using assms(4) by (simp add: runs_def)
  ultimately show ?thesis
    using Pair by (auto simp: seq_def bnd_def intro: reads_checked_trans split: outcome.splits)
qed

lemma checked_step:
  assumes "no_read c" and "\<And>r v. trace v = (c, r) # trace w \<Longrightarrow> reads_checked v (snd (k r v))"
  shows "reads_checked w (snd (bnd (sys c) k w))"
proof (cases "replies w")
  case (Cons r rs)
  let ?v = "answer c r rs w"
  have "reads_checked w ?v" using assms(1) Cons by (rule reading.answer)
  moreover have "reads_checked ?v (snd (k r ?v))" by (rule assms(2)) simp
  ultimately show ?thesis by (simp add: bnd_def sys_def Cons) (rule reads_checked_trans)
qed (simp add: run_defs reading.refl)

lemma reading_dies:
  "reads_checked w (snd (perror_msg_and_die s w))" "reads_checked w (snd (error_msg_and_die s w))"
  by (rule reading.perror_msg_and_die [unfolded runs_def, rule_format]
      reading.error_msg_and_die [unfolded runs_def, rule_format])+

lemma load_config_checked:
  assumes reader: "reads_once reader"
  shows "runs reads_checked (load_config fname reader)"
proof -
  have close: "runs reads_checked (bnd (sys_fs (Fclose fd)) (\<lambda>r.
      if r_ret r \<noteq> 0 then perror_msg_and_die ''fclose: %s'' else ret ()))" for fd
    by (intro reading.rules runs_cases) (simp add: no_read_def)
  have opened: "reads_checked w (snd (bnd (sys_fs (Fdopen fd)) (\<lambda>r.
      if r_ret r = 0 then perror_msg_and_die ''fdopen: %s''
      else seq (reader fd fname) (bnd (sys_fs (Fclose fd)) (\<lambda>r.
        if r_ret r \<noteq> 0 then perror_msg_and_die ''fclose: %s'' else ret ()))) w))"
    if st: "fstat_of fd (trace w) = Some st" "config_file_ok st" for fd w st
    unfolding sys_fs_def [of "Fdopen fd"]
    by (rule checked_step) (auto simp: no_read_def reading_dies st intro!: checked_tail [OF _ st(2) reader close])
  have passed: "reads_checked v (snd (seq (stat_root_ok_validator st fname)
     (if \<not> S_ISREG (st_mode st) then error_msg_and_die e1
      else if MAX_CONFIG_SIZE < st_size st then error_msg_and_die e2 else k) v))"
    if "config_file_ok st \<Longrightarrow> reads_checked v (snd (k v))" for v st e1 e2 and k :: "unit m"
  proof (cases "root_ok (gl v) st")
    case True
    then have "config_file_ok st \<longleftrightarrow> S_ISREG (st_mode st) \<and> st_size st \<le> MAX_CONFIG_SIZE"
      by (simp add: root_ok_def config_file_ok_def)
    then show ?thesis
      using that by_root.accepts [OF True, of fname] by (auto simp: seq_def bnd_def reading_dies)
  next
    case False
    then show ?thesis
      by (auto simp: stat_root_ok_validator_def root_ok_def seq_def bnd_def error_msg_and_die_def
          run_defs reading.refl reads_checked_def)
  qed
  show ?thesis
    unfolding load_config_def runs_def Let_def
  proof (intro allI)
    fix w
    show "reads_checked w (snd (bnd (sys_fs (Open fname [O_RDONLY, O_NOFOLLOW, O_NOCTTY] 0)) (\<lambda>r.
      if r_ret r < 0 then perror_msg_and_die ''open: %s''
      else bnd (sys_fs (Fstat (r_ret r))) (\<lambda>ra.
        if r_ret ra < 0 then perror_msg_and_die ''fstat: %s''
        else seq (stat_root_ok_validator (r_stat ra) fname)
          (if \<not> S_ISREG (st_mode (r_stat ra)) then error_msg_and_die ''%s: not a regular file''
           else if MAX_CONFIG_SIZE < st_size (r_stat ra) then error_msg_and_die ''%s: file too large: %lu''
           else bnd (sys_fs (Fdopen (r_ret r))) (\<lambda>rb.
             if r_ret rb = 0 then perror_msg_and_die ''fdopen: %s''
             else seq (reader (r_ret r) fname) (bnd (sys_fs (Fclose (r_ret r))) (\<lambda>r.
               if r_ret r \<noteq> 0 then perror_msg_and_die ''fclose: %s'' else ret ())))))) w))"
      unfolding sys_fs_def [of "Open _ _ _"] sys_fs_def [of "Fstat _"]
      by (rule checked_step, simp add: no_read_def, split if_split, intro conjI impI reading_dies,
          rule checked_step, simp add: no_read_def, split if_split, intro conjI impI reading_dies)
        (rule passed, rule opened, simp_all)
  qed
qed

lemma entering_checked: "runs reads_checked (safe_chdir path stat_root_ok_validator)"
  unfolding safe_chdir_def safe_chdir_component_def stat_root_ok_validator_def
  by (intro reading.rules runs_cases) (simp_all add: no_read_def)

lemma configure_checked: "runs reads_checked configure_server" "runs reads_checked configure_caller"
  unfolding configure_server_def configure_caller_def load_server_config_def load_caller_config_def
    load_user_configs_def check_users_def check_user_def set_server_access_gid_def
  by (intro reading.rules runs_cases entering_checked load_config_checked readers_once;
      simp add: no_read_def)+

text \<open>
  C23: whatever the state of the file system, neither the daemon nor a session server reads
  configuration from a descriptor unless \<open>fstat\<close> on it, after it was opened, has shown a
  regular file of at most 16384 bytes that belongs to root and is not writable by its group or
  by others.
\<close>

theorem configuration_reads_checked:
  "(\<exists>new. trace (snd (configure_server w)) = new @ trace w \<and> reads_ok new (trace w))
   \<and> (\<exists>new. trace (snd (configure_caller w)) = new @ trace w \<and> reads_ok new (trace w))"
  using configure_checked unfolding runs_def reads_checked_def by blast

end
