(* ===== verification/Harmless.thy ===== *)
theory Harmless
  imports Parse_Env Makedev Config_Load
begin

text \<open>
  The calls that cannot give or use privileges: everything but the creation and replacement of
  processes, the changes of the process identity, signals, namespaces, mounts, device nodes and
  the change of the root directory. The helper modules make harmless calls only, so that the
  properties of a privileged sequence are about the few functions that make the other calls.
\<close>

definition harmless :: "call \<Rightarrow> bool" where
  "harmless c \<longleftrightarrow> (case c of
       Fs f \<Rightarrow> (case f of Mount _ _ _ _ _ \<Rightarrow> False | Mknod _ _ _ _ \<Rightarrow> False | Chroot _ \<Rightarrow> False | _ \<Rightarrow> True)
     | Fd _ \<Rightarrow> True
     | Pr p \<Rightarrow> (case p of Setuid _ \<Rightarrow> False | Setgid _ \<Rightarrow> False | Setreuid _ _ \<Rightarrow> False | Fork \<Rightarrow> False
                  | Execve _ _ _ \<Rightarrow> False | Kill _ _ \<Rightarrow> False | Unshare _ \<Rightarrow> False | Setns _ _ \<Rightarrow> False
                  | Prctl_set_dumpable _ \<Rightarrow> False | Prctl_set_no_new_privs \<Rightarrow> False | _ \<Rightarrow> True)
     | Mi m \<Rightarrow> True)"

named_theorems harmless_fns \<open>functions that make harmless calls only\<close>

lemma harmless_fds [harmless_fns]:
  "emits harmless (xclose fd)" "emits harmless (xclose_to fd)" "emits harmless (close_fd fd)"
  "emits harmless (move_fd a b)" "emits harmless sanitize_fds" "emits harmless cloexec_fds"
  "emits harmless nullify_stdin" "emits harmless (unblock_fd fd)" "emits harmless (open_proc_fd pid uid)"
  unfolding xclose_def xclose_to_def close_fd_def move_fd_def sanitize_fds_def cloexec_fds_def
    nullify_stdin_def unblock_fd_def open_proc_fd_def reorder_fds_def reorder_log_fd_def
    reorder_chroot_fd_def reorder_fd_def sys_close_range_def get_open_max_def
    close_range_brutely_def cloexec_range_brutely_def
  by (intro inv_intros; simp add: harmless_def)+

lemma harmless_io [harmless_fns]:
  "emits harmless (read_retry fd n)" "emits harmless (write_retry fd s)"
  "emits harmless (sendmsg_retry fd s fds)" "emits harmless (recvmsg_retry fd n)"
  "emits harmless (waitpid_retry p b)" "emits harmless (write_loop fd s)" "emits harmless (read_loop fd n)"
  "emits harmless (xsprintf n s)" "emits harmless (fd_send c fds s)" "emits harmless (fd_recv c n k)"
  "emits harmless (send_response_to_client c rc t)" "emits harmless (xsendmsg fd s)"
  "emits harmless (xrecvmsg fd n)" "emits harmless (get_peercred fd)"
  "emits harmless (set_recv_timeout fd secs)" "emits harmless (srv_listen s)"
  unfolding read_retry_def write_retry_def sendmsg_retry_def recvmsg_retry_def waitpid_retry_def
    write_loop_def read_loop_def xsprintf_def fd_send_def fd_recv_def send_response_to_client_def
    xsendmsg_def xrecvmsg_def get_peercred_def set_recv_timeout_def srv_listen_def close_fd_def xclose_def
  by (intro inv_intros; simp add: harmless_def)+

lemma harmless_signals [harmless_fns]:
  "emits harmless (xsigprocmask c)" "emits harmless daemon_create_signal_fd"
  "emits harmless (block_signal_handler n b)" "emits harmless unblock_all_signals"
  "emits harmless (dfl_signal_handler n)" "emits harmless (epoll_add_in ep fd)"
  "emits harmless (epoll_add_hup ep fd)"
  unfolding xsigprocmask_def daemon_create_signal_fd_def block_signal_handler_def unblock_all_signals_def
    dfl_signal_handler_def epoll_add_in_def epoll_add_hup_def
  by (intro inv_intros; simp add: harmless_def)+

lemma harmless_chdir [harmless_fns]:
  "emits harmless (stat_caller_ok_validator st n)" "emits harmless (stat_caller_rooter_ok_validator st n)"
  "emits harmless (stat_root_ok_validator st n)" "emits harmless (ch_uid u)" "emits harmless (ch_gid g)"
  "emits harmless check_cwd" "emits harmless change_creds" "emits harmless (restore_creds u g)"
  unfolding stat_caller_ok_validator_def stat_caller_rooter_ok_validator_def stat_root_ok_validator_def
    ch_uid_def ch_gid_def check_cwd_def change_creds_def restore_creds_def
  by (intro inv_intros; simp add: harmless_def)+

lemma harmless_safe_chdir [harmless_fns]:
  assumes "\<And>st n. emits harmless (v st n)"
  shows "emits harmless (safe_chdir path v)" "emits harmless (fchdiruid fd v)" "emits harmless (chdiruid o_path v)"
proof -
  show c: "emits harmless (safe_chdir path v)" for path
    unfolding safe_chdir_def safe_chdir_component_def
    by (intro inv_intros assms; simp add: harmless_def)
  show "emits harmless (fchdiruid fd v)"
    unfolding fchdiruid_def safe_fchdir_def by (intro inv_intros assms harmless_chdir; simp add: harmless_def)
  show "emits harmless (chdiruid o_path v)"
    unfolding chdiruid_def by (intro inv_intros c harmless_chdir)
qed

lemma harmless_load [harmless_fns]:
  "(\<And>fd n. emits harmless (reader fd n)) \<Longrightarrow> emits harmless (load_config fname reader)"
  unfolding load_config_def by (intro inv_intros harmless_chdir; simp add: harmless_def)

lemma harmless_env [harmless_fns]: "emits harmless (parse_env env)"
  unfolding parse_env_def env_wlim_def env_bool_def env_string_def set_cf_def parse_x11_key_def
    x11_parse_display_def set_x11_def x11_drop_display_def
  by (intro inv_intros) simp_all

lemma runs_method:
  "runs R m \<Longrightarrow> runs R n \<Longrightarrow> runs R (case meth of X11_connect_unix \<Rightarrow> m | X11_connect_inet \<Rightarrow> n)"
  by (cases meth) auto

lemma harmless_x11 [harmless_fns]:
  "emits harmless (unix_listen s)" "emits harmless log_listen" "emits harmless (unix_accept fd)"
  "emits harmless x11_listen" "emits harmless x11_closedir" "emits harmless x11_prepare_connect"
  "emits harmless (x11_check_listen fd)"
  unfolding unix_listen_def log_listen_def unix_accept_def x11_listen_def x11_closedir_def
    x11_prepare_connect_def x11_check_listen_def put_cr_def set_x11_def x11_drop_display_def
    close_fd_def xclose_to_def xclose_def xsprintf_def Let_def
  by (intro inv_intros runs_method; simp add: harmless_def)+

lemma harmless_connect [harmless_fns]: "emits harmless (connect_first ais fd)" "emits harmless x11_connect"
proof -
  show c: "emits harmless (connect_first ais fd)" for ais fd
    by (induction ais fd rule: connect_first.induct)
      (auto simp: xclose_to_def xclose_def harmless_def intro!: inv_intros)
  show "emits harmless x11_connect"
    unfolding x11_connect_def x11_connect_unix_def x11_connect_inet_def put_cr_def
    by (intro inv_intros c harmless_fns runs_method; simp add: harmless_def)
qed

end
