(* ===== verification/Parent.thy ===== *)
theory Parent
  imports Relay Harmless
begin

text \<open>
  The parent of a chroot job (parent.c): it runs as the caller, relays the child's terminal,
  output, log and X11 connections, enforces the work limits and returns the child's exit
  status.
\<close>

subsection \<open>Signals\<close>

text \<open>
  The signals for which handlers are installed are blocked except during \<open>pselect\<close> and at the
  end, in \<open>wait_child\<close>; those delivered there are listed in the reply.
\<close>

definition sigchld_handler :: "unit m" where
  "sigchld_handler =
     bnd (getg (child_pid \<circ> par)) (\<lambda>child.
     if child = 0 then ret ()
     else seq (set_par (child_pid_update (\<lambda>_. 0)))
     (bnd (waitpid_retry child False) (\<lambda>r.
      if r_ret r \<noteq> child then perror_msg_and_die ''waitpid''
      else case r_status r of
        WExited rc \<Rightarrow> only_if (rc \<noteq> 0) (set_par (child_rc_update (\<lambda>_. int rc)))
      | WSignaled signo \<Rightarrow> set_par (child_rc_update (\<lambda>_. 128 + int signo))
      | WOther _ \<Rightarrow> set_par (child_rc_update (\<lambda>_. 255)))))"

definition sigalrm_handler :: "unit m" where
  "sigalrm_handler = set_par (sigalrm_arrived_update (\<lambda>_. True))"

definition sigwinch_handler :: "unit m" where
  "sigwinch_handler = set_par (sigwinch_arrived_update (\<lambda>_. True))"

definition handle_signal :: "signal_no \<Rightarrow> unit m" where
  "handle_signal s =
     (if s = SIGCHLD then sigchld_handler else if s = SIGALRM then sigalrm_handler
      else if s = SIGWINCH then sigwinch_handler else ret ())"

definition setup_timer :: "unit m" where
  "setup_timer =
     seq (block_signal_handler SIGALRM True)
    (bnd (sys_mi (Sigaction SIGALRM ''sigalrm_handler'')) (\<lambda>r.
     if r_ret r \<noteq> 0 then perror_msg_and_die ''sigaction''
     else bnd (sys_mi Timer_create) (\<lambda>r.
     if r_ret r \<noteq> 0 then perror_msg_and_die ''timer_create''
     else bnd (getg (time_elapsed \<circ> wlimit \<circ> cf)) (\<lambda>t.
     bnd (sys_mi (Timer_settime t)) (\<lambda>r.
     if r_ret r \<noteq> 0 then perror_msg_and_die ''timer_settime'' else ret ())))))"

definition setup_sigwinch_handler :: "unit m" where
  "setup_sigwinch_handler =
     seq (block_signal_handler SIGWINCH True)
    (bnd (sys_mi (Sigaction SIGWINCH ''sigwinch_handler'')) (\<lambda>r.
     if r_ret r \<noteq> 0 then perror_msg_and_die ''sigaction'' else ret ()))"

definition setup_sigchld_handler :: "unit m" where
  "setup_sigchld_handler =
     bnd (sys_mi (Sigaction SIGCHLD ''sigchld_handler'')) (\<lambda>r.
     if r_ret r \<noteq> 0 then perror_msg_and_die ''sigaction'' else ret ())"

definition xselect :: "int list \<Rightarrow> int list \<Rightarrow> u64 \<Rightarrow> reply m" where
  "xselect read_fds write_fds timeout =
     bnd (sys_fd (Pselect read_fds write_fds timeout)) (\<lambda>r.
     seq (for_each (r_signals r) handle_signal) (ret r))"

definition forget_child :: "unit m" where
  "forget_child =
     bnd (getg (child_pid \<circ> par)) (\<lambda>pid.
     only_if (pid \<noteq> 0) (set_par (\<lambda>p. p\<lparr>child_rc := 128 + 15, child_pid := 0\<rparr>)))"

text \<open>The loop runs to its end whether or not the child has gone.\<close>

definition wait_child :: "unit m" where
  "wait_child =
     bnd (sys_mi (Sigprocmask_unblock SIGCHLD)) (\<lambda>r.
     if r_ret r < 0 then perror_msg_and_die ''sigprocmask''
     else seq (for_each (r_signals r) handle_signal)
       (for_each [0..<10 :: nat] (\<lambda>_.
          bnd (getg (child_pid \<circ> par)) (\<lambda>pid.
          only_if (pid \<noteq> 0)
            (bnd (sys_mi (Usleep 100000)) (\<lambda>r. for_each (r_signals r) handle_signal))))))"

subsection \<open>Work limits\<close>

definition limit_exceeded :: "string \<Rightarrow> 'a m" where
  "limit_exceeded fmt =
     seq forget_child (seq restore_tty (seq (emit (Mi (Dprintf 2 [newline]))) (seq (error_msg fmt) (c_exit (128 + 15)))))"

definition work_limits_ok :: "u64 \<Rightarrow> u64 \<Rightarrow> unit m" where
  "work_limits_ok b_read b_written =
     bnd (getg (sigalrm_arrived \<circ> par)) (\<lambda>alrm. bnd (getg (wlimit \<circ> cf)) (\<lambda>l.
     if alrm then limit_exceeded ''time elapsed limit (%lu seconds) exceeded''
     else if bytes_read l \<noteq> 0 \<and> bytes_read l \<le> b_read
     then limit_exceeded ''bytes read limit (%lu bytes) exceeded''
     else if bytes_written l \<noteq> 0 \<and> bytes_written l \<le> b_written
     then limit_exceeded ''bytes written limit (%lu bytes) exceeded''
     else ret ()))"

subsection \<open>The X11 control connection\<close>

text \<open>The bytes of the cookie, two hexadecimal digits each.\<close>

definition decode_key :: "string \<Rightarrow> nat \<Rightarrow> string option" where
  "decode_key key n = those (map (\<lambda>i. map_option char_of (scan_2x (drop (2 * i) key))) [0..<n])"

definition handle_x11_ctl :: "int m" where
  "handle_x11_ctl =
     bnd (getg (\<lambda>g. g)) (\<lambda>g.
     let n = unat (x11_data_len (cf g)); key = (case x11_key (cf g) of None \<Rightarrow> [] | Some k \<Rightarrow> k) in
     case decode_key key n of
       None \<Rightarrow>
         seq (error_msg (''Invalid X11 authentication data'' @ [carriage_return]))
           (seq (set_par (x11_saved_data_update (\<lambda>_. None))) (ret (-1)))
     | Some saved \<Rightarrow>
         bnd (fd_recv (ctl_fd (par g)) 1 n) (\<lambda>(rc, fds, fake).
         seq (only_if (rc < 0) put_cr)
        (seq (set_par (\<lambda>p. p\<lparr>x11_saved_data := Some saved, x11_fake_data := Some fake\<rparr>))
        (bnd (case fds of [] \<Rightarrow> ret (-1)
              | fd # _ \<Rightarrow> if 0 \<le> fd then x11_check_listen fd else ret fd) (\<lambda>fd.
         if saved = fake then
           seq (error_msg (''Invalid X11 fake authentication data'' @ [carriage_return]))
          (seq (set_par (\<lambda>p. p\<lparr>x11_saved_data := None, x11_fake_data := None\<rparr>))
             (xclose_to fd))
         else ret fd)))))"

subsection \<open>One round\<close>

text \<open>\<open>master_buf\<close> is the part of the buffer in use, \<open>master_avail\<close> bytes.\<close>

record io_std =
  master_read_fd :: int
  master_write_out_fd :: int
  master_write_err_fd :: int
  slave_read_out_fd :: int
  slave_read_err_fd :: int
  slave_write_fd :: int
  master_buf :: string

text \<open>The descriptor sets given to \<open>pselect\<close>; \<open>None\<close> when there is nothing to wait for.\<close>

definition select_sets :: "globals \<Rightarrow> io_std \<Rightarrow> (int list \<times> int list) option" where
  "select_sets g io =
     (let p = par g;
          (reads, m) = fds_add_fd (fds_add_fd ([], 0) (slave_read_out_fd io)) (slave_read_err_fd io);
          (reads, m) = fds_add_log (log_fd_list p) (reads, m);
          (reads, writes, m) = fds_add_x11 (io_x11_list p) (reads, [], m)
      in if child_pid p \<noteq> 0 then
           let (reads, writes, m) =
                 (if master_buf io \<noteq> [] then (let (w, m) = fds_add_fd (writes, m) (slave_write_fd io) in (reads, w, m))
                  else (let (r, m) = fds_add_fd (reads, m) (master_read_fd io) in (r, writes, m)));
               (reads, m) = fds_add_fd (fds_add_fd (fds_add_fd (reads, m) (log_fd g)) (ctl_fd p)) (x11_fd p)
           in Some (reads, writes)
         else if m \<le> 1 then None
         else Some (reads, writes))"

definition read_child_err :: "int list \<Rightarrow> io_std \<Rightarrow> io_std m" where
  "read_child_err read_fds io =
     (if fds_isset read_fds (slave_read_err_fd io) then
        bnd (read_retry (slave_read_err_fd io) BUFSIZ) (\<lambda>r.
        if r_ret r \<le> 0 then ret (io\<lparr>slave_read_err_fd := -1\<rparr>)
        else seq (xwrite_all (master_write_err_fd io) (take (nat (r_ret r)) (r_buf r))) (ret io))
      else ret io)"

definition read_child_out :: "int list \<Rightarrow> io_std \<Rightarrow> io_std m" where
  "read_child_out read_fds io =
     (if fds_isset read_fds (slave_read_out_fd io) then
        bnd (read_retry (slave_read_out_fd io) BUFSIZ) (\<lambda>r.
        if r_ret r \<le> 0 then ret (io\<lparr>slave_read_out_fd := -1\<rparr>)
        else seq (xwrite_all (master_write_out_fd io) (take (nat (r_ret r)) (r_buf r))) (ret io))
      else ret io)"

text \<open>\<open>None\<close> is \<open>return EXIT_FAILURE\<close>.\<close>

definition write_child_in :: "int list \<Rightarrow> io_std \<Rightarrow> io_std option m" where
  "write_child_in write_fds io =
     (if master_buf io \<noteq> [] \<and> fds_isset write_fds (slave_write_fd io) then
        bnd (write_loop (slave_write_fd io) (master_buf io)) (\<lambda>n.
        if n \<le> 0 then ret None
        else seq (set_par (total_bytes_read_update (\<lambda>t. t + word_of_nat (length (master_buf io)))))
               (ret (Some (io\<lparr>master_buf := drop (nat n) (master_buf io)\<rparr>))))
      else ret (Some io))"

definition read_tty_in :: "int list \<Rightarrow> io_std \<Rightarrow> io_std m" where
  "read_tty_in read_fds io =
     (if master_buf io = [] \<and> fds_isset read_fds (master_read_fd io) then
        bnd (read_retry (master_read_fd io) BUFSIZ) (\<lambda>r.
        if 0 < r_ret r then ret (io\<lparr>master_buf := take (nat (r_ret r)) (r_buf r)\<rparr>)
        else if r_ret r = 0 then ret (io\<lparr>master_buf := [CHR 0x04]\<rparr>)
        else ret (io\<lparr>master_read_fd := -1\<rparr>))
      else ret io)"

text \<open>The child's part of a round: its output, then its input; \<open>False\<close> when writing its input fails.\<close>

definition relay_child :: "int list \<Rightarrow> int list \<Rightarrow> io_std \<Rightarrow> (bool \<times> io_std) m" where
  "relay_child read_fds write_fds io =
     bnd (read_child_err read_fds io) (\<lambda>io.
     bnd (read_child_out read_fds io) (\<lambda>io.
     bnd (write_child_in write_fds io) (\<lambda>io_opt.
     case io_opt of
       None \<Rightarrow> ret (False, io)
     | Some io \<Rightarrow> bnd (read_tty_in read_fds io) (\<lambda>io. ret (True, io)))))"

definition handle_ctl :: "int list \<Rightarrow> unit m" where
  "handle_ctl read_fds =
     bnd (getg (ctl_fd \<circ> par)) (\<lambda>ctl.
     only_if (fds_isset read_fds ctl)
       (bnd handle_x11_ctl (\<lambda>fd.
        seq (set_par (x11_fd_update (\<lambda>_. fd)))
       (seq (only_if (fd < 0) (seq x11_closedir (error_msg (''X11 forwarding disabled'' @ [carriage_return]))))
       (bnd (getg (ctl_fd \<circ> par)) (\<lambda>c. bnd (xclose_to c) (\<lambda>c'. set_par (ctl_fd_update (\<lambda>_. c')))))))))"

text \<open>The result is whether to go on (\<open>EXIT_SUCCESS\<close>), and the descriptors and buffer.\<close>

definition handle_io :: "io_std \<Rightarrow> (bool \<times> io_std) m" where
  "handle_io io =
     bnd (getg (sigwinch_arrived \<circ> par)) (\<lambda>winch.
     seq (only_if winch
            (seq (set_par (sigwinch_arrived_update (\<lambda>_. False)))
                 (bnd (getg (pty_fd \<circ> par)) (\<lambda>pty. bnd (tty_copy_winsize 0 pty) (\<lambda>_. ret ())))))
    (bnd (getg (\<lambda>g. g)) (\<lambda>g.
     case select_sets g io of
       None \<Rightarrow> ret (False, io)
     | Some (read_fds0, write_fds0) \<Rightarrow>
         bnd (xselect read_fds0 write_fds0 (time_idle (wlimit (cf g)))) (\<lambda>r.
         if r_ret r = 0 then limit_exceeded ''idle time limit (%lu seconds) exceeded''
         else if r_ret r < 0 then ret (r_errno r = EINTR, io)
         else
           let read_fds = filter (\<lambda>fd. fd \<in> set (r_ints r)) read_fds0;
               write_fds = filter (\<lambda>fd. fd \<in> set (r_writable r)) write_fds0 in
           bnd (relay_child read_fds write_fds io) (\<lambda>(ok, io).
           if \<not> ok then ret (False, io)
           else
               seq (x11_handle_select read_fds write_fds)
              (seq (bnd (getg (x11_fd \<circ> par)) (\<lambda>fd. x11_handle_new fd read_fds))
              (seq (log_handle_select read_fds)
              (seq (bnd (getg log_fd) (\<lambda>fd. log_handle_new fd read_fds))
              (seq (handle_ctl read_fds)
                (ret (True, io)))))))))))"

subsection \<open>The handler\<close>

definition parent_round :: "io_std \<Rightarrow> (io_std + unit) m" where
  "parent_round io =
     bnd (getg par) (\<lambda>p.
     seq (work_limits_ok (total_bytes_read p) (total_bytes_written p))
    (bnd (handle_io io) (\<lambda>(ok, io'). ret (if ok then Inl io' else Inr ()))))"

definition handle_parent :: "int \<Rightarrow> int \<Rightarrow> int \<Rightarrow> int \<Rightarrow> int \<Rightarrow> int m" where
  "handle_parent a_child_pid a_pty_fd pipe_out pipe_err a_ctl_fd =
     seq (set_par (\<lambda>p. p\<lparr>pty_fd := a_pty_fd, ctl_fd := a_ctl_fd, child_pid := a_child_pid\<rparr>))
    (seq setup_sigchld_handler
    (bnd (sys_mi (Signal_ign SIGPIPE)) (\<lambda>_.
     bnd (getg (use_pty \<circ> cf)) (\<lambda>pty.
     let io = \<lparr>master_read_fd = if pty then 0 else -1, master_write_out_fd = 1,
               master_write_err_fd = if pty then -1 else 2,
               slave_read_out_fd = if pty then a_pty_fd else pipe_out,
               slave_read_err_fd = if pty then -1 else pipe_err,
               slave_write_fd = if pty then a_pty_fd else -1, master_buf = []\<rparr> in
     seq (only_if (0 \<le> a_pty_fd) (unblock_fd a_pty_fd))
    (seq (only_if (0 \<le> pipe_out) (unblock_fd pipe_out))
    (seq (only_if (0 \<le> pipe_err) (unblock_fd pipe_err))
    (bnd init_tty (\<lambda>tty.
     seq (if tty \<noteq> 0
          then bnd (tty_copy_winsize 0 a_pty_fd) (\<lambda>rc. only_if (rc = 0) setup_sigwinch_handler)
          else ret ())
    (seq (bnd (getg (time_elapsed \<circ> wlimit \<circ> cf)) (\<lambda>t. only_if (t \<noteq> 0) setup_timer))
    (seq (event_loop parent_round io)
    (bnd (getg (pty_fd \<circ> par)) (\<lambda>fd. bnd (xclose_to fd) (\<lambda>fd'.
     seq (set_par (pty_fd_update (\<lambda>_. fd')))
    (seq (dfl_signal_handler SIGWINCH)
    (seq wait_child
    (seq (dfl_signal_handler SIGCHLD)
    (seq forget_child
         (getg (child_rc \<circ> par)))))))))))))))))))"

subsection \<open>The parent makes harmless calls only\<close>

lemma harmless_terminal [harmless_fns]:
  "emits harmless restore_tty" "emits harmless init_tty" "emits harmless (tty_copy_winsize a b)"
  "emits harmless (open_pty chrooted verbose)"
proof -
  show "emits harmless restore_tty" "emits harmless init_tty" "emits harmless (tty_copy_winsize a b)"
    unfolding restore_tty_def init_tty_def tty_copy_winsize_def set_par_def
    by (intro inv_intros harmless_fns; simp add: harmless_def)+
  have c: "emits harmless (close_ptys a b)" for a b
    unfolding close_ptys_def by (intro inv_intros harmless_fns)
  have o: "emits harmless (open_ptmx d p verbose)" for d p
    unfolding open_ptmx_def Let_def by (intro inv_intros c; simp add: harmless_def)
  show "emits harmless (open_pty chrooted verbose)"
    unfolding open_pty_def open_pty_from_def Let_def
    by (intro inv_intros c o harmless_safe_chdir harmless_chdir; simp add: harmless_def)
qed

lemma harmless_logs [harmless_fns]:
  "emits harmless (xwrite_all fd s)" "emits harmless (fd_new fd)" "emits harmless (fd_free fd)"
  "emits harmless (log_handle_new fd fds)" "emits harmless (copy_log fd)" "emits harmless (log_handle_select fds)"
  unfolding xwrite_all_def fd_new_def fd_free_def log_handle_new_def copy_log_def log_handle_select_def
    set_par_def Let_def
  by (intro inv_intros harmless_fns; simp)+

lemma harmless_x11_relay [harmless_fns]:
  "emits harmless (io_x11_new a b)" "emits harmless (io_x11_free i io)" "emits harmless (x11_handle_new fd fds)"
  "emits harmless (io_check_auth_data io)" "emits harmless (flush_master fds i io)" "emits harmless (fill_master fds i io)"
  "emits harmless (flush_slave fds i io)" "emits harmless (fill_slave fds i io)"
  unfolding io_x11_new_def io_x11_free_def x11_handle_new_def io_check_auth_data_def flush_master_def
    fill_master_def flush_slave_def fill_slave_def store_io_def set_par_def Let_def
  by (intro inv_intros harmless_fns; simp)+

lemma harmless_x11_select [harmless_fns]: "emits harmless (x11_handle_select rd wr)"
  unfolding x11_handle_select_def x11_relay_def and_then_def by (intro inv_intros harmless_fns)

lemma runs_wait_status:
  "(\<And>n. runs R (f n)) \<Longrightarrow> (\<And>n. runs R (g n)) \<Longrightarrow> (\<And>n. runs R (h n)) \<Longrightarrow>
     runs R (case s of WExited n \<Rightarrow> f n | WSignaled n \<Rightarrow> g n | WOther n \<Rightarrow> h n)"
  by (cases s) auto

lemma harmless_handlers [harmless_fns]:
  "emits harmless (handle_signal s)" "emits harmless setup_timer" "emits harmless setup_sigwinch_handler"
  "emits harmless setup_sigchld_handler" "emits harmless (xselect rd wr t)" "emits harmless forget_child"
  "emits harmless wait_child"
proof -
  show h: "emits harmless (handle_signal s)" for s
    unfolding handle_signal_def sigchld_handler_def sigalrm_handler_def sigwinch_handler_def set_par_def
    by (intro inv_intros runs_wait_status harmless_fns) simp_all
  show "emits harmless setup_timer" "emits harmless setup_sigwinch_handler"
    "emits harmless setup_sigchld_handler" "emits harmless (xselect rd wr t)" "emits harmless forget_child"
    "emits harmless wait_child"
    unfolding setup_timer_def setup_sigwinch_handler_def setup_sigchld_handler_def xselect_def forget_child_def
      wait_child_def set_par_def
    by (intro inv_intros h harmless_fns; simp add: harmless_def)+
qed

lemma harmless_round [harmless_fns]: "emits harmless (parent_round io)"
proof -
  have l: "emits harmless (limit_exceeded s)" for s
    unfolding limit_exceeded_def by (intro inv_intros harmless_fns) (simp add: harmless_def)
  have x: "emits harmless handle_x11_ctl"
    unfolding handle_x11_ctl_def put_cr_def set_par_def Let_def by (intro inv_intros harmless_fns) (simp_all add: harmless_def)
  have "emits harmless (handle_io io)" for io
    unfolding handle_io_def relay_child_def read_child_err_def read_child_out_def write_child_in_def read_tty_in_def
      handle_ctl_def set_par_def Let_def
    by (intro inv_intros l x harmless_fns) simp_all
  then show ?thesis
    unfolding parent_round_def work_limits_ok_def by (intro inv_intros l)
qed

lemma harmless_parent [harmless_fns]: "emits harmless (handle_parent pid pty out err ctl)"
  unfolding handle_parent_def set_par_def Let_def
  by (intro inv_intros harmless_fns; simp add: harmless_def)


subsection \<open>Limits end the job\<close>

definition over_limit :: "globals \<Rightarrow> u64 \<Rightarrow> u64 \<Rightarrow> bool" where
  "over_limit g b_read b_written \<longleftrightarrow>
     (let l = wlimit (cf g) in
      sigalrm_arrived (par g) \<or> (bytes_read l \<noteq> 0 \<and> bytes_read l \<le> b_read)
        \<or> (bytes_written l \<noteq> 0 \<and> bytes_written l \<le> b_written))"

text \<open>The state in which the parent leaves: it has no child, and the terminal is as it was.\<close>

definition left_clean :: "world \<Rightarrow> bool" where
  "left_clean w \<longleftrightarrow> child_pid (par (gl w)) = 0 \<and> \<not> tty_is_saved (par (gl w))"

lemma forget_child_wp:
  "wp forget_child (\<lambda>_ v. child_pid (par (gl v)) = 0 \<and> cf (gl v) = cf (gl w)) E w"
  unfolding forget_child_def set_par_def by (simp add: wp_simps only_if_def)

lemma limit_exceeded_wp:
  "wp (limit_exceeded s) Q (\<lambda>st v. (st = Exit 143 \<or> st = Blocked) \<and> left_clean v) w"
  unfolding limit_exceeded_def forget_child_def restore_tty_def set_par_def only_if_def left_clean_def
  by (simp add: wp_simps split: list.split)

text \<open>
  C30: the work limits are enforced in every round: the check passes, without any effect, exactly
  when no limit is exceeded; otherwise the parent forgets the child, restores the terminal and
  exits with status 143 (unless it is waiting for the terminal).
\<close>

theorem work_limits_enforced:
  "(case work_limits_ok b_read b_written w of
      (Ret _, v) \<Rightarrow> v = w \<and> \<not> over_limit (gl w) b_read b_written
    | (Stop st, v) \<Rightarrow> over_limit (gl w) b_read b_written \<and> (st = Exit 143 \<or> st = Blocked) \<and> left_clean v)"
proof -
  have l: "wp (limit_exceeded s) (\<lambda>_ _. False) (\<lambda>st v. (st = Exit 143 \<or> st = Blocked) \<and> left_clean v) w" for s
    by (rule limit_exceeded_wp)
  have "wp (work_limits_ok b_read b_written) (\<lambda>_ v. v = w \<and> \<not> over_limit (gl w) b_read b_written)
      (\<lambda>st v. over_limit (gl w) b_read b_written \<and> (st = Exit 143 \<or> st = Blocked) \<and> left_clean v) w"
    unfolding work_limits_ok_def
    by (auto simp: wp_simps over_limit_def Let_def intro!: wp_conseq [OF l])
  then show ?thesis by (simp add: wp_def)
qed

subsection \<open>The exit status of the child\<close>

text \<open>The status with which \<open>waitpid\<close> has reported the process \<open>pid\<close>, if it has.\<close>

fun wait_step :: "int \<Rightarrow> call \<times> reply \<Rightarrow> wait_status option \<Rightarrow> wait_status option" where
  "wait_step pid (Pr (Waitpid p nohang), r) s = (if p = pid \<and> r_ret r = pid then Some (r_status r) else s)"
| "wait_step _ _ s = s"

definition waited :: "int \<Rightarrow> trace \<Rightarrow> wait_status option" where
  "waited pid t = foldr (wait_step pid) t None"

lemma waited_simps [simp]: "waited pid [] = None" "waited pid (x # t) = wait_step pid x (waited pid t)"
  by (simp_all add: waited_def)

fun exit_code :: "wait_status \<Rightarrow> int" where
  "exit_code (WExited n) = int n"
| "exit_code (WSignaled n) = 128 + int n"
| "exit_code (WOther _) = 255"

definition no_wait :: "call \<Rightarrow> bool" where
  "no_wait c \<longleftrightarrow> (case c of Pr p \<Rightarrow> (case p of Waitpid _ _ \<Rightarrow> False | _ \<Rightarrow> True) | _ \<Rightarrow> True)"

lemma no_wait_step: "no_wait c \<Longrightarrow> wait_step pid (c, r) s = s"
  by (cases "(pid, (c, r), s)" rule: wait_step.cases) (auto simp: no_wait_def)

text \<open>Code that does not wait for a process and leaves the child's variables alone.\<close>

definition same_child :: "int \<Rightarrow> world \<Rightarrow> world \<Rightarrow> bool" where
  "same_child pid w w' \<longleftrightarrow>
     child_pid (par (gl w')) = child_pid (par (gl w)) \<and> child_rc (par (gl w')) = child_rc (par (gl w))
     \<and> waited pid (trace w') = waited pid (trace w)"

definition spares_child :: "(globals \<Rightarrow> globals) \<Rightarrow> bool" where
  "spares_child f \<longleftrightarrow> (\<forall>g. child_pid (par (f g)) = child_pid (par g) \<and> child_rc (par (f g)) = child_rc (par g))"

interpretation sc: run_property "same_child pid" no_wait spares_child for pid
  by unfold_locales (auto simp: same_child_def spares_child_def no_wait_step no_wait_def)

named_theorems spares \<open>functions that do not concern the child\<close>

lemma spares_io [spares]:
  "runs (same_child pid) (read_retry fd n)" "runs (same_child pid) (write_loop fd s)"
  "runs (same_child pid) (fd_recv c n k)" "runs (same_child pid) (xclose_to fd)" "runs (same_child pid) (close_fd fd)"
  "runs (same_child pid) (unblock_fd fd)" "runs (same_child pid) (unix_accept fd)"
  "runs (same_child pid) (x11_check_listen fd)" "runs (same_child pid) x11_closedir"
  "runs (same_child pid) (block_signal_handler sig b)" "runs (same_child pid) (dfl_signal_handler sig)"
  unfolding read_retry_def write_loop_def fd_recv_def xclose_to_def close_fd_def xclose_def unblock_fd_def write_retry_def
    recvmsg_retry_def unix_accept_def x11_check_listen_def x11_closedir_def block_signal_handler_def
    dfl_signal_handler_def xsigprocmask_def put_cr_def set_x11_def x11_drop_display_def xsprintf_def Let_def
  by (intro sc.rules runs_cases; simp add: no_wait_def spares_child_def)+

lemma spares_connect [spares]: "runs (same_child pid) x11_connect"
proof -
  have c: "runs (same_child pid) (connect_first ais fd)" for ais fd
    by (induction ais fd rule: connect_first.induct)
      (auto simp: xclose_to_def xclose_def no_wait_def intro!: sc.rules runs_cases)
  show ?thesis
    unfolding x11_connect_def x11_connect_unix_def x11_connect_inet_def put_cr_def xsprintf_def Let_def
    by (intro sc.rules runs_cases c spares runs_method; simp add: no_wait_def)
qed

lemma spares_relay [spares]:
  "runs (same_child pid) (x11_handle_select rd wr)" "runs (same_child pid) (x11_handle_new fd rd)"
  "runs (same_child pid) (log_handle_select rd)" "runs (same_child pid) (log_handle_new fd rd)"
  "runs (same_child pid) (xwrite_all fd s)"
proof -
  show x: "runs (same_child pid) (xwrite_all fd s)" for fd s
    unfolding xwrite_all_def set_par_def by (intro sc.rules runs_cases spares) (simp_all add: spares_child_def)
  show "runs (same_child pid) (x11_handle_select rd wr)" "runs (same_child pid) (x11_handle_new fd rd)"
    unfolding x11_handle_select_def x11_relay_def and_then_def flush_master_def fill_master_def flush_slave_def
      fill_slave_def io_x11_free_def store_io_def io_check_auth_data_def x11_handle_new_def io_x11_new_def
      set_par_def Let_def
    by (intro sc.rules runs_cases spares; simp add: spares_child_def)+
  show "runs (same_child pid) (log_handle_select rd)" "runs (same_child pid) (log_handle_new fd rd)"
    unfolding log_handle_select_def copy_log_def fd_free_def log_handle_new_def fd_new_def set_par_def Let_def
    by (intro sc.rules runs_cases spares x; simp add: spares_child_def)+
qed

lemma spares_terminal [spares]:
  "runs (same_child pid) restore_tty" "runs (same_child pid) init_tty" "runs (same_child pid) (tty_copy_winsize a b)"
  "runs (same_child pid) setup_timer" "runs (same_child pid) setup_sigwinch_handler"
  "runs (same_child pid) setup_sigchld_handler"
  unfolding restore_tty_def init_tty_def tty_copy_winsize_def setup_timer_def setup_sigwinch_handler_def
    setup_sigchld_handler_def nullify_stdin_def xclose_def set_par_def Let_def
  by (intro sc.rules runs_cases spares; simp add: no_wait_def spares_child_def)+

lemma spares_stages [spares]:
  "runs (same_child pid) (read_child_err rd io)" "runs (same_child pid) (read_child_out rd io)"
  "runs (same_child pid) (write_child_in wr io)" "runs (same_child pid) (read_tty_in rd io)"
  "runs (same_child pid) (handle_ctl rd)"
proof -
  have x: "runs (same_child pid) handle_x11_ctl"
    unfolding handle_x11_ctl_def put_cr_def set_par_def Let_def
    by (intro sc.rules runs_cases spares) (simp_all add: no_wait_def spares_child_def)
  show "runs (same_child pid) (read_child_err rd io)" "runs (same_child pid) (read_child_out rd io)"
    "runs (same_child pid) (write_child_in wr io)" "runs (same_child pid) (read_tty_in rd io)"
    "runs (same_child pid) (handle_ctl rd)"
    unfolding read_child_err_def read_child_out_def write_child_in_def read_tty_in_def handle_ctl_def set_par_def
    by (intro sc.rules runs_cases spares x; simp add: spares_child_def)+
qed

text \<open>
  The invariant: as long as the child has not been waited for, it is known by its pid and no status
  is recorded; afterwards its status is recorded, once.
\<close>

definition child_known :: "int \<Rightarrow> world \<Rightarrow> bool" where
  "child_known pid w \<longleftrightarrow>
     (case waited pid (trace w) of
        None \<Rightarrow> child_pid (par (gl w)) = pid \<and> child_rc (par (gl w)) = 0
      | Some s \<Rightarrow> child_pid (par (gl w)) = 0 \<and> child_rc (par (gl w)) = exit_code s)"

lemma same_child_known: "runs (same_child pid) m \<Longrightarrow> child_known pid w \<Longrightarrow> pc m (\<lambda>_. child_known pid) w"
  by (erule pc_runs) (auto simp: same_child_def child_known_def split: option.splits)

lemma waited_interrupted:
  "\<forall>f \<in> set fails. interrupted f \<Longrightarrow> 0 < pid \<Longrightarrow> waited pid (map (Pair (Pr (Waitpid pid b))) fails @ t) = waited pid t"
  by (induction fails) (auto simp: interrupted_def)

lemma sigchld_known:
  assumes "0 < pid" and "child_known pid w"
  shows "pc sigchld_handler (\<lambda>_. child_known pid) w"
proof (cases "child_pid (par (gl w)) = 0")
  case True
  then show ?thesis using assms(2) by (simp add: sigchld_handler_def wp_simps)
next
  case False
  with assms(2) have w: "waited pid (trace w) = None" "child_pid (par (gl w)) = pid" "child_rc (par (gl w)) = 0"
    by (auto simp: child_known_def split: option.splits)
  show ?thesis
    unfolding sigchld_handler_def waitpid_retry_def set_par_def
    using assms(1)
    apply (simp add: wp_simps w)
    apply (rule wp_retry)
     apply (auto simp: wp_simps child_known_def waited_interrupted w only_if_def split: wait_status.split)
    done
qed

lemma signals_known:
  assumes "0 < pid" and "child_known pid w"
  shows "pc (for_each ss handle_signal) (\<lambda>_. child_known pid) w"
proof (rule pc_for_each [where I = "child_known pid", OF assms(2)])
  fix s v assume v: "child_known pid v"
  have "spares_child (par_update (sigalrm_arrived_update (\<lambda>_. True)))"
    "spares_child (par_update (sigwinch_arrived_update (\<lambda>_. True)))" by (simp_all add: spares_child_def)
  then have "runs (same_child pid) sigalrm_handler" "runs (same_child pid) sigwinch_handler"
    unfolding sigalrm_handler_def sigwinch_handler_def set_par_def by (simp_all add: sc.modg)
  then show "pc (handle_signal s) (\<lambda>_. child_known pid) v"
    unfolding handle_signal_def by (auto intro!: sigchld_known [OF assms(1) v] same_child_known [OF _ v] pc_comb(3) v)
qed

lemma pc_event_loop:
  assumes "I s w" and "\<And>s w. I s w \<Longrightarrow> pc (body s) (\<lambda>x v. case x of Inl s' \<Rightarrow> I s' v | Inr r \<Rightarrow> Q r v) w"
  shows "pc (event_loop body s) Q w"
  using wp_loop [where I = I and body = body, OF assms(2) _ assms(1)]
  by (simp add: event_loop_def wp_def del: loop.simps)

lemma limit_exceeded_pc: "pc (limit_exceeded s) Q w"
  by (rule wp_conseq [OF limit_exceeded_wp]) simp_all

lemma xselect_known: "0 < pid \<Longrightarrow> child_known pid w \<Longrightarrow> pc (xselect rd wr t) (\<lambda>_. child_known pid) w"
  unfolding xselect_def sys_fd_def
  by (intro pc_comb pc_sys wp_conseq [OF signals_known])
    (auto simp: child_known_def split: option.splits)

lemma handle_io_known:
  assumes "0 < pid" and "child_known pid w"
  shows "pc (handle_io io) (\<lambda>_. child_known pid) w"
proof -
  have keep: "\<And>v. runs (same_child pid) m \<Longrightarrow> child_known pid v \<Longrightarrow> (\<And>x u. child_known pid u \<Longrightarrow> Q x u) \<Longrightarrow> pc m Q v"
    for m :: "'b m" and Q by (rule wp_conseq [OF same_child_known]) auto
  have winch: "runs (same_child pid) (only_if b (seq (set_par (sigwinch_arrived_update (\<lambda>_. False)))
      (bnd (getg (pty_fd \<circ> par)) (\<lambda>pty. bnd (tty_copy_winsize 0 pty) (\<lambda>_. ret ())))))" for b
    unfolding set_par_def by (intro sc.rules spares) (simp add: spares_child_def)
  have rest: "runs (same_child pid) (bnd (relay_child rd wr io) (\<lambda>(ok, io).
      if \<not> ok then ret (False, io)
      else seq (x11_handle_select rd wr)
          (seq (bnd (getg (x11_fd \<circ> par)) (\<lambda>fd. x11_handle_new fd rd))
          (seq (log_handle_select rd)
          (seq (bnd (getg log_fd) (\<lambda>fd. log_handle_new fd rd))
          (seq (handle_ctl rd)
            (ret (True, io))))))))" for rd wr
    unfolding relay_child_def by (intro sc.rules runs_cases spares)
  show ?thesis
    unfolding handle_io_def
    apply (intro pc_comb keep [OF winch] assms)
    apply (rule pc_cases(1))
     apply (simp add: wp_ret)
    apply (rule pc_cases(3))
    apply (rule pc_comb(1), rule wp_conseq [OF xselect_known [OF assms(1)]])
      apply assumption
     apply (intro pc_comb(7) limit_exceeded_pc pc_comb(3), assumption)
     apply (unfold Let_def)
     apply (erule same_child_known [OF rest])
    apply simp
    done
qed

lemma round_known:
  assumes "0 < pid" and "child_known pid w"
  shows "pc (parent_round io) (\<lambda>x v. case x of Inl _ \<Rightarrow> child_known pid v | Inr _ \<Rightarrow> child_known pid v) w"
proof -
  have limits: "pc (work_limits_ok a b) (\<lambda>_ v. v = w) w" for a b
    unfolding work_limits_ok_def by (intro pc_comb limit_exceeded_pc) simp
  show ?thesis
    unfolding parent_round_def
    apply (intro pc_comb, rule wp_conseq [OF limits])
     apply (auto simp: wp_simps intro!: wp_conseq [OF handle_io_known [OF assms]])
    done
qed

lemma wait_child_known:
  assumes "0 < pid" and "child_known pid w"
  shows "pc wait_child (\<lambda>_. child_known pid) w"
proof -
  have sys: "pc (sys_mi c) (\<lambda>_. child_known pid) v" if "child_known pid v" for c v
    using that by (auto intro!: same_child_known sc.sys_mi simp: no_wait_def)
  show ?thesis
    unfolding wait_child_def
    apply (intro pc_comb wp_conseq [OF sys [OF assms(2)]] pc_stops)
     apply (rule wp_conseq [OF signals_known [OF assms(1)]], assumption)
      apply (rule pc_for_each [where I = "child_known pid"], assumption)
       apply (intro pc_comb pc_only_if wp_conseq [OF sys], assumption)
         apply (rule signals_known [OF assms(1)], assumption+)
    done
qed

text \<open>
  C31: the exit status of a chroot job is that of the child: the code it exited with, 128 plus the
  number of the signal that killed it, 255 for another status that \<open>waitpid\<close> reports for it; or 143 when
  the child has not been waited for by the time the parent gives up.
\<close>

theorem handle_parent_status:
  "(case handle_parent (1 + int n) pty out err ctl (start (g\<lparr>par := parent_state_init\<rparr>) [] rs) of
      (Ret rc, v) \<Rightarrow> rc = (case waited (1 + int n) (trace v) of Some s \<Rightarrow> exit_code s | None \<Rightarrow> 143)
    | (Stop _, _) \<Rightarrow> True)"
proof (rule pc_case)
  let ?pid = "1 + int n" and ?w = "start (g\<lparr>par := parent_state_init\<rparr>) [] rs"
  let ?set = "\<lambda>p. p\<lparr>pty_fd := pty, ctl_fd := ctl, child_pid := ?pid\<rparr>"
  have pid: "0 < ?pid" by simp
  have w: "child_known ?pid (?w\<lparr>gl := par_update ?set (gl ?w)\<rparr>)"
    by (simp add: child_known_def start_def parent_state_init_def)
  have kbnd: "pc (bnd m k) Q v"
    if "runs (same_child ?pid) m" "child_known ?pid v" "\<And>x u. child_known ?pid u \<Longrightarrow> pc (k x) Q u" for m :: "'b m" and k :: "'b \<Rightarrow> 'c m" and Q v
    unfolding wp_bnd by (rule wp_conseq [OF same_child_known [OF that(1,2)]]) (simp_all add: that(3))
  have kseq: "pc (seq m k) Q v"
    if "runs (same_child ?pid) m" "child_known ?pid v" "\<And>u. child_known ?pid u \<Longrightarrow> pc k Q u" for m :: "unit m" and k :: "'c m" and Q v
    unfolding seq_def by (rule kbnd [OF that(1,2)]) (rule that(3))
  have u: "runs (same_child ?pid) (only_if b (unblock_fd fd))" for b fd
    by (intro sc.rules spares)
  have t: "runs (same_child ?pid) (if tty \<noteq> (0 :: int) then bnd (tty_copy_winsize 0 pty) (\<lambda>rc. only_if (rc = 0) setup_sigwinch_handler) else ret ())"
    and s: "runs (same_child ?pid) (bnd (getg (time_elapsed \<circ> wlimit \<circ> cf)) (\<lambda>t. only_if (t \<noteq> 0) setup_timer))" for tty
    by (intro sc.rules runs_cases spares)+
  have sig: "runs (same_child ?pid) (sys_mi (Signal_ign SIGPIPE))" by (rule sc.sys_mi) (simp add: no_wait_def)
  have c: "runs (same_child ?pid) (set_par (pty_fd_update (\<lambda>_. fd)))" for fd
    unfolding set_par_def by (rule sc.modg) (simp add: spares_child_def)
  have loop: "pc (event_loop parent_round io) (\<lambda>_. child_known ?pid) v" if "child_known ?pid v" for io v
    by (rule pc_event_loop [where I = "\<lambda>_. child_known ?pid"]) (use that round_known [OF pid] in auto)
  have fin: "pc (seq forget_child (getg (child_rc \<circ> par)))
      (\<lambda>rc v. rc = (case waited ?pid (trace v) of Some s \<Rightarrow> exit_code s | None \<Rightarrow> 143)) v"
    if "child_known ?pid v" for v
    using that unfolding forget_child_def set_par_def child_known_def
    by (auto simp: wp_simps only_if_def split: option.splits)
  show "pc (handle_parent ?pid pty out err ctl)
      (\<lambda>rc v. rc = (case waited ?pid (trace v) of Some s \<Rightarrow> exit_code s | None \<Rightarrow> 143)) ?w"
    unfolding handle_parent_def Let_def
    apply (rule pc_comb(2), subst set_par_def, rule pc_comb(5))
    apply (rule kseq [OF spares_terminal(6) w])
    apply (rule kbnd [OF sig], assumption)
    apply (rule kbnd [OF sc.getg], assumption)
    apply (rule kseq [OF u], assumption)+
    apply (rule kbnd [OF spares_terminal(2)], assumption)
    apply (rule kseq [OF t], assumption)
    apply (rule kseq [OF s], assumption)
    apply (rule pc_comb(2), rule wp_conseq [OF loop], assumption)
     apply (rule kbnd [OF sc.getg], assumption)
     apply (rule kbnd [OF spares_io(4)], assumption)
     apply (rule kseq [OF c], assumption)
     apply (rule kseq [OF spares_io(11)], assumption)
     apply (rule pc_comb(2), rule wp_conseq [OF wait_child_known [OF pid]], assumption)
      apply (rule kseq [OF spares_io(11)], assumption)
      apply (erule fin)
     apply simp_all
    done
qed

end
