(* ===== verification/Killuid.thy ===== *)
theory Killuid
  imports Trace_Logic Harmless
begin

text \<open>
  Killing what user1 and user2 have left behind: killuid.c, spawn_killuid.c and ipc.c; and the
  two trivial jobs of getconf.c and getugid.c.
\<close>

subsection \<open>System V IPC (ipc.c)\<close>

text \<open>
  \<open>purge_sem\<close>, \<open>purge_shm\<close> and \<open>purge_msg\<close> are the same code over different calls. The owner of
  an object is in the reply's \<open>st_uid\<close>.
\<close>

definition purge_kind :: "sysv_kind \<Rightarrow> string \<Rightarrow> u32 \<Rightarrow> u32 \<Rightarrow> unit m" where
  "purge_kind kind info uid1 uid2 =
     bnd (sys_mi (Sysv_info kind)) (\<lambda>r.
     if r_ret r < 0 then perror_msg info
     else for_each [0..r_ret r] (\<lambda>id.
       bnd (sys_mi (Sysv_stat kind id)) (\<lambda>r.
       if r_ret r < 0 then ret ()
       else if uid1 \<noteq> st_uid (r_stat r) \<and> uid2 \<noteq> st_uid (r_stat r) then ret ()
       else bnd (sys_mi (Sysv_rmid kind (r_ret r))) (\<lambda>_. ret ()))))"

definition purge_sem :: "u32 \<Rightarrow> u32 \<Rightarrow> unit m" where "purge_sem = purge_kind Sem ''SEM_INFO''"
definition purge_shm :: "u32 \<Rightarrow> u32 \<Rightarrow> unit m" where "purge_shm = purge_kind Shm ''SHM_INFO''"
definition purge_msg :: "u32 \<Rightarrow> u32 \<Rightarrow> unit m" where "purge_msg = purge_kind Msg ''MSG_INFO''"

definition purge_ipc :: "u32 \<Rightarrow> u32 \<Rightarrow> unit m" where
  "purge_ipc uid1 uid2 = seq (purge_sem uid1 uid2) (seq (purge_shm uid1 uid2) (purge_msg uid1 uid2))"

subsection \<open>Killing (killuid.c)\<close>

definition raise_rlimit_nproc :: "unit m" where
  "raise_rlimit_nproc =
     bnd (sys_pr (Getrlimit RLIMIT_NPROC)) (\<lambda>r.
     if r_ret r \<noteq> 0 then perror_msg_and_die ''getrlimit''
     else bnd (sys_pr (Setrlimit RLIMIT_NPROC RLIM_INFINITY RLIM_INFINITY)) (\<lambda>_. ret ()))"

definition do_killuid :: "int m" where
  "do_killuid =
     bnd (sys_pr Getuid) (\<lambda>r. bnd (getg sv) (\<lambda>s. bnd (getg cf) (\<lambda>c.
     let u = word_of_int (r_ret r); uid1 = change_uid1 c; uid2 = change_uid2 c in
     if \<not> valid_uid s uid1 \<or> uid1 = u then error_msg_and_die ''invalid uid: %u''
     else if \<not> valid_uid s uid2 \<or> uid2 = u then error_msg_and_die ''invalid uid: %u''
     else seq raise_rlimit_nproc
     (bnd (sys_pr (Prctl_set_dumpable 0)) (\<lambda>r.
      if r_ret r \<noteq> 0 then perror_msg_and_die ''prctl PR_SET_DUMPABLE''
      else bnd (sys_pr (Setreuid uid1 uid2)) (\<lambda>r.
      if r_ret r < 0 then perror_msg_and_die ''setreuid''
      else bnd (sys_pr (Kill (-1) SIGKILL)) (\<lambda>r.
      if r_ret r \<noteq> 0 then perror_msg_and_die ''kill''
      else seq (purge_ipc uid1 uid2)
      (bnd (sys_pr (Setreuid uid2 uid1)) (\<lambda>r.
      if r_ret r < 0 then perror_msg_and_die ''setreuid''
      else seq (purge_ipc uid1 uid2) (ret 0))))))))))"

subsection \<open>In a process of its own (spawn_killuid.c)\<close>

definition spawn_killuid :: "unit m" where
  "spawn_killuid =
     bnd (sys_pr Fork) (\<lambda>r.
     if r_ret r < 0 then perror_msg_and_die ''fork''
     else if r_ret r = 0 then bnd do_killuid c_exit
     else bnd (waitpid_retry (r_ret r) False) (\<lambda>r.
     if r_ret r < 0 then perror_msg_and_die ''waitpid''
     else case r_status r of
       WExited rc \<Rightarrow> if rc = 0 then ret () else error_msg_and_die ''exit status %d''
     | WSignaled _ \<Rightarrow> error_msg_and_die ''terminated by signal %d''
     | WOther _ \<Rightarrow> error_msg_and_die ''unrecognized status %#x''))"

subsection \<open>Printing the configuration (getconf.c, getugid.c)\<close>

definition do_getconf :: "int m" where
  "do_getconf =
     bnd (getg (caller_config_file_name \<circ> cf)) (\<lambda>name.
     seq (emit (Mi (Printf (''/etc/hasher-priv/user.d'' @ ''/'' @
            (case name of None \<Rightarrow> ''(null)'' | Some n \<Rightarrow> n) @ [newline])))) (ret 0))"

definition print_ids :: "u32 \<Rightarrow> u32 \<Rightarrow> int m" where
  "print_ids uid gid =
     seq (emit (Mi (Printf (fmt_u (unat uid) @ '':'' @ fmt_u (unat gid) @ [newline])))) (ret 0)"

definition do_getugid1 :: "int m" where
  "do_getugid1 = bnd (getg cf) (\<lambda>c. print_ids (change_uid1 c) (change_gid1 c))"

definition do_getugid2 :: "int m" where
  "do_getugid2 = bnd (getg cf) (\<lambda>c. print_ids (change_uid2 c) (change_gid2 c))"

subsection \<open>Nothing else is killed or removed\<close>

text \<open>
  A signal goes to every process the sender may signal, and the sender's real and effective
  uid are the two given ones; a System V object is removed only after it was found to belong to
  one of the two.
\<close>

fun killing_ok :: "globals \<Rightarrow> trace \<Rightarrow> bool" where
  "killing_ok g [] = True"
| "killing_ok g ((c, r) # t) =
     (killing_ok g t \<and>
      (let uid1 = change_uid1 (cf g); uid2 = change_uid2 (cf g) in
       case c of
         Pr p \<Rightarrow>
           (case p of
              Kill pid s \<Rightarrow>
                pid = -1 \<and> s = SIGKILL \<and> uids_of t = Some (uid1, uid2)
                \<and> valid_uid (sv g) uid1 \<and> valid_uid (sv g) uid2
                \<and> list_ex (\<lambda>(c, r). c = Pr Getuid \<and> word_of_int (r_ret r) \<notin> {uid1, uid2}) t
            | _ \<Rightarrow> True)
       | Mi m \<Rightarrow>
           (case m of
              Sysv_rmid kind obj \<Rightarrow>
                (case t of
                   (Mi (Sysv_stat kind' i), q) # _ \<Rightarrow> kind' = kind \<and> r_ret q = obj \<and> st_uid (r_stat q) \<in> {uid1, uid2}
                 | _ \<Rightarrow> False)
            | _ \<Rightarrow> True)
       | _ \<Rightarrow> True))"

interpretation killing: trace_safety "killing_ok g" for g
  by unfold_locales simp

lemma purge_kind_safe:
  assumes "killing_ok g (trace w)"
  shows "killing.safe g (purge_kind k i (change_uid1 (cf g)) (change_uid2 (cf g))) w"
  unfolding purge_kind_def
  by (intro killing.step_family killing.branch killing.for_each_safe killing.returns_safe killing.messages)
    (auto simp: assms Let_def)

lemma purge_ipc_safe:
  assumes "killing_ok g (trace w)"
  shows "killing.safe g (purge_ipc (change_uid1 (cf g)) (change_uid2 (cf g))) w"
  unfolding purge_ipc_def purge_sem_def purge_shm_def purge_msg_def
  by (intro killing.compose_seq purge_kind_safe assms)

lemma do_killuid_safe:
  assumes "killing_ok g (trace w)" and "gl w = g"
  shows "killing.safe g do_killuid w"
  unfolding do_killuid_def raise_rlimit_nproc_def
  apply (simp add: monad_norm Let_def assms(2) cong: if_cong)
  apply (intro killing.step_family killing.get killing.branch killing.dies killing.compose_seq killing.returns_safe)
                   apply (simp_all add: assms Let_def)
   apply (metis (no_types, lifting))
   apply (rule purge_ipc_safe, simp add: assms Let_def, metis)
  apply (rule purge_ipc_safe, simp)
  done

text \<open>
  C21: do_killuid signals processes only when it runs as change_user1 (real uid) and change_user2
  (effective uid), both of them valid uids (at least the configured minimum) other than the uid
  of the caller, and then with SIGKILL to all of them; and a System V object is removed only
  right after the kernel reported one of the two as its owner.
\<close>

theorem do_killuid_targets:
  "killing_ok g (trace (snd (do_killuid (start g [] rs))))"
  using do_killuid_safe [of g "start g [] rs"] by (simp add: killing.safe_def start_def)

end
