(* ===== verification/Namespaces.thy ===== *)
theory Namespaces
  imports Trace_Logic Harmless
begin

text \<open>
  The namespaces and the control group of a job: entering the caller's namespaces (ns.c),
  isolating the job (unshare.c, net.c) and joining the caller's cgroup (cgroup.c).
\<close>

subsection \<open>Entering the namespaces of the caller (ns.c)\<close>

definition CLONE_NEWNS :: u32 where "CLONE_NEWNS = 0x00020000"
definition CLONE_NEWUTS :: u32 where "CLONE_NEWUTS = 0x04000000"
definition CLONE_NEWIPC :: u32 where "CLONE_NEWIPC = 0x08000000"
definition CLONE_NEWNET :: u32 where "CLONE_NEWNET = 0x40000000"

definition open_proc_ns_fd :: "int \<Rightarrow> u32 \<Rightarrow> int m" where
  "open_proc_ns_fd pid uid =
     bnd (open_proc_fd pid uid) (\<lambda>proc_fd.
     bnd (sys_fs (Openat proc_fd ''ns'' [O_RDONLY, O_DIRECTORY, O_CLOEXEC])) (\<lambda>r.
     let ns_fd = r_ret r in
     if ns_fd < 0 then perror_msg_and_die ''open: /proc/%u/%s''
     else seq (close_fd proc_fd) (ret ns_fd)))"

text \<open>
  The array \<open>enter_ns\<close>: the names of the namespaces that may differ, their types, and the
  descriptors of those that do.
\<close>

definition ns_types :: "(string \<times> u32) list" where
  "ns_types = [(''mnt'', CLONE_NEWNS), (''ipc'', CLONE_NEWIPC), (''uts'', CLONE_NEWUTS), (''net'', CLONE_NEWNET)]"

definition enter_ns_init :: "(string \<times> u32 \<times> int) list" where
  "enter_ns_init = map (\<lambda>(name, ty). (name, ty, -1)) ns_types"

definition DT_LNK :: int where "DT_LNK = 10"

text \<open>
  One round of the directory scan. The reply to \<open>readdir\<close> has the name in \<open>r_buf\<close> and the
  entry's type in \<open>r_ints\<close>; a return value of 0 is the end of the directory.
\<close>

definition compare_ns ::
    "int \<Rightarrow> int \<Rightarrow> (string \<times> u32 \<times> int) list \<Rightarrow> ((string \<times> u32 \<times> int) list + (string \<times> u32 \<times> int) list) m" where
  "compare_ns pid_ns_fd self_ns_fd enter_ns =
     bnd (sys_fs Readdir) (\<lambda>d.
     if r_ret d = 0 then ret (Inr enter_ns)
     else if r_ints d \<noteq> [DT_LNK] then ret (Inl enter_ns)
     else bnd (sys_fs (Fstatat self_ns_fd (r_buf d))) (\<lambda>self.
     if r_ret self \<noteq> 0 then perror_msg_and_die ''fstatat: %s/%s''
     else bnd (sys_fs (Fstatat pid_ns_fd (r_buf d))) (\<lambda>pid.
     if r_ret pid \<noteq> 0 then perror_msg_and_die ''fstatat: /proc/%u/%s/%s''
     else if st_dev (r_stat self) = st_dev (r_stat pid) \<and> st_ino (r_stat self) = st_ino (r_stat pid)
     then ret (Inl enter_ns)
     else if r_buf d \<in> set (map fst enter_ns) then
       bnd (sys_fs (Openat pid_ns_fd (r_buf d) [O_RDONLY, O_CLOEXEC])) (\<lambda>o_r.
       ret (Inl (map (\<lambda>(name, ty, fd). (name, ty, if name = r_buf d then r_ret o_r else fd)) enter_ns)))
     else perror_msg_and_die ''%s namespace mismatch'')))"

definition enter_one :: "string \<times> u32 \<times> int \<Rightarrow> unit m" where
  "enter_one e = (case e of (name, ty, fd) \<Rightarrow>
     if fd < 0 then ret ()
     else bnd (sys_pr (Setns fd ty)) (\<lambda>r.
       if r_ret r \<noteq> 0 then perror_msg_and_die ''setns: %s'' else close_fd fd))"

definition setup_ns :: "int \<Rightarrow> u32 \<Rightarrow> unit m" where
  "setup_ns pid uid =
     bnd (open_proc_ns_fd pid uid) (\<lambda>pid_ns_fd.
     bnd (sys_fs (Opendir ''/proc/self/ns'')) (\<lambda>r.
     if r_ret r = 0 then perror_msg_and_die ''opendir: %s''
     else bnd (sys_fs Dirfd) (\<lambda>r.
     let self_ns_fd = r_ret r in
     if self_ns_fd < 0 then perror_msg_and_die ''dirfd: %s''
     else bnd (event_loop (compare_ns pid_ns_fd self_ns_fd) enter_ns_init) (\<lambda>enter_ns.
     seq (bnd (sys_fs Closedir) (\<lambda>_. ret ()))
    (seq (close_fd pid_ns_fd)
         (for_each enter_ns enter_one))))))"

subsection \<open>Isolation (unshare.c, net.c)\<close>

definition setup_network :: "unit m" where
  "setup_network =
     bnd (sys_fd (Socket ''AF_NETLINK'')) (\<lambda>r.
     let sk = r_ret r in
     if sk < 0 then perror_msg_and_die ''socket''
     else bnd (sys_mi (If_nametoindex ''lo'')) (\<lambda>i.
     bnd (sys_mi (Rtnetlink_up sk (r_ret i))) (\<lambda>r.
     if r_ret r < 0 then perror_msg_and_die ''send''
     else bnd (xclose sk) (\<lambda>(rc, _). if rc < 0 then perror_msg_and_die ''close'' else ret ()))))"

definition do_unshare :: "u32 \<Rightarrow> string \<Rightarrow> int \<Rightarrow> int m" where
  "do_unshare clone_flags clone_name share_flag =
     (if 0 < share_flag then ret (-1)
      else bnd (sys_pr (Unshare clone_flags)) (\<lambda>r.
        if r_ret r < 0 then
          (if r_errno r = ENOSYS \<or> r_errno r = EINVAL \<or> r_errno r = EPERM then
             seq (perror_msg ''%s isolation is not supported by the kernel'')
               (if share_flag \<noteq> 0 then ret (-1) else die)
           else perror_msg_and_die clone_name)
        else ret 0))"

definition unshare_ipc :: "unit m" where
  "unshare_ipc =
     bnd (getg (share_ipc \<circ> cf)) (\<lambda>f. bnd (do_unshare CLONE_NEWIPC ''CLONE_NEWIPC'' f) (\<lambda>_. ret ()))"

definition unshare_mount :: "unit m" where
  "unshare_mount = bnd (do_unshare CLONE_NEWNS ''CLONE_NEWNS'' 0) (\<lambda>_. ret ())"

definition unshare_network :: "unit m" where
  "unshare_network =
     bnd (getg (share_network \<circ> cf)) (\<lambda>f. bnd (do_unshare CLONE_NEWNET ''CLONE_NEWNET'' f) (\<lambda>rc.
     if rc < 0 then ret () else setup_network))"

definition unshare_uts :: "unit m" where
  "unshare_uts =
     bnd (getg (share_uts \<circ> cf)) (\<lambda>f. bnd (do_unshare CLONE_NEWUTS ''CLONE_NEWUTS'' f) (\<lambda>rc.
     if rc < 0 then ret ()
     else bnd (sys_mi (Sethostname ''localhost.localdomain'')) (\<lambda>r.
       if r_ret r < 0 then perror_msg_and_die ''sethostname: %s'' else ret ())))"

subsection \<open>Joining the cgroup of the caller (cgroup.c)\<close>

definition join_cgroup :: "string \<Rightarrow> unit m" where
  "join_cgroup cgroup_path =
     (let fname = ''/sys/fs/cgroup/'' @ cgroup_path @ ''/cgroup.procs'' in
      bnd (sys_fs (Open fname [O_WRONLY, O_CLOEXEC] 0)) (\<lambda>r.
      let fd = r_ret r in
      if fd < 0 then perror_msg_and_die ''open: %s''
      else seq (debug_msg ''joining %s'')
      (bnd (sys_pr Getpid) (\<lambda>p.
      bnd (sys_mi (Dprintf fd (fmt_d (r_ret p) @ [newline]))) (\<lambda>r.
      if r_ret r < 0 then perror_msg_and_die ''dprintf: %s''
      else bnd (xclose fd) (\<lambda>(rc, _).
        if rc < 0 then perror_msg_and_die ''close: %s'' else ret ()))))))"

text \<open>\<open>line\<close> has room for \<open>PATH_MAX\<close> bytes, the prefix and a NUL.\<close>

definition join_caller_cgroup :: "int \<Rightarrow> unit m" where
  "join_caller_cgroup pid =
     bnd (getg (caller_uid \<circ> cl)) (\<lambda>uid. bnd (open_proc_fd pid uid) (\<lambda>proc_fd.
     bnd (sys_fs (Openat proc_fd ''cgroup'' [O_RDONLY, O_CLOEXEC])) (\<lambda>r.
     let cgroup_fd = r_ret r in
     if cgroup_fd < 0 then perror_msg_and_die ''open: %s''
     else bnd (read_loop cgroup_fd 4098) (\<lambda>(sz, buf).
     if sz < 0 then perror_msg_and_die ''read: %s''
     else seq (close_fd cgroup_fd) (seq (close_fd proc_fd)
       (if buf = [] then debug_msg ''%s file is empty''
        else
          let line = takeWhile (\<lambda>c. c \<noteq> nul) (if last buf = newline then butlast buf else buf) in
          if \<not> strneq line ''0::'' 3 then error_msg_and_die ''%s: not version 2''
          else join_cgroup (drop 3 line)))))))"

subsection \<open>Only the caller's namespaces are entered\<close>

text \<open>
  A namespace is entered through a descriptor that \<open>openat\<close> returned for a link of the \<open>ns\<close>
  directory of a process directory whose owner was found to be \<open>uid\<close>; the link's name goes with
  the type that is given to \<open>setns\<close>.
\<close>

definition owned_dir :: "trace \<Rightarrow> u32 \<Rightarrow> int \<Rightarrow> bool" where
  "owned_dir t uid fd = list_ex (\<lambda>(c, r). c = Fs (Fstat fd) \<and> r_ret r = 0 \<and> st_uid (r_stat r) = uid) t"

definition openat_sat :: "(int \<Rightarrow> string \<Rightarrow> int \<Rightarrow> bool) \<Rightarrow> call \<times> reply \<Rightarrow> bool" where
  "openat_sat P x = (case x of (Fs (Openat d name _), r) \<Rightarrow> P d name (r_ret r) | _ \<Rightarrow> False)"

definition ns_dir :: "trace \<Rightarrow> u32 \<Rightarrow> int \<Rightarrow> bool" where
  "ns_dir t uid fd = list_ex (openat_sat (\<lambda>p name res. name = ''ns'' \<and> res = fd \<and> owned_dir t uid p)) t"

definition ns_link :: "trace \<Rightarrow> u32 \<Rightarrow> int \<Rightarrow> u32 \<Rightarrow> bool" where
  "ns_link t uid fd ty =
     list_ex (openat_sat (\<lambda>d name res. (name, ty) \<in> set ns_types \<and> res = fd \<and> ns_dir t uid d)) t"

fun ns_ok :: "u32 \<Rightarrow> trace \<Rightarrow> bool" where
  "ns_ok uid [] = True"
| "ns_ok uid ((Pr (Setns fd ty), r) # t) = (ns_ok uid t \<and> ns_link t uid fd ty)"
| "ns_ok uid (x # t) = ns_ok uid t"

lemma owned_dir_iff:
  "owned_dir t uid fd \<longleftrightarrow> (\<exists>r. (Fs (Fstat fd), r) \<in> set t \<and> r_ret r = 0 \<and> st_uid (r_stat r) = uid)"
  by (auto simp: owned_dir_def list_ex_iff)

lemma openat_sat_iff: "openat_sat P x \<longleftrightarrow> (\<exists>d name fl r. x = (Fs (Openat d name fl), r) \<and> P d name (r_ret r))"
proof (cases x)
  case (Pair c r)
  show ?thesis
  proof (cases "\<exists>f. c = Fs f")
    case True
    then obtain f where "c = Fs f" by blast
    then show ?thesis using Pair by (cases f) (simp_all add: openat_sat_def)
  next
    case False
    then show ?thesis using Pair by (cases c) (simp_all add: openat_sat_def)
  qed
qed

lemma ns_dir_iff:
  "ns_dir t uid fd \<longleftrightarrow> (\<exists>p fl r. (Fs (Openat p ''ns'' fl), r) \<in> set t \<and> r_ret r = fd \<and> owned_dir t uid p)"
  unfolding ns_dir_def list_ex_iff openat_sat_iff by blast

lemma ns_link_iff:
  "ns_link t uid fd ty \<longleftrightarrow>
     (\<exists>d name fl r. (Fs (Openat d name fl), r) \<in> set t \<and> (name, ty) \<in> set ns_types \<and> r_ret r = fd \<and> ns_dir t uid d)"
  unfolding ns_link_def list_ex_iff openat_sat_iff by blast

lemma owned_dir_append: "owned_dir t uid fd \<Longrightarrow> owned_dir (new @ t) uid fd"
  by (auto simp: owned_dir_iff)

lemma ns_dir_intro: "(Fs (Openat p ''ns'' fl), r) \<in> set t \<Longrightarrow> owned_dir t uid p \<Longrightarrow> r_ret r = fd \<Longrightarrow> ns_dir t uid fd"
  unfolding ns_dir_iff by blast

lemma ns_link_intro:
  "(Fs (Openat d name fl), r) \<in> set t \<Longrightarrow> (name, ty) \<in> set ns_types \<Longrightarrow> ns_dir t uid d \<Longrightarrow> r_ret r = fd \<Longrightarrow>
     ns_link t uid fd ty"
  unfolding ns_link_iff by blast

lemma ns_dir_append:
  assumes "ns_dir t uid fd"
  shows "ns_dir (new @ t) uid fd"
proof -
  from assms obtain p fl r where "(Fs (Openat p ''ns'' fl), r) \<in> set t" "owned_dir t uid p" "r_ret r = fd"
    unfolding ns_dir_iff by blast
  then show ?thesis by (intro ns_dir_intro [of p fl r]) (auto simp: owned_dir_append)
qed

lemma ns_link_append:
  assumes "ns_link t uid fd ty"
  shows "ns_link (new @ t) uid fd ty"
proof -
  from assms obtain d name fl r where "(Fs (Openat d name fl), r) \<in> set t" "(name, ty) \<in> set ns_types"
      "ns_dir t uid d" "r_ret r = fd"
    unfolding ns_link_iff by blast
  then show ?thesis by (intro ns_link_intro [of d name fl r]) (auto simp: ns_dir_append)
qed

lemmas ns_append = owned_dir_append ns_dir_append ns_link_append

lemmas ns_cons =
  owned_dir_append [where new = "[x]" for x, simplified] ns_dir_append [where new = "[x]" for x, simplified]
  ns_link_append [where new = "[x]" for x, simplified]

interpretation entering: trace_safety "ns_ok uid" for uid
  by unfold_locales simp

lemma ns_ok_cons: "(\<And>fd ty. c \<noteq> Pr (Setns fd ty)) \<Longrightarrow> ns_ok uid ((c, r) # t) = ns_ok uid t"
  by (cases "(uid, (c, r) # t)" rule: ns_ok.cases) auto

lemma harmless_entering: "harmless c \<Longrightarrow> ns_ok uid t \<Longrightarrow> ns_ok uid ((c, r) # t)"
  by (subst ns_ok_cons) (auto simp: harmless_def)

lemma open_proc_fd_meets:
  assumes "ns_ok uid (trace w)"
  shows "entering.meets uid (open_proc_fd pid uid) (\<lambda>fd v. owned_dir (trace v) uid fd) w"
  unfolding open_proc_fd_def Let_def
  by (intro entering.step_family entering.branch entering.dies entering.returns_safe)
    (auto simp: assms owned_dir_def)

lemma open_proc_ns_fd_meets:
  assumes "ns_ok uid (trace w)"
  shows "entering.meets uid (open_proc_ns_fd pid uid) (\<lambda>fd v. ns_dir (trace v) uid fd) w"
  unfolding open_proc_ns_fd_def Let_def
  apply (rule entering.after [OF open_proc_fd_meets [OF assms]])
  apply (intro entering.step_family entering.branch entering.dies)
    apply (simp_all)
  apply (rule entering.part_seq [OF _ harmless_fds(3) harmless_entering])
     apply simp_all
  apply (rule entering.returns_safe, simp)
  apply (rule ns_dir_intro, force)
   apply (simp_all add: ns_append ns_cons)
  done

definition entries_ok :: "u32 \<Rightarrow> (string \<times> u32 \<times> int) list \<Rightarrow> trace \<Rightarrow> bool" where
  "entries_ok uid es t \<longleftrightarrow>
     list_all (\<lambda>(name, ty, fd). (name, ty) \<in> set ns_types \<and> (0 \<le> fd \<longrightarrow> ns_link t uid fd ty)) es"

lemma entries_ok_append: "entries_ok uid es t \<Longrightarrow> entries_ok uid es (new @ t)"
  by (auto simp: entries_ok_def list_all_iff intro: ns_link_append)

lemma entries_ok_cons: "entries_ok uid es t \<Longrightarrow> entries_ok uid es (x # t)"
  using entries_ok_append [of uid es t "[x]"] by simp

lemma entries_ok_init: "entries_ok uid enter_ns_init t"
  by (simp add: entries_ok_def enter_ns_init_def ns_types_def)

lemma entries_ok_set:
  assumes "entries_ok uid es t" and "ns_dir t uid d"
  shows "entries_ok uid (map (\<lambda>(n, ty, fd). (n, ty, if n = name then r_ret r else fd)) es)
           ((Fs (Openat d name fl), r) # t)"
proof -
  have "ns_link ((Fs (Openat d name fl), r) # t) uid (r_ret r) ty" if "(name, ty) \<in> set ns_types" for ty
    by (rule ns_link_intro [of d name fl r]) (use that assms(2) in \<open>simp_all add: ns_cons\<close>)
  moreover have "ns_link ((Fs (Openat d name fl), r) # t) uid fd ty" "(n, ty) \<in> set ns_types"
    if "(n, ty, fd) \<in> set es" "0 \<le> fd" for n ty fd
    using assms(1) that by (auto simp: entries_ok_def list_all_iff intro: ns_cons)
  moreover have "(n, ty) \<in> set ns_types" if "(n, ty, fd) \<in> set es" for n ty fd
    using assms(1) that by (auto simp: entries_ok_def list_all_iff)
  ultimately show ?thesis unfolding entries_ok_def list_all_iff by auto
qed

lemma compare_ns_meets:
  assumes "ns_ok uid (trace w)" and "ns_dir (trace w) uid d" and "entries_ok uid es (trace w)"
  shows "entering.meets uid (compare_ns d self es)
           (\<lambda>x v. ns_dir (trace v) uid d \<and> entries_ok uid (case x of Inl es' \<Rightarrow> es' | Inr es' \<Rightarrow> es') (trace v)) w"
  unfolding compare_ns_def
  apply (intro entering.step_family entering.branch entering.dies entering.returns_safe)
            apply (simp_all add: assms ns_cons entries_ok_cons)
  apply (rule entries_ok_set; intro entries_ok_cons ns_cons assms)
  done

lemma enter_one_meets:
  assumes "ns_ok uid (trace w)" and "entries_ok uid es (trace w)" and "e \<in> set es"
  shows "entering.meets uid (enter_one e) (\<lambda>_ v. entries_ok uid es (trace v)) w"
proof (cases e)
  case (fields name ty fd)
  with assms(2,3) have "0 \<le> fd \<Longrightarrow> ns_link (trace w) uid fd ty"
    by (auto simp: entries_ok_def list_all_iff)
  then show ?thesis
    unfolding enter_one_def fields prod.case
    by (intro entering.step_family entering.branch entering.dies entering.returns_safe
          entering.class_meets [OF _ harmless_fds(3) harmless_entering])
      (auto simp: assms entries_ok_cons intro: entries_ok_append)
qed

lemma scan_meets:
  assumes "ns_ok uid (trace w)" and "ns_dir (trace w) uid d"
  shows "entering.meets uid (event_loop (compare_ns d self) enter_ns_init) (\<lambda>es v. entries_ok uid es (trace v)) w"
  by (rule entering.event_loop_meets [where I = "\<lambda>es v. ns_dir (trace v) uid d \<and> entries_ok uid es (trace v)"])
    (auto simp: assms entries_ok_init intro!: entering.meets_conseq [OF compare_ns_meets] split: sum.split)

lemma enter_all_safe:
  assumes "ns_ok uid (trace w)" and "entries_ok uid es (trace w)"
  shows "entering.safe uid (for_each es enter_one) w"
  by (rule entering.meets_conseq
      [OF entering.for_each_meets [where I = "\<lambda>v. entries_ok uid es (trace v)", OF assms enter_one_meets]])
    simp_all

lemma setup_ns_safe:
  assumes "ns_ok uid (trace w)"
  shows "entering.safe uid (setup_ns pid uid) w"
  unfolding setup_ns_def Let_def seq_bnd
  apply (rule entering.after [OF open_proc_ns_fd_meets [OF assms]])
  apply (intro entering.step_family entering.branch entering.dies)
      apply (simp_all)
  apply (rule entering.after [OF scan_meets])
    apply (simp_all add: ns_cons)
  apply (intro entering.step_family)
   apply simp_all
  apply (rule entering.part_seq [OF _ harmless_fds(3) harmless_entering])
     apply simp_all
  apply (rule enter_all_safe)
   apply (simp_all add: entries_ok_append entries_ok_cons)
  done


end
