(* ===== verification/Mount.thy ===== *)
theory Mount
  imports Harmless
begin

text \<open>The mount points of a chroot: mount.c.\<close>

definition SOCKETDIR :: string where "SOCKETDIR = ''/run/hasher-priv''"

definition def_fstab :: "mnt_ent list" where
  "def_fstab =
     [\<lparr>mnt_fsname = ''dev'', mnt_dir = ''/dev'', mnt_type = ''tmpfs'',
       mnt_opts = ''nosuid,noexec,gid=0,mode=755,nr_blocks=0,nr_inodes=256''\<rparr>,
      \<lparr>mnt_fsname = ''proc'', mnt_dir = ''/proc'', mnt_type = ''proc'',
       mnt_opts = ''ro,nosuid,nodev,noexec,gid=proc,hidepid=2''\<rparr>,
      \<lparr>mnt_fsname = ''devpts'', mnt_dir = ''/dev/pts'', mnt_type = ''devpts'',
       mnt_opts = ''ro,nosuid,noexec,gid=tty,mode=0620,ptmxmode=0666,newinstance''\<rparr>,
      \<lparr>mnt_fsname = ''sysfs'', mnt_dir = ''/sys'', mnt_type = ''sysfs'',
       mnt_opts = ''ro,nosuid,nodev,noexec''\<rparr>,
      \<lparr>mnt_fsname = ''shmfs'', mnt_dir = ''/dev/shm'', mnt_type = ''tmpfs'',
       mnt_opts = ''nosuid,nodev,noexec,gid=0,mode=1777,nr_blocks=4096,nr_inodes=4096''\<rparr>,
      \<lparr>mnt_fsname = ''/sys/fs/cgroup'', mnt_dir = ''/sys/fs/cgroup'', mnt_type = ''rbind'',
       mnt_opts = ''ro,rbind,nosuid,nodev,noexec''\<rparr>,
      \<lparr>mnt_fsname = SOCKETDIR, mnt_dir = SOCKETDIR, mnt_type = ''rbind'',
       mnt_opts = ''rbind,nosuid,nodev,noexec''\<rparr>]"

definition MS_RDONLY :: u64 where "MS_RDONLY = 1"
definition MS_NOSUID :: u64 where "MS_NOSUID = 2"
definition MS_NODEV :: u64 where "MS_NODEV = 4"
definition MS_NOEXEC :: u64 where "MS_NOEXEC = 8"
definition MS_SYNCHRONOUS :: u64 where "MS_SYNCHRONOUS = 16"
definition MS_MANDLOCK :: u64 where "MS_MANDLOCK = 64"
definition MS_DIRSYNC :: u64 where "MS_DIRSYNC = 128"
definition MS_NOATIME :: u64 where "MS_NOATIME = 1024"
definition MS_NODIRATIME :: u64 where "MS_NODIRATIME = 2048"
definition MS_BIND :: u64 where "MS_BIND = 4096"
definition MS_REC :: u64 where "MS_REC = 16384"
definition MS_SLAVE :: u64 where "MS_SLAVE = push_bit 19 1"
definition MS_MGC_VAL :: u64 where "MS_MGC_VAL = 0xC0ED0000"

lemmas ms_defs = MS_RDONLY_def MS_NOSUID_def MS_NODEV_def MS_NOEXEC_def MS_SYNCHRONOUS_def
  MS_MANDLOCK_def MS_DIRSYNC_def MS_NOATIME_def MS_NODIRATIME_def MS_BIND_def MS_REC_def
  MS_MGC_VAL_def

text \<open>Name, invert, value.\<close>

definition opt_map :: "(string \<times> bool \<times> u64) list" where
  "opt_map =
     [(''defaults'', False, 0),
      (''rw'', True, MS_RDONLY), (''ro'', False, MS_RDONLY),
      (''suid'', True, MS_NOSUID), (''nosuid'', False, MS_NOSUID),
      (''dev'', True, MS_NODEV), (''nodev'', False, MS_NODEV),
      (''exec'', True, MS_NOEXEC), (''noexec'', False, MS_NOEXEC),
      (''sync'', False, MS_SYNCHRONOUS), (''async'', True, MS_SYNCHRONOUS),
      (''mand'', False, MS_MANDLOCK), (''nomand'', True, MS_MANDLOCK),
      (''dirsync'', False, MS_DIRSYNC), (''dirasync'', True, MS_DIRSYNC),
      (''bind'', False, MS_BIND), (''rbind'', False, MS_BIND OR MS_REC),
      (''atime'', True, MS_NOATIME), (''noatime'', False, MS_NOATIME),
      (''diratime'', True, MS_NODIRATIME), (''nodiratime'', False, MS_NODIRATIME)]"

text \<open>A null pointer for "no options yet" is \<open>None\<close>.\<close>

definition parse_opt :: "string \<Rightarrow> u64 \<Rightarrow> string option \<Rightarrow> (u64 \<times> string option) m" where
  "parse_opt opt flags options =
     (case map_of opt_map opt of
        Some (invert, v) \<Rightarrow> ret (if invert then flags AND NOT v else flags OR v, options)
      | None \<Rightarrow>
          bnd (if strneq opt ''gid='' 4 \<and> \<not> (drop 4 opt \<noteq> [] \<and> isdigit (opt ! 4)) then
                 bnd (sys_pr (Getgrnam (drop 4 opt))) (\<lambda>r.
                 case r_gr r of
                   None \<Rightarrow> ret opt
                 | Some gr \<Rightarrow> ret (''gid='' @ fmt_u (unat (gr_gid gr))))
               else ret opt)
          (\<lambda>opt'.
            ret (flags, Some (case options of None \<Rightarrow> opt' | Some os \<Rightarrow> os @ '','' @ opt'))))"

fun parse_opts :: "string list \<Rightarrow> u64 \<Rightarrow> string option \<Rightarrow> (u64 \<times> string option) m" where
  "parse_opts [] flags options = ret (flags, options)"
| "parse_opts (opt # opts) flags options =
     bnd (parse_opt opt flags options) (\<lambda>(flags', options'). parse_opts opts flags' options')"

definition xmount :: "mnt_ent \<Rightarrow> unit m" where
  "xmount e =
     (if mnt_dir e = [] \<or> hd (mnt_dir e) \<noteq> CHR ''/'' then perror_msg_and_die ''%s''
      else bnd (parse_opts (strtok_all '','' (mnt_opts e)) (MS_MGC_VAL OR MS_NOSUID) None) (\<lambda>(flags, options).
      bnd (getg chroot_fd) (\<lambda>fd.
      seq (fchdiruid fd stat_caller_ok_validator)
     (let rel = drop 1 (mnt_dir e); is_dev_subdir = strneq rel ''dev/'' 4 in
      seq (chdiruid (Some rel)
            (if is_dev_subdir then stat_root_ok_validator else stat_caller_rooter_ok_validator))
     (bnd (sys_fs (Mount (mnt_fsname e) ''.'' (mnt_type e) flags
            (case options of None \<Rightarrow> [] | Some os \<Rightarrow> os))) (\<lambda>r.
      if r_ret r \<noteq> 0 then perror_msg_and_die ''mount: %s'' else ret ()))))))"

subsection \<open>The administrator's fstab\<close>

text \<open>\<open>getmntent\<close>: four fields separated by blanks, with octal escapes.\<close>

fun decode_name :: "string \<Rightarrow> string" where
  "decode_name [] = []"
| "decode_name (c # s) =
     (if c = CHR 0x5C \<and> take 3 s = ''040'' then CHR '' '' # decode_name (drop 3 s)
      else if c = CHR 0x5C \<and> take 3 s = ''011'' then CHR 0x09 # decode_name (drop 3 s)
      else if c = CHR 0x5C \<and> take 3 s = ''012'' then CHR 0x0A # decode_name (drop 3 s)
      else if c = CHR 0x5C \<and> take 1 s = [CHR 0x5C] then CHR 0x5C # decode_name (drop 1 s)
      else if c = CHR 0x5C \<and> take 3 s = ''134'' then CHR 0x5C # decode_name (drop 3 s)
      else c # decode_name s)"

definition getmntent_line :: "string \<Rightarrow> mnt_ent option" where
  "getmntent_line line =
     (let toks = strtok_all [CHR '' '', CHR 0x09] line;
          field = (\<lambda>i. if i < length toks then decode_name (toks ! i) else [])
      in if toks = [] \<or> hd (hd toks) = CHR ''#'' then None
         else Some \<lparr>mnt_fsname = field 0, mnt_dir = field 1, mnt_type = field 2, mnt_opts = field 3\<rparr>)"

definition getmntent_all :: "string \<Rightarrow> mnt_ent list" where
  "getmntent_all contents = List.map_filter getmntent_line (strtok_all [newline] contents)"

definition fread_fstab :: "int \<Rightarrow> string \<Rightarrow> unit m" where
  "fread_fstab fd name =
     bnd (sys_fs (Fread_all fd)) (\<lambda>r. modg (var_fstab_update (\<lambda>l. l @ getmntent_all (r_buf r))))"

definition setup_fstab :: "unit m" where
  "setup_fstab =
     seq (safe_chdir ''/'' stat_root_ok_validator)
    (seq (safe_chdir ''etc/hasher-priv'' stat_root_ok_validator)
    (seq (load_config ''fstab'' fread_fstab)
         (safe_chdir ''/'' stat_root_ok_validator)))"

subsection \<open>Choosing what to mount\<close>

definition is_allowed :: "string \<Rightarrow> str_list \<Rightarrow> bool" where
  "is_allowed item allowed \<longleftrightarrow> list_ex (\<lambda>x. x = Some item) allowed"

definition lookup_mount_entry :: "string \<Rightarrow> mnt_ent m" where
  "lookup_mount_entry mpoint =
     bnd (getg var_fstab) (\<lambda>tab.
     case List.find (\<lambda>e. mnt_dir e = mpoint) tab of
       Some e \<Rightarrow> ret e
     | None \<Rightarrow>
         (case List.find (\<lambda>e. mnt_dir e = mpoint) def_fstab of
            Some e \<Rightarrow> ret e
          | None \<Rightarrow> error_msg_and_die ''%s: mount point is not supported''))"

text \<open>One turn of the first loop of \<open>setup_mountpoints\<close>: the devices and mount points so far.\<close>

definition select_item :: "conf \<Rightarrow> string list \<times> string list \<Rightarrow> string option \<Rightarrow> (string list \<times> string list) res" where
  "select_item c vecs o_item =
     (case (vecs, o_item) of
        (_, None) \<Rightarrow> Inr vecs
      | ((devs, mpoints), Some item) \<Rightarrow>
          if item = ''/dev'' \<or> item = ''/dev/shm'' then Inr vecs
          else if item = [] \<or> hd item \<noteq> CHR ''/'' \<or> (drop 1 item \<noteq> [] \<and> item ! 1 = CHR ''/'')
          then Inl (Diag ''%s: mount point is not supported'' [item])
          else
            let allowed_dev = is_allowed item (allowed_devices c);
                allowed_mpoint = is_allowed item (allowed_mountpoints c)
            in if allowed_dev \<and> allowed_mpoint
               then Inl (Diag ''%s: configured as device and mount point simultaneously'' [item])
               else if allowed_dev then
                 (if \<not> strneq item ''/dev/'' 5
                  then Inl (Diag ''%s: device name is not supported'' [item])
                  else Inr (devs @ [item], mpoints))
               else if allowed_mpoint then Inr (devs, mpoints @ [item])
               else Inl (Diag ''%s: mount point is not allowed'' [item]))"

definition setup_mountpoints :: "unit m" where
  "setup_mountpoints =
     bnd (getg cf) (\<lambda>c.
     bnd (lift_res (efold (select_item c) ([], []) (requested_mountpoints c))) (\<lambda>(devs, mpoints).
     seq (only_if (''/dev/pts'' \<in> set mpoints) (modg (dev_pts_mounted_update (\<lambda>_. True))))
    (bnd (sys_fs (Mount ''/'' ''/'' [] (MS_SLAVE OR MS_REC) [])) (\<lambda>r.
     if r_ret r < 0 \<and> r_errno r \<noteq> EINVAL then perror_msg_and_die ''mount MS_SLAVE''
     else seq setup_fstab
         (seq (bnd (lookup_mount_entry ''/dev'') xmount)
         (seq (setup_devices devs)
         (seq (bnd (lookup_mount_entry ''/dev/shm'') xmount)
              (for_each mpoints (\<lambda>m. bnd (lookup_mount_entry m) xmount)))))))))"

subsection \<open>Only permitted mounts and devices\<close>

text \<open>A mount point that the client may get: always \<open>/dev\<close> and \<open>/dev/shm\<close>, otherwise one that it requests and the administrator allows.\<close>

definition permitted_mpoint :: "conf \<Rightarrow> string \<Rightarrow> bool" where
  "permitted_mpoint c d \<longleftrightarrow> d = ''/dev'' \<or> d = ''/dev/shm''
     \<or> Some d \<in> set (requested_mountpoints c) \<and> Some d \<in> set (allowed_mountpoints c)"

definition permitted_device :: "conf \<Rightarrow> string \<Rightarrow> bool" where
  "permitted_device c src \<longleftrightarrow> Some src \<in> set (requested_mountpoints c) \<and> Some src \<in> set (allowed_devices c)
     \<and> Some src \<notin> set (allowed_mountpoints c)"

text \<open>
  A call that \<open>setup_mountpoints\<close> may make: the change of the propagation of \<open>/\<close>, a mount on the
  current directory of the source of a permitted mount point, a standard device, the copy of a
  permitted device, or a harmless call.
\<close>

definition setup_call :: "conf \<Rightarrow> call \<Rightarrow> bool" where
  "setup_call c call \<longleftrightarrow> (case call of
       Fs f \<Rightarrow>
         (case f of
            Mount src tgt ty flags opts \<Rightarrow>
              tgt = ''/'' \<and> flags = MS_SLAVE OR MS_REC
            \<or> tgt = ''.'' \<and> (\<exists>e :: mnt_ent. permitted_mpoint c (mnt_dir e) \<and> src = mnt_fsname e \<and> ty = mnt_type e)
          | Mknod name mode major minor \<Rightarrow>
              (name, mode, major, minor) \<in> set (std_devices @ console_devices @ [(''tty'', S_IFCHR OR 0x1B6, 5, 0)])
            \<or> permitted_device c (''/dev/'' @ name)
          | _ \<Rightarrow> harmless call)
     | _ \<Rightarrow> harmless call)"

lemma harmless_setup: "harmless c \<Longrightarrow> setup_call k c"
  by (auto simp: setup_call_def harmless_def split: call.splits fs_call.splits)

lemma setup_of_harmless: "emits harmless m \<Longrightarrow> emits (setup_call k) m"
  by (rule emits_mono [of harmless]) (auto simp: harmless_setup)

definition selection_ok :: "conf \<Rightarrow> string list \<times> string list \<Rightarrow> bool" where
  "selection_ok c dm \<longleftrightarrow>
     (\<forall>d \<in> set (fst dm). permitted_device c d \<and> (\<exists>n. d = ''/dev/'' @ n))
   \<and> (\<forall>m \<in> set (snd dm). permitted_mpoint c m \<and> m \<noteq> ''/dev'' \<and> m \<noteq> ''/dev/shm'')"

lemma dev_prefix: "strneq item ''/dev/'' 5 \<Longrightarrow> \<exists>n. item = ''/dev/'' @ n"
  using strneq_prefix [of item "''/dev/''"] by (simp add: eval_nat_numeral)

lemma select_item_ok:
  assumes "select_item c dm o_item = Inr dm'" and "selection_ok c dm"
    and "o_item \<in> set (requested_mountpoints c)"
  shows "selection_ok c dm'"
proof (cases o_item)
  case None
  with assms show ?thesis by (cases dm) (auto simp: select_item_def)
next
  case (Some item)
  obtain devs mpoints where dm: "dm = (devs, mpoints)" by (cases dm)
  have allowed: "is_allowed item l \<longleftrightarrow> Some item \<in> set l" for l
    by (auto simp: is_allowed_def list_ex_iff)
  have dev: "permitted_device c item \<and> (\<exists>n. item = ''/dev/'' @ n)"
    if "is_allowed item (allowed_devices c)" "\<not> is_allowed item (allowed_mountpoints c)" "strneq item ''/dev/'' 5"
    using that assms(3) dev_prefix by (simp add: permitted_device_def allowed Some)
  have mpt: "permitted_mpoint c item" if "is_allowed item (allowed_mountpoints c)"
    using that assms(3) by (simp add: permitted_mpoint_def allowed Some)
  show ?thesis
    using assms(1,2) dev mpt unfolding select_item_def selection_ok_def dm Some Let_def
    by (auto split: if_splits simp del: append_Cons)
qed

lemma select_all_ok:
  "efold (select_item c) ([], []) (requested_mountpoints c) = Inr dm \<Longrightarrow> selection_ok c dm"
  by (rule efold_invariant [where P = "selection_ok c"]) (auto simp: selection_ok_def [of c "([], [])"] intro: select_item_ok)

lemma lookup_returns: "returns (lookup_mount_entry m) (\<lambda>e. mnt_dir e = m)"
  unfolding lookup_mount_entry_def
  by (intro returns_rules) (auto simp: find_Some_iff)

lemma lookup_emits: "emits C (lookup_mount_entry m)"
  unfolding lookup_mount_entry_def by (intro inv_intros)

lemma parse_opts_harmless: "emits harmless (parse_opts opts flags options)"
proof -
  have "emits harmless (parse_opt opt flags options)" for opt flags options
    unfolding parse_opt_def by (intro inv_intros) (simp_all add: harmless_def)
  then show ?thesis
    by (induction opts flags options rule: parse_opts.induct) (auto intro!: inv_intros)
qed

lemma xmount_setup:
  assumes "permitted_mpoint c (mnt_dir e)"
  shows "emits (setup_call c) (xmount e)"
proof -
  have v: "emits harmless ((if b then stat_root_ok_validator else stat_caller_rooter_ok_validator) st n)" for b st n
    by (simp add: harmless_chdir)
  show ?thesis
    unfolding xmount_def Let_def
    by (intro inv_intros setup_of_harmless harmless_fns parse_opts_harmless v)
      (use assms in \<open>auto simp: setup_call_def\<close>)
qed

lemma mount_point_setup:
  "permitted_mpoint c m \<Longrightarrow> emits (setup_call c) (bnd (lookup_mount_entry m) xmount)"
  by (rule em_bnd_returns [OF lookup_emits lookup_returns]) (auto intro: xmount_setup)

lemma makedev_setup:
  "setup_call c (Fs (Mknod name mode major minor)) \<Longrightarrow> emits (setup_call c) (xmknod name mode major minor)"
  "emits harmless (xmkdir name mode)" "emits harmless (xsymlink a b)" "emits harmless (make_parent_directories name)"
  unfolding xmknod_def xmkdir_def xsymlink_def make_parent_directories_def
  by (intro inv_intros; simp add: harmless_def)+

lemma copy_dev_setup:
  assumes "permitted_device c d" and "d = ''/dev/'' @ n"
  shows "emits (setup_call c) (copy_dev d)"
proof -
  have "setup_call c (Fs (Mknod n mode major minor))" for mode major minor
    using assms by (simp add: setup_call_def)
  then show ?thesis
    unfolding copy_dev_def Let_def using assms(2)
    by (auto intro!: inv_intros makedev_setup(1) setup_of_harmless [OF makedev_setup(4)])
      (auto simp: harmless_setup harmless_def)
qed

lemma mknod_all_setup:
  "set ds \<subseteq> set (std_devices @ console_devices) \<Longrightarrow> emits (setup_call c) (mknod_all ds)"
  by (intro inv_intros) (auto simp: setup_call_def intro!: makedev_setup)

lemma setup_devices_setup:
  assumes "\<And>d. d \<in> set devs \<Longrightarrow> permitted_device c d \<and> (\<exists>n. d = ''/dev/'' @ n)"
  shows "emits (setup_call c) (setup_devices devs)"
proof -
  have tty: "emits (setup_call c) (xmknod ''tty'' (S_IFCHR OR 0x1B6) 5 0)"
    by (rule makedev_setup) (simp add: setup_call_def)
  have h: "harmless (Fs (Umask u))" for u by (simp add: harmless_def)
  have devs: "emits (setup_call c) (copy_dev d)" if "d \<in> set devs" for d
    using assms [OF that] copy_dev_setup by blast
  show ?thesis
    unfolding setup_devices_def
    by (intro em.bnd em.seq em.getg em.modg em.ret em.only_if em.sys_fs or_log_I mknod_all_setup tty
        setup_of_harmless [OF makedev_setup(2)] setup_of_harmless [OF makedev_setup(3)]
        setup_of_harmless [OF harmless_safe_chdir(2)] setup_of_harmless [OF harmless_safe_chdir(3)]
        setup_of_harmless [OF harmless_chdir(5)] setup_of_harmless [OF harmless_x11(2)] harmless_chdir
        harmless_setup h em.for_each devs) auto
qed

lemma setup_fstab_harmless: "emits harmless setup_fstab"
proof -
  have "emits harmless (fread_fstab fd n)" for fd n
    unfolding fread_fstab_def by (intro inv_intros) (simp_all add: harmless_def)
  then show ?thesis
    unfolding setup_fstab_def by (intro inv_intros harmless_safe_chdir harmless_chdir harmless_load)
qed

lemma setup_mountpoints_emits: "emits_from (setup_call (cf (gl w))) setup_mountpoints w"
  unfolding setup_mountpoints_def
proof (rule emits_from_getg, rule emits_from_lift_res, rule emits_from_all)
  fix dm
  let ?c = "cf (gl w)"
  assume "efold (select_item ?c) ([], []) (requested_mountpoints ?c) = Inr dm"
  then have "selection_ok ?c dm" by (rule select_all_ok)
  then have d: "\<And>d. d \<in> set (fst dm) \<Longrightarrow> permitted_device ?c d \<and> (\<exists>n. d = ''/dev/'' @ n)"
    and m: "\<And>m. m \<in> set (snd dm) \<Longrightarrow> permitted_mpoint ?c m"
    by (auto simp: selection_ok_def)
  have fixed: "permitted_mpoint ?c ''/dev''" "permitted_mpoint ?c ''/dev/shm''"
    by (simp_all add: permitted_mpoint_def)
  have slave: "setup_call ?c (Fs (Mount ''/'' ''/'' [] (MS_SLAVE OR MS_REC) []))"
    by (simp add: setup_call_def)
  show "emits (setup_call ?c) (case dm of (devs, mpoints) \<Rightarrow>
     seq (only_if (''/dev/pts'' \<in> set mpoints) (modg (dev_pts_mounted_update (\<lambda>_. True))))
    (bnd (sys_fs (Mount ''/'' ''/'' [] (MS_SLAVE OR MS_REC) [])) (\<lambda>r.
     if r_ret r < 0 \<and> r_errno r \<noteq> EINVAL then perror_msg_and_die ''mount MS_SLAVE''
     else seq setup_fstab
         (seq (bnd (lookup_mount_entry ''/dev'') xmount)
         (seq (setup_devices devs)
         (seq (bnd (lookup_mount_entry ''/dev/shm'') xmount)
              (for_each mpoints (\<lambda>m. bnd (lookup_mount_entry m) xmount))))))))"
    by (cases dm, simp only: prod.case)
      (intro em.seq em.only_if em.modg em.bnd [of _ "sys_fs _"] em.sys_fs or_log_I slave runs_if
        em.perror_msg_and_die setup_of_harmless [OF setup_fstab_harmless] mount_point_setup fixed
        setup_devices_setup em.for_each, use d m in auto)
qed


subsection \<open>Mount options\<close>

lemma nosuid_bit: "x AND MS_NOSUID \<noteq> 0 \<longleftrightarrow> bit x 1"
  using and_exp_eq_0_iff_not_bit [of x 1] by (simp add: MS_NOSUID_def)

lemma opt_map_nosuid:
  "map_of opt_map opt = Some (True, v) \<Longrightarrow> opt \<noteq> ''suid'' \<Longrightarrow> \<not> bit v 1"
  unfolding opt_map_def by (auto simp: ms_defs split: if_splits)

lemma parse_opt_nosuid:
  "opt \<noteq> ''suid'' \<Longrightarrow> bit flags 1 \<Longrightarrow> returns (parse_opt opt flags options) (\<lambda>fo. bit (fst fo) 1)"
  unfolding parse_opt_def
  by (intro returns_rules) (auto simp: bit_simps dest: opt_map_nosuid [unfolded One_nat_def])

lemma parse_opts_nosuid:
  "''suid'' \<notin> set opts \<Longrightarrow> bit flags 1 \<Longrightarrow> returns (parse_opts opts flags options) (\<lambda>fo. bit (fst fo) 1)"
proof (induction opts arbitrary: flags options)
  case Nil
  then show ?case by (simp add: returns_ret)
next
  case (Cons opt opts)
  then show ?case
    by (auto intro!: returns_bnd [OF parse_opt_nosuid [unfolded One_nat_def]])
qed

definition nosuid_mount :: "call \<Rightarrow> bool" where
  "nosuid_mount c \<longleftrightarrow> (\<forall>src tgt ty flags opts. c = Fs (Mount src tgt ty flags opts) \<longrightarrow> flags AND MS_NOSUID \<noteq> 0)"

lemma nosuid_of_harmless: "emits harmless m \<Longrightarrow> emits nosuid_mount m"
  by (rule emits_mono [of harmless]) (auto simp: nosuid_mount_def harmless_def)

lemma xmount_nosuid_emits:
  assumes "''suid'' \<notin> set (strtok_all '','' (mnt_opts e))"
  shows "emits nosuid_mount (xmount e)"
proof -
  have b: "bit (MS_MGC_VAL OR MS_NOSUID) 1" by (simp add: ms_defs bit_simps)
  have v: "emits harmless ((if b then stat_root_ok_validator else stat_caller_rooter_ok_validator) st n)" for b st n
    by (simp add: harmless_chdir)
  have m: "nosuid_mount (Fs (Mount src ''.'' ty flags opts))" if "bit flags 1" for src ty flags opts
    using that nosuid_bit by (simp add: nosuid_mount_def)
  have rest: "emits nosuid_mount (bnd (getg chroot_fd) (\<lambda>fd.
      seq (fchdiruid fd stat_caller_ok_validator)
     (seq (chdiruid (Some rel) (if d then stat_root_ok_validator else stat_caller_rooter_ok_validator))
     (bnd (sys_fs (Mount src ''.'' ty flags opts)) (\<lambda>r.
      if r_ret r \<noteq> 0 then perror_msg_and_die ''mount: %s'' else ret ())))))"
    if "bit flags 1" for flags src ty opts rel d
    by (intro em.bnd em.seq em.getg em.sys_fs or_log_I m [OF that] runs_if em.ret em.perror_msg_and_die
        nosuid_of_harmless harmless_safe_chdir v harmless_chdir)
  show ?thesis
    unfolding xmount_def Let_def
    by (intro runs_if em.perror_msg_and_die
        em_bnd_returns [OF nosuid_of_harmless [OF parse_opts_harmless] parse_opts_nosuid [OF assms b]])
      (simp only: split_beta, rule rest, assumption)
qed


definition demo_entry :: mnt_ent where
  "demo_entry = \<lparr>mnt_fsname = ''proc'', mnt_dir = ''/proc'', mnt_type = ''proc'', mnt_opts = ''ro,nosuid''\<rparr>"


end
