(* ===== verification/Chrootuid.thy ===== *)
theory Chrootuid
  imports Parent Killuid Namespaces Mount
begin

text \<open>
  A job in the chroot (chrootuid.c and child.c): the privileged process prepares namespaces,
  mounts, descriptors and pseudo-terminals, changes its root and forks; the parent becomes the
  caller and serves the child, the child becomes user1 or user2 and executes the program.
\<close>

subsection \<open>Resource limits (chrootuid.c)\<close>

text \<open>The reply to \<open>getrlimit\<close> holds the soft and the hard limit.\<close>

definition set_rlimit :: "change_rlimit_t \<Rightarrow> unit m" where
  "set_rlimit p =
     (if rl_hard p = None \<and> rl_soft p = None then ret ()
      else bnd (sys_pr (Getrlimit (rl_resource p))) (\<lambda>r.
      if r_ret r < 0 then perror_msg_and_die ''getrlimit: %s''
      else let rlim_max = (case rl_hard p of Some h \<Rightarrow> h | None \<Rightarrow> word_of_int (r_ints r ! 1));
               rlim_cur = (case rl_soft p of Some s \<Rightarrow> s | None \<Rightarrow> word_of_int (r_ints r ! 0));
               rlim_cur' = (if rlim_max < rlim_cur then rlim_max else rlim_cur) in
      bnd (sys_pr (Setrlimit (rl_resource p) rlim_cur' rlim_max)) (\<lambda>r.
      if r_ret r < 0 then perror_msg_and_die ''setrlimit: %s'' else ret ())))"

definition set_rlimits :: "unit m" where
  "set_rlimits = bnd (getg (change_rlimit \<circ> cf)) (\<lambda>l. for_each l set_rlimit)"

subsection \<open>The child (child.c)\<close>

definition connect_fds :: "int \<Rightarrow> int \<Rightarrow> int \<Rightarrow> unit m" where
  "connect_fds pty pipe_out pipe_err =
     bnd (sys_pr Setsid) (\<lambda>r.
     if r_ret r < 0 then perror_msg_and_die ''setsid''
     else bnd (sys_fd (Ioctl pty ''TIOCSCTTY'' 0)) (\<lambda>r.
     if r_ret r < 0 then perror_msg_and_die ''ioctl TIOCSCTTY''
     else bnd (getg (use_pty \<circ> cf)) (\<lambda>use.
     seq (if use
          then bnd (sys_fd (Dup2 pty 0)) (\<lambda>r. if r_ret r < 0 then perror_msg_and_die ''dup2(%d, %d)'' else ret ())
          else bnd (sys_fd (Isatty 0)) (\<lambda>r. if r_ret r \<noteq> 0 then nullify_stdin else ret ()))
     (bnd (sys_fd (Dup2 (if use then pty else pipe_out) 1)) (\<lambda>r.
      if r_ret r < 0 then perror_msg_and_die ''dup2(%d, %d)''
      else bnd (sys_fd (Dup2 (if use then pty else pipe_err) 2)) (\<lambda>r.
      if r_ret r < 0 then perror_msg_and_die ''dup2(%d, %d)''
      else seq (bnd (if 2 < pty then xclose pty else ret (0, pty)) (\<lambda>(rc, _).
             if rc \<noteq> 0 then perror_msg_and_die ''close pty_fd'' else ret ()))
      (seq (bnd (if 2 < pipe_out then xclose pipe_out else ret (0, pipe_out)) (\<lambda>(rc, _).
             if rc \<noteq> 0 then perror_msg_and_die ''close pipe_out'' else ret ()))
           (bnd (if 2 < pipe_err then xclose pipe_err else ret (0, pipe_err)) (\<lambda>(rc, _).
             if rc \<noteq> 0 then perror_msg_and_die ''close pipe_err'' else ret ())))))))))"

text \<open>The fake cookie, and its hexadecimal form as the new \<open>x11_key\<close>.\<close>

definition xauth_gen_fake :: "string option m" where
  "xauth_gen_fake =
     bnd (sys_fs (Open ''/dev/urandom'' [O_RDONLY] 0)) (\<lambda>r.
     let fd = r_ret r in
     if fd < 0 then seq (perror_msg ''open: %s'') (ret None)
     else bnd (getg (x11_data_len \<circ> cf)) (\<lambda>len.
     bnd (read_loop fd (unat len)) (\<lambda>(n, data).
     if n \<noteq> int (unat len) then seq (perror_msg ''read: %s'') (seq (close_fd fd) (ret None))
     else seq (close_fd fd)
       (seq (modg (cf_update (x11_key_update (\<lambda>_. Some (concat (map fmt_02x data))))))
            (ret (Some data))))))"

text \<open>\<open>execve\<close> returns only when it fails.\<close>

definition execve :: "string \<Rightarrow> string list \<Rightarrow> string list \<Rightarrow> unit m" where
  "execve path argv env =
     bnd (sys_pr (Execve path argv env)) (\<lambda>r. if r_ret r < 0 then ret () else stop Execd)"

definition xauth_paths :: "string list" where
  "xauth_paths = [''/usr/bin/xauth'', ''/usr/X11R6/bin/xauth'']"

definition xauth_add_entry :: "string list \<Rightarrow> int m" where
  "xauth_add_entry env =
     bnd (sys_pr Fork) (\<lambda>r.
     let pid = r_ret r in
     if pid < 0 then ret 1
     else if pid = 0 then
       bnd (getg (x11_key \<circ> cf)) (\<lambda>key.
       let av = [''xauth'', ''add'', '':10.0'', ''.''] @ (case key of None \<Rightarrow> [] | Some k \<Rightarrow> [k]) in
       seq (for_each xauth_paths (\<lambda>path. execve path av env))
      (seq (for_each xauth_paths (\<lambda>path. perror_msg ''execve: %s''))
           (c_exit 1)))
     else bnd (waitpid_retry pid False) (\<lambda>r.
       if r_ret r \<noteq> pid then ret 1
       else case r_status r of WExited rc \<Rightarrow> ret (int rc) | _ \<Rightarrow> ret 1))"

subsection \<open>CPU affinity (child.c)\<close>

text \<open>
  A \<open>cpu_set_t\<close> is its \<open>CPU_SETSIZE\<close> bits; the macros ignore a CPU beyond them, as the update
  of a list beyond its end does.
\<close>

type_synonym cpu_set = "bool list"

definition CPU_SETSIZE :: nat where "CPU_SETSIZE = 1024"

definition CPU_ISSET :: "nat \<Rightarrow> cpu_set \<Rightarrow> bool" where
  "CPU_ISSET x s \<longleftrightarrow> x < length s \<and> s ! x"

definition CPU_SET :: "nat \<Rightarrow> cpu_set \<Rightarrow> cpu_set" where "CPU_SET x s = s[x := True]"
definition CPU_CLR :: "nat \<Rightarrow> cpu_set \<Rightarrow> cpu_set" where "CPU_CLR x s = s[x := False]"
definition CPU_COUNT :: "cpu_set \<Rightarrow> nat" where "CPU_COUNT s = length (filter id s)"
definition CPU_ZERO :: cpu_set where "CPU_ZERO = replicate CPU_SETSIZE False"

definition cpu_set_swap_bits :: "nat \<Rightarrow> nat \<Rightarrow> cpu_set \<Rightarrow> cpu_set" where
  "cpu_set_swap_bits x y s =
     (let a = CPU_ISSET x s; b = CPU_ISSET y s;
          s = (if a then CPU_SET y s else CPU_CLR y s)
      in if b then CPU_SET x s else CPU_CLR x s)"

fun shuffle_cpus :: "nat list \<Rightarrow> nat \<Rightarrow> cpu_set \<Rightarrow> cpu_set m" where
  "shuffle_cpus [] cpucount tmp = ret tmp"
| "shuffle_cpus (i # is) cpucount tmp =
     bnd (sys_pr Random) (\<lambda>r.
     shuffle_cpus is cpucount
       (cpu_set_swap_bits i (unat (word_of_int (r_ret r) :: u64) mod cpucount) tmp))"

text \<open>The last loop: \<open>j\<close> counts the CPUs of the set seen so far.\<close>

fun select_cpus :: "nat list \<Rightarrow> nat \<Rightarrow> nat \<Rightarrow> cpu_set \<Rightarrow> cpu_set \<Rightarrow> cpu_set" where
  "select_cpus [] j cpucount tmp s = s"
| "select_cpus (i # is) j cpucount tmp s =
     (if cpucount \<le> j then s
      else if CPU_ISSET i s
      then select_cpus is (Suc j) cpucount tmp (if \<not> CPU_ISSET j tmp then CPU_CLR i s else s)
      else select_cpus is j cpucount tmp s)"

definition cpus_of :: "cpu_set \<Rightarrow> nat list" where
  "cpus_of s = filter (\<lambda>i. CPU_ISSET i s) [0..<CPU_SETSIZE]"

definition set_affinity_nproc :: "u64 \<Rightarrow> int m" where
  "set_affinity_nproc nproc =
     (if nproc = 0 then ret 0
      else bnd (sys_pr Sched_getaffinity) (\<lambda>r.
      if r_ret r = -1 then ret (-1)
      else
        let s = map (\<lambda>i. int i \<in> set (r_ints r)) [0..<CPU_SETSIZE]; cpucount = CPU_COUNT s in
        if cpucount \<le> unat nproc then ret 0
        else
          let tmp = fold CPU_SET [0..<unat nproc] CPU_ZERO in
          bnd (sys_pr Getpid) (\<lambda>p.
          bnd (sys_pr (Srandom (r_ret p))) (\<lambda>_.
          bnd (shuffle_cpus [0..<unat nproc] cpucount tmp) (\<lambda>tmp.
          bnd (sys_pr (Sched_setaffinity (cpus_of (select_cpus [0..<CPU_SETSIZE] 0 cpucount tmp s)))) (\<lambda>r.
          ret (if r_ret r = -1 then -1 else 0)))))))"

subsection \<open>Executing the program (child.c)\<close>

definition send_x11 :: "string list \<Rightarrow> int \<Rightarrow> unit m" where
  "send_x11 env ctl =
     bnd x11_listen (\<lambda>fd.
     only_if (0 \<le> fd)
       (seq (bnd xauth_gen_fake (\<lambda>data.
               case data of
                 None \<Rightarrow> ret ()
               | Some data \<Rightarrow> bnd (xauth_add_entry env) (\<lambda>rc. only_if (rc = 0) (fd_send ctl [fd] data))))
            (close_fd fd)))"

definition handle_child :: "string list \<Rightarrow> string list \<Rightarrow> int \<Rightarrow> int \<Rightarrow> int \<Rightarrow> int \<Rightarrow> 'a m" where
  "handle_child argv env pty pipe_out pipe_err ctl =
     seq (modg (cf_update (x11_key_update (\<lambda>_. None))))
    (seq (connect_fds pty pipe_out pipe_err)
    (seq (dfl_signal_handler SIGHUP)
    (seq (dfl_signal_handler SIGPIPE)
    (seq (dfl_signal_handler SIGTERM)
    (bnd (getg cf) (\<lambda>c.
     bnd (sys_pr (Nice (change_nice c))) (\<lambda>r.
     if r_ret r < 0 then perror_msg_and_die ''nice: %d''
     else bnd (set_affinity_nproc (change_nproc c)) (\<lambda>rc.
     if rc < 0 then perror_msg_and_die ''nproc: %zu''
     else seq (only_if (0 \<le> ctl) (send_x11 env ctl))
    (bnd (sys_fs (Umask (change_umask c))) (\<lambda>_.
     seq (block_signal_handler SIGCHLD False)
    (seq (execve (hd argv) argv env)
         (perror_msg_and_die ''execve: %s''))))))))))))"

subsection \<open>Preparation (chrootuid.c)\<close>

text \<open>
  The function \<open>chrootuid\<close> in three parts: what it does before \<open>fork\<close>, and its two branches. The
  first leaves the supplementary groups of the user, the descriptors of the pseudo-terminal, and
  the two ends of the pipes and of the control socket.
\<close>

record job_fds =
  groups :: "u32 list"
  master_slave :: "int \<times> int"
  pipe_out_fds :: "int \<times> int"
  pipe_err_fds :: "int \<times> int"
  ctl_fds :: "int \<times> int"

definition pair_of :: "reply \<Rightarrow> int \<times> int" where
  "pair_of r = (r_ints r ! 0, r_ints r ! 1)"

definition target_groups :: "string option \<Rightarrow> u32 \<Rightarrow> u32 list m" where
  "target_groups user_name gid =
     bnd (sys_pr (Initgroups (case user_name of None \<Rightarrow> [] | Some u \<Rightarrow> u) gid)) (\<lambda>r.
     if r_ret r \<noteq> 0 then perror_msg_and_die ''initgroups''
     else bnd (sys_pr (Getgroups 0)) (\<lambda>r.
     let n = r_ret r in
     if n = -1 then perror_msg_and_die ''getgroups''
     else if 0 < n then
       bnd (sys_pr (Getgroups n)) (\<lambda>r.
       if r_ret r = -1 then perror_msg_and_die ''getgroups''
       else ret (map word_of_int (take (nat (r_ret r)) (r_ints r))))
     else ret []))"

definition setup_chroot_dir :: "unit m" where
  "setup_chroot_dir =
     seq (bnd (getg chroot_fd) (\<lambda>fd. fchdiruid fd stat_caller_ok_validator))
    (seq unshare_mount
    (bnd (sys_fs (Open ''.'' [O_RDONLY] 0)) (\<lambda>r.
     seq (modg (chroot_fd_update (\<lambda>_. r_ret r)))
    (if r_ret r < 0 then perror_msg_and_die ''open: .''
     else seq setup_mountpoints
    (seq (bnd (getg chroot_fd) (\<lambda>fd. fchdiruid fd stat_caller_ok_validator))
         (bnd (getg chroot_fd) (\<lambda>fd. bnd (xclose_to fd) (\<lambda>fd'. modg (chroot_fd_update (\<lambda>_. fd'))))))))))"

definition make_pipes :: "((int \<times> int) \<times> (int \<times> int)) m" where
  "make_pipes =
     bnd (getg (use_pty \<circ> cf)) (\<lambda>use.
     if use then ret ((-1, -1), (-1, -1))
     else bnd (sys_fd Pipe) (\<lambda>o_r.
     if r_ret o_r \<noteq> 0 then perror_msg_and_die ''pipe''
     else bnd (sys_fd Pipe) (\<lambda>e_r.
     if r_ret e_r \<noteq> 0 then perror_msg_and_die ''pipe''
     else ret (pair_of o_r, pair_of e_r))))"

definition make_ctl :: "(int \<times> int) m" where
  "make_ctl =
     bnd x11_prepare_connect (\<lambda>rc.
     if rc = 0 then
       bnd (sys_fd Socketpair) (\<lambda>r.
       if r_ret r \<noteq> 0 then perror_msg_and_die ''socketpair AF_UNIX'' else ret (pair_of r))
     else ret (-1, -1))"

text \<open>The second pseudo-terminal, inside the chroot, is taken if its descriptor is the larger one.\<close>

definition second_pty :: "int \<times> int \<Rightarrow> (int \<times> int) m" where
  "second_pty pty = (case pty of (master, slave) \<Rightarrow>
     bnd (open_pty True (master < 0)) (\<lambda>(master2, slave2).
     if master < master2
     then bnd (xclose_to master) (\<lambda>_. bnd (xclose_to slave) (\<lambda>_. ret (master2, slave2)))
     else ret (master, slave)))"

definition chrootuid_setup :: "u32 \<Rightarrow> string option \<Rightarrow> job_fds m" where
  "chrootuid_setup gid user_name =
     seq spawn_killuid
    (bnd (target_groups user_name gid) (\<lambda>gs.
     bnd (sys_pr (Setgroups [])) (\<lambda>r.
     if r_ret r < 0 then perror_msg_and_die ''setgroups''
     else seq (bnd (getg cl) (\<lambda>c. setup_ns (caller_pid c) (caller_uid c)))
    (seq setup_chroot_dir
    (seq sanitize_fds
    (bnd make_pipes (\<lambda>(pipe_out, pipe_err).
     bnd make_ctl (\<lambda>ctl.
     seq unshare_ipc
    (seq unshare_uts
    (seq (bnd (getg (share_caller_network \<circ> x11)) (\<lambda>share. only_if (\<not> share) unshare_network))
    (bnd (open_pty False True) (\<lambda>pty.
     bnd (sys_fs (Chroot ''.'')) (\<lambda>r.
     if r_ret r < 0 then perror_msg_and_die ''chroot''
     else bnd (second_pty pty) (\<lambda>pty.
     if fst pty < 0 then error_msg_and_die ''failed to create pty''
     else seq set_rlimits
    (seq cloexec_fds
    (seq (block_signal_handler SIGCHLD True)
         (ret \<lparr>groups = gs, master_slave = pty, pipe_out_fds = pipe_out,
               pipe_err_fds = pipe_err, ctl_fds = ctl\<rparr>)))))))))))))))))"

subsection \<open>The two processes (chrootuid.c)\<close>

text \<open>A chain of \<open>xclose\<close> calls joined by \<open>||\<close>: it ends at the first one that fails.\<close>

fun close_chain :: "int list \<Rightarrow> bool m" where
  "close_chain [] = ret False"
| "close_chain (fd # fds) = bnd (xclose fd) (\<lambda>(rc, _). if rc \<noteq> 0 then ret True else close_chain fds)"

definition drop_dumpable :: "unit m" where
  "drop_dumpable =
     bnd (sys_pr (Prctl_set_dumpable 0)) (\<lambda>r.
     if r_ret r \<noteq> 0 then perror_msg_and_die ''prctl PR_SET_DUMPABLE'' else ret ())"

definition become :: "u32 \<Rightarrow> u32 \<Rightarrow> unit m" where
  "become uid gid =
     bnd (sys_pr (Setgid gid)) (\<lambda>r.
     if r_ret r < 0 then perror_msg_and_die ''setgid''
     else bnd (sys_pr (Setuid uid)) (\<lambda>r.
     if r_ret r < 0 then perror_msg_and_die ''setuid'' else ret ()))"

definition chrootuid_parent :: "int \<Rightarrow> job_fds \<Rightarrow> int m" where
  "chrootuid_parent pid d =
     bnd (getg cf) (\<lambda>c.
     bnd (close_chain ([snd (master_slave d)]
            @ (if use_pty c then [] else [snd (pipe_out_fds d), snd (pipe_err_fds d)])
            @ (if x11_display c \<noteq> None then [snd (ctl_fds d)] else []))) (\<lambda>failed.
     if failed then perror_msg_and_die ''close''
     else seq drop_dumpable
    (seq (bnd (getg cl) (\<lambda>c. become (caller_uid c) (caller_gid c)))
         (handle_parent pid (fst (master_slave d)) (fst (pipe_out_fds d)) (fst (pipe_err_fds d))
            (fst (ctl_fds d))))))"

definition set_persona :: "u32 \<Rightarrow> unit m" where
  "set_persona persona =
     (if persona = - 1 then ret ()
      else bnd (sys_pr (Personality persona)) (\<lambda>r.
      if r_ret r < 0
      then bnd (sys_pr (Personality persona)) (\<lambda>r. if r_ret r < 0 then perror_msg_and_die ''personality'' else ret ())
      else ret ()))"

definition child_env :: "conf \<Rightarrow> string \<Rightarrow> string \<Rightarrow> string \<Rightarrow> string list" where
  "child_env c ehome euser epath =
     [ehome, euser, epath, ''TERM='' @ (case term_name c of Some t \<Rightarrow> t | None \<Rightarrow> ''dumb'')]
     @ (if x11_display c \<noteq> None then [''DISPLAY=:10.0''] else [])"

definition chrootuid_child ::
    "u32 \<Rightarrow> u32 \<Rightarrow> u32 \<Rightarrow> string list \<Rightarrow> string \<Rightarrow> string \<Rightarrow> string \<Rightarrow> job_fds \<Rightarrow> int m" where
  "chrootuid_child uid gid persona argv ehome euser epath d =
     bnd (getg cf) (\<lambda>c.
     bnd (close_chain ([fst (master_slave d)]
            @ (if use_pty c then [] else [fst (pipe_out_fds d), fst (pipe_err_fds d)])
            @ (if x11_display c \<noteq> None then [fst (ctl_fds d)] else []))) (\<lambda>failed.
     if failed then perror_msg_and_die ''close''
     else seq (bnd (getg (share_caller_network \<circ> x11)) (\<lambda>share. only_if share unshare_network))
    (seq drop_dumpable
    (bnd (sys_pr (Setgroups (groups d))) (\<lambda>_.
     seq (become uid gid)
    (seq (set_persona persona)
    (bnd (getg cf) (\<lambda>c.
         handle_child argv (child_env c ehome euser epath) (snd (master_slave d))
           (snd (pipe_out_fds d)) (snd (pipe_err_fds d)) (snd (ctl_fds d))))))))))"

definition chrootuid ::
    "u32 \<Rightarrow> u32 \<Rightarrow> u32 \<Rightarrow> string option \<Rightarrow> string list \<Rightarrow> string \<Rightarrow> string \<Rightarrow> string \<Rightarrow> int m" where
  "chrootuid uid gid persona user_name argv ehome euser epath =
     bnd (chrootuid_setup gid user_name) (\<lambda>d.
     bnd (sys_pr Fork) (\<lambda>r.
     if r_ret r < 0 then perror_msg_and_die ''fork''
     else if r_ret r \<noteq> 0 then chrootuid_parent (r_ret r) d
     else chrootuid_child uid gid persona argv ehome euser epath d))"

definition do_chrootuid1 :: "string list \<Rightarrow> u32 \<Rightarrow> int m" where
  "do_chrootuid1 argv persona =
     bnd (getg cf) (\<lambda>c.
     chrootuid (change_uid1 c) (change_gid1 c) persona (change_user1 c) argv
       ''HOME=/root'' ''USER=root'' ''PATH=/sbin:/usr/sbin:/bin:/usr/bin'')"

definition do_chrootuid2 :: "string list \<Rightarrow> u32 \<Rightarrow> int m" where
  "do_chrootuid2 argv persona =
     bnd (getg cf) (\<lambda>c.
     chrootuid (change_uid2 c) (change_gid2 c) persona (change_user2 c) argv
       ''HOME=/usr/src'' ''USER=builder'' ''PATH=/bin:/usr/bin:/usr/X11R6/bin'')"

subsection \<open>The caller's data and what is shared stay as they are\<close>

type_synonym held_data = "caller_data \<times> int \<times> int \<times> int \<times> bool"

definition held :: "globals \<Rightarrow> held_data" where
  "held g = (cl g, share_ipc (cf g), share_uts (cf g), share_network (cf g), share_caller_network (x11 g))"

abbreviation keeps_held :: "held_data \<Rightarrow> world \<Rightarrow> world \<Rightarrow> bool" where
  "keeps_held k \<equiv> keeps (\<lambda>g. held g = k)"

named_theorems cl_fns \<open>functions that leave the caller's data and what is shared alone\<close>

lemmas cl_rules = keeps_rules TrueI

lemma cl_fds [cl_fns]:
  "runs (keeps_held k) (xclose fd)" "runs (keeps_held k) (xclose_to fd)" "runs (keeps_held k) (close_fd fd)" "runs (keeps_held k) sanitize_fds"
  "runs (keeps_held k) cloexec_fds" "runs (keeps_held k) (open_proc_fd pid uid)"
  "runs (keeps_held k) (block_signal_handler sg b)" "runs (keeps_held k) (read_retry fd n)" "runs (keeps_held k) (waitpid_retry pid nh)"
  "runs (keeps_held k) (xsprintf n s)"
  unfolding xclose_def xclose_to_def close_fd_def sanitize_fds_def cloexec_fds_def open_proc_fd_def reorder_fds_def
    reorder_log_fd_def reorder_chroot_fd_def reorder_fd_def sys_close_range_def get_open_max_def close_range_brutely_def
    cloexec_range_brutely_def block_signal_handler_def xsigprocmask_def read_retry_def waitpid_retry_def xsprintf_def
  by (intro cl_rules; simp add: Monad_Logic.stable_def held_def)+

lemma cl_validators [cl_fns]:
  "runs (keeps_held k) (stat_caller_ok_validator st n)" "runs (keeps_held k) (stat_caller_rooter_ok_validator st n)"
  "runs (keeps_held k) (stat_root_ok_validator st n)" "runs (keeps_held k) (ch_uid u)" "runs (keeps_held k) (ch_gid u)"
  unfolding stat_caller_ok_validator_def stat_caller_rooter_ok_validator_def stat_root_ok_validator_def
    ch_uid_def ch_gid_def
  by (intro cl_rules)+

lemma cl_chdir [cl_fns]:
  assumes "\<And>st n. runs (keeps_held k) (v st n)"
  shows "runs (keeps_held k) (safe_chdir path v)" "runs (keeps_held k) (fchdiruid fd v)" "runs (keeps_held k) (chdiruid o_path v)"
proof -
  show sc: "runs (keeps_held k) (safe_chdir path v)" for path
    unfolding safe_chdir_def safe_chdir_component_def by (intro cl_rules assms)
  show "runs (keeps_held k) (fchdiruid fd v)" "runs (keeps_held k) (chdiruid o_path v)"
    unfolding fchdiruid_def chdiruid_def safe_fchdir_def check_cwd_def change_creds_def restore_creds_def
    by (intro cl_rules assms sc cl_validators)+
qed

lemma cl_killuid [cl_fns]: "runs (keeps_held k) spawn_killuid"
  unfolding spawn_killuid_def do_killuid_def raise_rlimit_nproc_def purge_ipc_def purge_sem_def purge_shm_def
    purge_msg_def purge_kind_def
  by (intro cl_rules runs_wait_status cl_fns)

lemma cl_ns [cl_fns]:
  "runs (keeps_held k) (setup_ns pid uid)" "runs (keeps_held k) unshare_ipc" "runs (keeps_held k) unshare_uts"
  "runs (keeps_held k) unshare_network" "runs (keeps_held k) unshare_mount"
  unfolding setup_ns_def open_proc_ns_fd_def compare_ns_def enter_one_def unshare_ipc_def unshare_uts_def
    unshare_network_def unshare_mount_def do_unshare_def setup_network_def
  by (intro cl_rules cl_fns)+

lemma cl_mount [cl_fns]: "runs (keeps_held k) setup_mountpoints"
proof -
  have p: "runs (keeps_held k) (parse_opts opts flags options)" for opts flags options
    by (induction opts flags options rule: parse_opts.induct) (auto simp: parse_opt_def intro!: cl_rules)
  have f: "runs (keeps_held k) (fread_fstab fd n)" for fd n
    unfolding fread_fstab_def by (intro cl_rules) (simp add: Monad_Logic.stable_def held_def)
  have v: "runs (keeps_held k) ((if b then stat_root_ok_validator else stat_caller_rooter_ok_validator) st n)" for b st n
    by (simp add: cl_fns)
  have x: "runs (keeps_held k) (xmount e)" for e
    unfolding xmount_def by (intro cl_rules cl_fns p v)
  have l: "runs (keeps_held k) (lookup_mount_entry m)" for m
    unfolding lookup_mount_entry_def by (intro cl_rules)
  have mk: "runs (keeps_held k) (xmknod name mode major minor)" "runs (keeps_held k) (xmkdir name mode)"
    "runs (keeps_held k) (xsymlink a b)" "runs (keeps_held k) (make_parent_directories name)" for name mode major minor a b
    unfolding xmknod_def xmkdir_def xsymlink_def make_parent_directories_def by (intro cl_rules)+
  have u: "runs (keeps_held k) log_listen"
    unfolding log_listen_def unix_listen_def by (intro cl_rules cl_fns; simp add: Monad_Logic.stable_def held_def)
  have d: "runs (keeps_held k) (setup_devices devs)" for devs
    unfolding setup_devices_def copy_dev_def by (intro cl_rules cl_fns mk u; simp add: Monad_Logic.stable_def held_def)
  show ?thesis
    unfolding setup_mountpoints_def setup_fstab_def load_config_def
    by (intro cl_rules cl_fns x l d f; simp add: Monad_Logic.stable_def held_def)
qed

lemma cl_open_pty [cl_fns]: "runs (keeps_held k) (open_pty chrooted verbose)"
  unfolding open_pty_def open_pty_from_def open_ptmx_def close_ptys_def by (intro cl_rules cl_fns)

lemma cl_x11 [cl_fns]: "runs (keeps_held k) x11_prepare_connect"
  unfolding x11_prepare_connect_def x11_drop_display_def set_x11_def
  by (intro cl_rules cl_fns runs_method; simp add: Monad_Logic.stable_def held_def)

lemma cl_setup: "runs (keeps_held k) (chrootuid_setup gid user_name)"
  unfolding chrootuid_setup_def target_groups_def setup_chroot_dir_def make_pipes_def make_ctl_def second_pty_def
    set_rlimits_def set_rlimit_def
  by (intro cl_rules cl_fns; simp add: Monad_Logic.stable_def held_def)

subsection \<open>The calls before the fork\<close>

text \<open>Nothing is executed and no identity is taken for good before the process has forked.\<close>

definition pre_drop :: "call \<Rightarrow> bool" where
  "pre_drop c \<longleftrightarrow> (case c of Pr p \<Rightarrow> (case p of Setuid _ \<Rightarrow> False | Execve _ _ _ \<Rightarrow> False | _ \<Rightarrow> True) | _ \<Rightarrow> True)"

text \<open>Of these calls, mounting and changing the root are left to two places.\<close>

definition placid :: "call \<Rightarrow> bool" where
  "placid c \<longleftrightarrow> pre_drop c
     \<and> (case c of Fs f \<Rightarrow> (case f of Mount _ _ _ _ _ \<Rightarrow> False | Chroot _ \<Rightarrow> False | _ \<Rightarrow> True) | _ \<Rightarrow> True)"

lemma placid_harmless: "emits harmless m \<Longrightarrow> emits placid m"
  by (erule emits_mono) (auto simp: harmless_def placid_def pre_drop_def split: call.splits proc_call.splits fs_call.splits)

lemma pre_placid: "emits placid m \<Longrightarrow> emits pre_drop m"
  by (erule emits_mono) (simp add: placid_def)

lemma pre_drop_harmless: "emits harmless m \<Longrightarrow> emits pre_drop m"
  by (rule pre_placid [OF placid_harmless])

named_theorems placid_fns \<open>functions that make placid calls only\<close>

lemmas placid_parts = harmless_fns [THEN placid_harmless]
lemmas pre_fns = harmless_fns [THEN pre_drop_harmless]

lemma placid_killuid [placid_fns]: "emits placid spawn_killuid"
  unfolding spawn_killuid_def do_killuid_def raise_rlimit_nproc_def purge_ipc_def purge_sem_def purge_shm_def
    purge_msg_def purge_kind_def
  by (intro inv_intros runs_wait_status placid_parts) (simp_all add: placid_def pre_drop_def)

lemma placid_ns [placid_fns]:
  "emits placid (setup_ns pid uid)" "emits placid unshare_ipc" "emits placid unshare_uts"
  "emits placid unshare_network" "emits placid unshare_mount"
  unfolding setup_ns_def open_proc_ns_fd_def compare_ns_def enter_one_def unshare_ipc_def unshare_uts_def
    unshare_network_def unshare_mount_def do_unshare_def setup_network_def
  by (intro inv_intros placid_parts; simp add: placid_def pre_drop_def)+

lemma placid_others [placid_fns]:
  "emits placid (target_groups user_name gid)" "emits placid make_pipes" "emits placid make_ctl"
  "emits placid (second_pty pty)" "emits placid set_rlimits"
  unfolding target_groups_def make_pipes_def make_ctl_def second_pty_def set_rlimits_def set_rlimit_def
  by (intro inv_intros placid_parts; simp add: placid_def pre_drop_def)+

lemmas pre_killuid = placid_killuid [THEN pre_placid]
lemmas pre_ns = placid_ns [THEN pre_placid]
lemmas pre_others = placid_others [THEN pre_placid]

lemma setup_mountpoints_class:
  assumes "\<And>k c. setup_call k c \<Longrightarrow> C c"
  shows "emits C setup_mountpoints"
  unfolding runs_def
proof
  fix w
  have "or_log (setup_call k) c \<Longrightarrow> or_log C c" for k c using assms by (auto simp: or_log_def)
  then show "extends_by (or_log C) w (snd (setup_mountpoints w))"
    using setup_mountpoints_emits [of w] unfolding emits_from_def extends_by_def by fastforce
qed

lemma pre_mount: "emits pre_drop setup_mountpoints"
  by (rule setup_mountpoints_class)
    (auto simp: setup_call_def harmless_def pre_drop_def split: call.splits proc_call.splits)

lemma pre_chroot_dir: "emits pre_drop setup_chroot_dir"
proof -
  have "emits harmless (fchdiruid fd stat_caller_ok_validator)" for fd
    by (intro harmless_safe_chdir harmless_chdir)
  then have f: "emits pre_drop (fchdiruid fd stat_caller_ok_validator)" for fd by (rule pre_drop_harmless)
  show ?thesis
    unfolding setup_chroot_dir_def by (intro inv_intros f pre_ns pre_mount pre_fns) (simp_all add: pre_drop_def)
qed

subsection \<open>Privileges are given up before anything is executed\<close>

fun did :: "call \<Rightarrow> trace \<Rightarrow> bool" where
  "did c t = list_ex (\<lambda>(c', r). c' = c \<and> 0 \<le> r_ret r) t"

definition dropped :: "trace \<Rightarrow> bool" where
  "dropped t \<longleftrightarrow> list_ex (\<lambda>(c, r). (case c of Pr (Setuid _) \<Rightarrow> 0 \<le> r_ret r | _ \<Rightarrow> False)) t"

text \<open>In the chroot, without the groups of the daemon, not dumpable, with the given identity.\<close>

definition confined :: "u32 \<Rightarrow> u32 \<Rightarrow> trace \<Rightarrow> bool" where
  "confined uid gid t \<longleftrightarrow>
     did (Fs (Chroot ''.'')) t \<and> did (Pr (Setgroups [])) t \<and> did (Pr (Prctl_set_dumpable 0)) t
     \<and> uids_of t = Some (uid, uid) \<and> gid_of t = Some gid"

fun job_ok :: "u32 \<Rightarrow> u32 \<Rightarrow> trace \<Rightarrow> bool" where
  "job_ok uid gid [] = True"
| "job_ok uid gid ((c, r) # t) =
     (job_ok uid gid t \<and>
      (case c of
         Pr p \<Rightarrow>
           (case p of
              Execve _ _ _ \<Rightarrow> confined uid gid t
            | Fork \<Rightarrow> True
            | _ \<Rightarrow> \<not> dropped t \<or> harmless c)
       | _ \<Rightarrow> \<not> dropped t \<or> harmless c))"

lemma dropped_simps [simp]:
  "dropped [] = False"
  "dropped ((c, r) # t) \<longleftrightarrow> (case c of Pr (Setuid _) \<Rightarrow> 0 \<le> r_ret r | _ \<Rightarrow> False) \<or> dropped t"
  "dropped (t @ u) \<longleftrightarrow> dropped t \<or> dropped u"
  by (simp_all add: dropped_def)

declare did.simps [simp del]

lemma did_simps [simp]:
  "did c [] = False" "did c ((c', r) # t) \<longleftrightarrow> c' = c \<and> 0 \<le> r_ret r \<or> did c t" "did c (t @ u) \<longleftrightarrow> did c t \<or> did c u"
  by (simp_all add: did.simps)

interpretation prep: trace_safety "\<lambda>t. job_ok uid gid t \<and> \<not> dropped t" for uid gid
  by unfold_locales simp

interpretation job: trace_safety "job_ok uid gid" for uid gid
  by unfold_locales (simp add: harmless_def)

lemma pre_drop_step:
  "pre_drop c \<Longrightarrow> job_ok uid gid t \<and> \<not> dropped t \<Longrightarrow> job_ok uid gid ((c, r) # t) \<and> \<not> dropped ((c, r) # t)"
  by (auto simp: pre_drop_def split: call.splits proc_call.splits)

lemma harmless_step: "harmless c \<Longrightarrow> job_ok uid gid t \<Longrightarrow> job_ok uid gid ((c, r) # t)"
  by (auto simp: harmless_def split: call.splits proc_call.splits)

text \<open>Steps of the preparation: a part keeps what has been done.\<close>

abbreviation preparing :: "u32 \<Rightarrow> u32 \<Rightarrow> world \<Rightarrow> bool" where
  "preparing uid gid w \<equiv> job_ok uid gid (trace w) \<and> \<not> dropped (trace w)"

lemma prep_part:
  assumes "preparing uid gid w" and "emits pre_drop m"
    and "\<And>x v. preparing uid gid v \<Longrightarrow> (\<And>c. did c (trace w) \<Longrightarrow> did c (trace v)) \<Longrightarrow> prep.meets uid gid (k x) Q v"
  shows "prep.meets uid gid (bnd m k) Q w"
  by (rule prep.part [OF assms(1,2)], erule pre_drop_step, assumption, rule assms(3)) auto

lemma prep_seq:
  assumes "preparing uid gid w" and "emits pre_drop m"
    and "\<And>v. preparing uid gid v \<Longrightarrow> (\<And>c. did c (trace w) \<Longrightarrow> did c (trace v)) \<Longrightarrow> prep.meets uid gid k Q v"
  shows "prep.meets uid gid (seq m k) Q w"
  unfolding seq_def by (rule prep_part [OF assms(1,2)]) (rule assms(3))

lemma setup_confined:
  assumes "preparing uid gid0 w"
  shows "prep.meets uid gid0 (chrootuid_setup gid user_name)
     (\<lambda>_ v. did (Fs (Chroot ''.'')) (trace v) \<and> did (Pr (Setgroups [])) (trace v)) w"
proof -
  have ns: "emits pre_drop (bnd (getg cl) (\<lambda>c. setup_ns (caller_pid c) (caller_uid c)))"
    and net: "emits pre_drop (bnd (getg (share_caller_network \<circ> x11)) (\<lambda>share. only_if (\<not> share) unshare_network))"
    by (intro inv_intros pre_ns)+
  show ?thesis
    unfolding chrootuid_setup_def
    apply (rule prep_seq [OF assms pre_killuid])
    apply (rule prep_part [OF _ pre_others(1)], assumption)
    apply (rule prep.step_family, assumption)
    apply (rule prep.branch, rule prep.dies, simp)
    apply (rule prep_seq [OF _ ns], simp)
    apply (rule prep_seq [OF _ pre_chroot_dir], assumption)
    apply (rule prep_seq [OF _ pre_fns(5)], assumption)
    apply (rule prep_part [OF _ pre_others(2)], assumption, rule prep.branch_prod)
    apply (rule prep_part [OF _ pre_others(3)], assumption)
    apply (rule prep_seq [OF _ pre_ns(2)], assumption)
    apply (rule prep_seq [OF _ pre_ns(3)], assumption)
    apply (rule prep_seq [OF _ net], assumption)
    apply (rule prep_part [OF _ harmless_terminal(4) [THEN pre_drop_harmless]], assumption)
    apply (rule prep.step_family, assumption)
    apply (rule prep.branch, rule prep.dies, simp)
    apply (rule prep_part [OF _ pre_others(4)], simp)
    apply (rule prep.branch, rule prep.dies, assumption)
    apply (rule prep_seq [OF _ pre_others(5)], assumption)
    apply (rule prep_seq [OF _ harmless_fds(6) [THEN pre_drop_harmless]], assumption)
    apply (rule prep_seq [OF _ harmless_signals(3) [THEN pre_drop_harmless]], assumption)
    apply (rule prep.returns_safe, assumption)
    apply simp
    done
qed

interpretation conf: trace_safety "\<lambda>t. job_ok uid gid t \<and> confined u g t" for uid gid u g
  by unfold_locales (simp add: harmless_def confined_def)

text \<open>What the two processes do after they have changed their identity.\<close>

definition child_call :: "call \<Rightarrow> bool" where
  "child_call c \<longleftrightarrow> (case c of Pr p \<Rightarrow> (case p of Fork \<Rightarrow> True | Execve _ _ _ \<Rightarrow> True | _ \<Rightarrow> harmless c) | _ \<Rightarrow> harmless c)"

lemma confined_step: "keeps_ids c \<Longrightarrow> confined u g t \<Longrightarrow> confined u g ((c, r) # t)"
  using keeps_ids_step [of c r "uids_of t" "gid_of t"] by (simp add: confined_def)

lemma harmless_keeps_ids: "harmless c \<Longrightarrow> keeps_ids c"
  by (auto simp: harmless_def keeps_ids_def split: call.splits proc_call.splits)

lemma parent_step:
  "harmless c \<Longrightarrow> job_ok uid gid t \<and> confined u g t \<Longrightarrow> job_ok uid gid ((c, r) # t) \<and> confined u g ((c, r) # t)"
  using harmless_step confined_step harmless_keeps_ids by blast

lemma child_step:
  assumes "child_call c" and "job_ok uid gid t \<and> confined uid gid t"
  shows "job_ok uid gid ((c, r) # t) \<and> confined uid gid ((c, r) # t)"
proof (cases "harmless c")
  case True
  with assms parent_step show ?thesis by blast
next
  case False
  with assms(1) have c: "c = Pr Fork \<or> (\<exists>p a e. c = Pr (Execve p a e))"
    by (auto simp: child_call_def split: call.splits proc_call.splits)
  then have "keeps_ids c" by (auto simp: keeps_ids_def)
  with assms(2) c confined_step show ?thesis by auto
qed

lemma child_harmless: "emits harmless m \<Longrightarrow> emits child_call m"
  by (erule emits_mono) (auto simp: harmless_def child_call_def split: call.splits proc_call.splits)

lemmas child_fns = harmless_fns [THEN child_harmless]

lemma child_affinity: "emits child_call (set_affinity_nproc n)"
proof -
  have "emits child_call (shuffle_cpus is k tmp)" for "is" k tmp
    by (induction "is" k tmp rule: shuffle_cpus.induct)
      (auto simp: child_call_def harmless_def intro!: inv_intros)
  then show ?thesis
    unfolding set_affinity_nproc_def by (intro inv_intros) (simp_all add: child_call_def harmless_def)
qed

lemma child_handle: "emits child_call (handle_child argv env pty pipe_out pipe_err ctl)"
  unfolding handle_child_def connect_fds_def send_x11_def xauth_gen_fake_def xauth_add_entry_def execve_def
  by (intro inv_intros runs_wait_status child_fns child_affinity; simp add: child_call_def harmless_def)

lemma handle_child_noreturn: "noreturn (handle_child argv env pty pipe_out pipe_err ctl)"
  unfolding handle_child_def by (intro returns_rules)

lemma pre_chain: "emits pre_drop (close_chain fds)"
  by (induction fds) (auto intro!: inv_intros pre_fns)

lemma cl_chain: "runs (keeps_held k) (close_chain fds)" "runs (keeps_held k) drop_dumpable"
proof -
  show "runs (keeps_held k) (close_chain fds)"
    by (induction fds) (auto intro!: cl_rules cl_fns)
  show "runs (keeps_held k) drop_dumpable" unfolding drop_dumpable_def by (intro cl_rules)
qed

text \<open>The drop itself: with the dumpable flag cleared, the gid first and then the uid.\<close>

lemma become_confined:
  assumes "preparing uid gid w"
    and "did (Fs (Chroot ''.'')) (trace w)" "did (Pr (Setgroups [])) (trace w)" "did (Pr (Prctl_set_dumpable 0)) (trace w)"
  shows "job.meets uid gid (become u g) (\<lambda>_ v. confined u g (trace v)) w"
  unfolding become_def
  apply (intro job.step_family job.branch job.dies job.returns_safe)
  using assms apply (simp_all add: confined_def)
  done

lemma prep_job: "prep.meets uid gid m Q w \<Longrightarrow> job.meets uid gid m (\<lambda>x v. preparing uid gid v \<and> Q x v) w"
  unfolding prep.meets_def job.meets_def by (erule wp_conseq) auto

lemma prep_class:
  assumes "preparing uid gid w" and "emits pre_drop m" and "runs (keeps_held k) m" and "held (gl w) = k"
  shows "job.meets uid gid m (\<lambda>_ v. preparing uid gid v \<and> held (gl v) = k \<and> (\<forall>x. did x (trace w) \<longrightarrow> did x (trace v))) w"
proof -
  have "prep.meets uid gid m (\<lambda>_ v. \<forall>x. did x (trace w) \<longrightarrow> did x (trace v)) w"
    by (rule prep.class_meets [OF assms(1,2)], erule pre_drop_step, assumption) auto
  then have "job.meets uid gid m (\<lambda>_ v. preparing uid gid v \<and> (\<forall>x. did x (trace w) \<longrightarrow> did x (trace v))) w"
    by (rule prep_job)
  moreover have "pc m (\<lambda>_ v. held (gl v) = k) w" by (rule pc_keeps [OF assms(3,4)])
  ultimately show ?thesis
    unfolding job.meets_def by (rule wp_conseq [OF wp_conj]) auto
qed

lemma drop_dumpable_done:
  assumes "preparing uid gid w"
  shows "job.meets uid gid drop_dumpable (\<lambda>_ v. preparing uid gid v \<and> did (Pr (Prctl_set_dumpable 0)) (trace v)
     \<and> (\<forall>x. did x (trace w) \<longrightarrow> did x (trace v)) \<and> gl v = gl w) w"
  unfolding drop_dumpable_def
  by (intro job.step_family job.branch job.dies job.returns_safe) (use assms in \<open>simp_all add: harmless_def\<close>)

lemma parent_confined:
  assumes w: "preparing uid gid w" "cl (gl w) = c"
    and d: "did (Fs (Chroot ''.'')) (trace w)" "did (Pr (Setgroups [])) (trace w)"
  shows "job.meets uid gid (chrootuid_parent pid fds) (\<lambda>_ v. confined (caller_uid c) (caller_gid c) (trace v)) w"
proof -
  have serve: "job.meets uid gid (handle_parent p a b e x) (\<lambda>_ v. confined u g (trace v)) v"
    if "job_ok uid gid (trace v)" "confined u g (trace v)" for p a b e x u g v
  proof -
    have "conf.meets uid gid u g (handle_parent p a b e x) (\<lambda>_ v. True) v"
      by (rule conf.last_part [OF _ harmless_parent]) (use that parent_step in blast)+
    then show ?thesis unfolding conf.meets_def job.meets_def by (rule wp_conseq) auto
  qed
  show ?thesis
    unfolding chrootuid_parent_def
    apply (rule job.get)
    apply (rule job.after [OF prep_class [OF w(1) pre_chain cl_chain(1) HOL.refl]])
    apply (rule job.branch, rule job.dies, assumption)
    apply (rule job.after_seq [OF drop_dumpable_done])
     apply blast
    apply (simp only: seq_bnd)
    apply (rule job.get)
    apply (rule job.after_seq [OF become_confined])
        apply (use d in auto) [4]
    apply (rule serve, assumption)
    apply (use w(2) in \<open>auto simp: held_def\<close>)
    done
qed

lemma child_confined:
  assumes w: "preparing uid gid w"
    and d: "did (Fs (Chroot ''.'')) (trace w)" "did (Pr (Setgroups [])) (trace w)"
  shows "job.meets uid gid (chrootuid_child uid gid persona argv ehome euser epath fds) (\<lambda>_ _. False) w"
proof -
  have persona: "emits child_call (set_persona persona)"
    unfolding set_persona_def by (intro inv_intros) (simp_all add: child_call_def harmless_def)
  have exec: "job.meets uid gid (seq (set_persona persona) (bnd (getg cf) (\<lambda>c.
         handle_child argv (env c) s a b e))) (\<lambda>_ _. False) v"
    if "job_ok uid gid (trace v)" "confined uid gid (trace v)" for env s a b e v
  proof -
    let ?m = "seq (set_persona persona) (bnd (getg cf) (\<lambda>c. handle_child argv (env c) s a b e))"
    have "emits child_call ?m" by (intro inv_intros persona child_handle)
    then have "conf.meets uid gid uid gid ?m (\<lambda>_ v. True) v"
      by (rule conf.last_part [rotated]) (use that child_step in blast)+
    moreover have "noreturn ?m" by (intro returns_rules handle_child_noreturn)
    ultimately show ?thesis
      unfolding conf.meets_def job.meets_def
      by (rule wp_conseq [OF wp_conj [OF _ pc_noreturn]]) auto
  qed
  have net: "emits pre_drop (bnd (getg (share_caller_network \<circ> x11)) (\<lambda>share. only_if share unshare_network))"
    by (intro inv_intros pre_ns)
  have net_cl: "runs (keeps_held k) (bnd (getg (share_caller_network \<circ> x11)) (\<lambda>share. only_if share unshare_network))" for k
    by (intro cl_rules cl_fns)
  show ?thesis
    unfolding chrootuid_child_def
    apply (rule job.get)
    apply (rule job.after [OF prep_class [OF w(1) pre_chain cl_chain(1) refl]])
    apply (rule job.branch, rule job.dies, assumption)
    apply (rule job.after_seq [OF prep_class [OF _ net net_cl refl]], blast)
    apply (rule job.after_seq [OF drop_dumpable_done], blast)
    apply (rule job.step_family, assumption)
    apply (rule job.after_seq [OF become_confined])
        apply (use d in \<open>auto simp: harmless_def\<close>) [4]
    apply (rule exec, assumption+)
    done
qed

lemma chrootuid_meets:
  assumes w: "preparing uid gid w" "cl (gl w) = c"
  shows "job.meets uid gid (chrootuid uid gid persona user_name argv ehome euser epath)
      (\<lambda>_ v. confined (caller_uid c) (caller_gid c) (trace v)) w"
proof -
  have keep: "pc (chrootuid_setup gid user_name) (\<lambda>_ v. cl (gl v) = c) w"
    by (rule pc_keeps [OF cl_setup HOL.refl]) (use w(2) in \<open>simp add: held_def\<close>)
  have prepared: "job.meets uid gid (chrootuid_setup gid user_name) (\<lambda>_ v. preparing uid gid v \<and> cl (gl v) = c
      \<and> did (Fs (Chroot ''.'')) (trace v) \<and> did (Pr (Setgroups [])) (trace v)) w"
    using wp_conj [OF prep_job [OF setup_confined [OF w(1)], unfolded job.meets_def] keep]
    unfolding job.meets_def by (rule wp_conseq) auto
  show ?thesis
    unfolding chrootuid_def
    apply (rule job.after [OF prepared])
    apply (rule job.step_family, assumption)
    apply (rule job.branch, rule job.dies, simp)
    apply (rule job.branch)
     apply (rule parent_confined)
        apply (auto simp: harmless_def) [4]
    apply (rule job.meets_conseq [OF child_confined])
       apply (auto simp: harmless_def)
    done
qed


subsection \<open>Shuffled affinity\<close>

definition cpus :: "cpu_set \<Rightarrow> nat set" where "cpus s = {i. CPU_ISSET i s}"

lemma cpus_finite [simp]: "finite (cpus s)"
  by (rule finite_subset [of _ "{..<length s}"]) (auto simp: cpus_def CPU_ISSET_def)

lemma CPU_COUNT_card: "CPU_COUNT s = card (cpus s)"
  by (simp add: CPU_COUNT_def length_filter_conv_card cpus_def CPU_ISSET_def)

lemma length_filter_upt: "length (filter P [a..<b]) = card {i. a \<le> i \<and> i < b \<and> P i}"
  by (subst distinct_card [symmetric]) (auto intro!: arg_cong [where f = card])

lemma ISSET_update [simp]:
  "CPU_ISSET i (CPU_CLR x s) \<longleftrightarrow> CPU_ISSET i s \<and> i \<noteq> x"
  "x < length s \<Longrightarrow> CPU_ISSET i (CPU_SET x s) \<longleftrightarrow> CPU_ISSET i s \<or> i = x"
  by (cases "x = i"; auto simp: CPU_ISSET_def CPU_CLR_def CPU_SET_def)+

lemma cpus_update:
  "x < length s \<Longrightarrow> cpus (CPU_SET x s) = insert x (cpus s)" "cpus (CPU_CLR x s) = cpus s - {x}"
  by (auto simp: cpus_def)

lemma length_swap [simp]: "length (CPU_SET x s) = length s" "length (CPU_CLR x s) = length s"
  "length (cpu_set_swap_bits x y s) = length s"
  by (simp_all add: CPU_SET_def CPU_CLR_def cpu_set_swap_bits_def Let_def)

lemma swap_cpus:
  assumes "x < length s" and "y < length s"
  shows "cpus (cpu_set_swap_bits x y s) =
    (if x \<in> cpus s then (if y \<in> cpus s then cpus s else insert y (cpus s - {x}))
     else if y \<in> cpus s then insert x (cpus s - {y}) else cpus s)"
  using assms unfolding cpu_set_swap_bits_def Let_def
  by (auto simp: cpus_update) (auto simp: cpus_def)

lemma swap_count:
  assumes "x < length s" and "y < length s"
  shows "card (cpus (cpu_set_swap_bits x y s)) = card (cpus s)"
proof -
  have "card (insert b (S - {a})) = card S" if "finite S" "a \<in> S" "b \<notin> S" for a b and S :: "nat set"
    using that by (simp add: card_insert_if card_Diff_singleton) (metis Suc_pred card_gt_0_iff empty_iff)
  then show ?thesis by (simp add: swap_cpus [OF assms])
qed

text \<open>After the shuffle, the \<open>n\<close> bits lie below \<open>k\<close>.\<close>

definition drawn :: "nat \<Rightarrow> nat \<Rightarrow> cpu_set \<Rightarrow> bool" where
  "drawn n k tmp \<longleftrightarrow> length tmp = CPU_SETSIZE \<and> card (cpus tmp) = n \<and> cpus tmp \<subseteq> {..<k}"

lemma drawn_start: "n \<le> k \<Longrightarrow> n \<le> CPU_SETSIZE \<Longrightarrow> drawn n k (fold CPU_SET [0..<n] CPU_ZERO)"
proof -
  assume n: "n \<le> k" "n \<le> CPU_SETSIZE"
  have "length (fold CPU_SET [0..<m] CPU_ZERO) = CPU_SETSIZE \<and> cpus (fold CPU_SET [0..<m] CPU_ZERO) = {..<m}"
    if "m \<le> CPU_SETSIZE" for m
    using that
  proof (induction m)
    case 0
    show ?case by (simp add: CPU_ZERO_def cpus_def CPU_ISSET_def)
  next
    case (Suc m)
    then show ?case by (simp add: cpus_update lessThan_Suc)
  qed
  from this [OF n(2)] n show ?thesis by (auto simp: drawn_def)
qed

lemma shuffle_drawn:
  "drawn n k tmp \<Longrightarrow> set is \<subseteq> {..<k} \<Longrightarrow> 0 < k \<Longrightarrow> k \<le> CPU_SETSIZE \<Longrightarrow> returns (shuffle_cpus is k tmp) (drawn n k)"
proof (induction "is" k tmp rule: shuffle_cpus.induct)
  case (2 i "is" k tmp)
  have "drawn n k (cpu_set_swap_bits i (j mod k) tmp)" for j
  proof -
    have "i < length tmp" "j mod k < length tmp" "i < k" "j mod k < k"
      using "2.prems" mod_less_divisor [of k j] by (auto simp: drawn_def simp del: mod_less_divisor)
    moreover from this have "cpus (cpu_set_swap_bits i (j mod k) tmp) \<subseteq> {..<k}"
      using "2.prems"(1) by (auto simp: drawn_def swap_cpus)
    ultimately show ?thesis
      using "2.prems"(1) swap_count [of i tmp "j mod k"] by (simp add: drawn_def)
  qed
  with 2 show ?case by (auto intro!: returns_rules)
qed (simp add: returns_ret)

lemma select_outside: "i \<notin> set is \<Longrightarrow> CPU_ISSET i (select_cpus is j k tmp s) \<longleftrightarrow> CPU_ISSET i s"
  by (induction "is" j k tmp s rule: select_cpus.induct) auto

lemma select_less: "CPU_ISSET i (select_cpus is j k tmp s) \<Longrightarrow> CPU_ISSET i s"
  by (induction "is" j k tmp s rule: select_cpus.induct)
    (auto split: if_splits)

lemma select_count:
  "distinct is \<Longrightarrow> j + length (filter (\<lambda>i. CPU_ISSET i s) is) = k \<Longrightarrow>
     length (filter (\<lambda>i. CPU_ISSET i (select_cpus is j k tmp s)) is) = length (filter (\<lambda>j. CPU_ISSET j tmp) [j..<k])"
proof (induction "is" j k tmp s rule: select_cpus.induct)
  case (2 i "is" j k tmp s)
  show ?case
  proof (cases "CPU_ISSET i s")
    case True
    with "2.prems" have j: "j < k" by auto
    let ?s = "if \<not> CPU_ISSET j tmp then CPU_CLR i s else s"
    have same: "filter (\<lambda>i. CPU_ISSET i ?s) is = filter (\<lambda>i. CPU_ISSET i s) is"
      using "2.prems"(1) by (intro filter_cong) auto
    have "length (filter (\<lambda>i. CPU_ISSET i (select_cpus is (Suc j) k tmp ?s)) is) = length (filter (\<lambda>j. CPU_ISSET j tmp) [Suc j..<k])"
      using j True "2.prems" by (intro "2.IH"(1)) (simp_all only: same, simp_all)
    moreover have "CPU_ISSET i (select_cpus is (Suc j) k tmp ?s) \<longleftrightarrow> CPU_ISSET j tmp"
      using "2.prems"(1) True by (simp add: select_outside)
    ultimately show ?thesis using j True by (cases "CPU_ISSET j tmp") (simp_all add: upt_conv_Cons)
  next
    case unset: False
    show ?thesis
    proof (cases "k \<le> j")
      case True
      moreover from "2.prems"(2) unset have "j + length (filter (\<lambda>i. CPU_ISSET i s) is) = k" by simp
      ultimately have "length (filter (\<lambda>i. CPU_ISSET i s) is) = 0" by linarith
      then have "filter (\<lambda>i. CPU_ISSET i s) is = []" by simp
      with True unset show ?thesis by simp
    next
      case False
      have "\<not> CPU_ISSET i (select_cpus is j k tmp s)" using unset select_less by blast
      with False unset "2.IH"(2) "2.prems" show ?thesis by simp
    qed
  qed
qed simp

lemma selected_cpus:
  assumes "drawn n k tmp" and "k = CPU_COUNT s" and "length s = CPU_SETSIZE"
  shows "length (cpus_of (select_cpus [0..<CPU_SETSIZE] 0 k tmp s)) = n"
proof -
  have "card (cpus s) = length (filter (\<lambda>i. CPU_ISSET i s) [0..<CPU_SETSIZE])"
    unfolding length_filter_upt cpus_def by (rule arg_cong [where f = card]) (auto simp: CPU_ISSET_def assms(3))
  then have "length (cpus_of (select_cpus [0..<CPU_SETSIZE] 0 k tmp s)) = length (filter (\<lambda>j. CPU_ISSET j tmp) [0..<k])"
    unfolding cpus_of_def by (intro select_count) (simp_all add: assms(2) CPU_COUNT_card)
  also have "... = n"
    using assms(1) unfolding length_filter_upt drawn_def cpus_def
    by (auto intro!: arg_cong [where f = card])
  finally show ?thesis .
qed

text \<open>The mask set is drawn from one reported before.\<close>

fun mask_ok :: "nat \<Rightarrow> trace \<Rightarrow> bool" where
  "mask_ok n [] = True"
| "mask_ok n ((c, r) # t) =
     (mask_ok n t \<and>
      (case c of
         Pr p \<Rightarrow> (case p of
            Sched_setaffinity l \<Rightarrow> length l = n \<and> distinct l
              \<and> list_ex (\<lambda>(c', r'). c' = Pr Sched_getaffinity \<and> list_all (\<lambda>i. int i \<in> set (r_ints r')) l) t
          | _ \<Rightarrow> True)
       | _ \<Rightarrow> True))"

interpretation mask: trace_safety "mask_ok n" for n
  by unfold_locales simp

lemma affinity_safe:
  assumes "mask_ok (unat nproc) (trace w)"
  shows "mask.safe (unat nproc) (set_affinity_nproc nproc) w"
proof -
  let ?n = "unat nproc"
  have shuffle: "mask.meets ?n (shuffle_cpus [0..<?n] k tmp)
      (\<lambda>tmp' v. drawn ?n k tmp' \<and> list_all (\<lambda>x. list_ex (\<lambda>y. y = x) (trace v)) (trace w)) w"
    if "drawn ?n k tmp" "?n < k" "k \<le> CPU_SETSIZE" "mask_ok ?n (trace w)" for k tmp w
  proof -
    let ?rand = "\<lambda>c. c = Pr Random"
    have "emits ?rand (shuffle_cpus is k tmp)" for "is" k tmp
      by (induction "is" k tmp rule: shuffle_cpus.induct) (auto intro!: inv_intros)
    then have "mask.meets ?n (shuffle_cpus [0..<?n] k tmp) (\<lambda>_ v. list_all (\<lambda>x. list_ex (\<lambda>y. y = x) (trace v)) (trace w)) w"
      by (rule mask.class_meets [rotated]) (use that(4) in \<open>auto simp: list_all_iff list_ex_iff\<close>)
    moreover have "returns (shuffle_cpus [0..<?n] k tmp) (drawn ?n k)"
      using that by (intro shuffle_drawn) auto
    then have "pc (shuffle_cpus [0..<?n] k tmp) (\<lambda>tmp _. drawn ?n k tmp) w" by (auto simp: returns_def intro!: wpI)
    ultimately show ?thesis
      unfolding mask.meets_def by (rule wp_conseq [OF wp_conj]) auto
  qed
  have mem: "list_all (\<lambda>i. int i \<in> set is) (cpus_of (select_cpus l 0 k tmp (map (\<lambda>i. int i \<in> set is) [0..<CPU_SETSIZE])))"
    for l k tmp "is"
  proof -
    have "int i \<in> set is" if "CPU_ISSET i (select_cpus l 0 k tmp (map (\<lambda>i. int i \<in> set is) [0..<CPU_SETSIZE]))" for i
      using select_less [OF that] by (auto simp: CPU_ISSET_def)
    then show ?thesis by (auto simp: cpus_of_def list_all_iff)
  qed
  have distinct: "distinct (cpus_of s)" for s by (simp add: cpus_of_def)
  have found: "list_ex P t" if "list_ex (\<lambda>y. y = x) t" "P x" for P t and x :: "call \<times> reply"
    using that by (auto simp: list_ex_iff)
  have bound: "CPU_COUNT s \<le> length s" for s by (simp add: CPU_COUNT_def)
  have size: "CPU_COUNT (map f [0..<CPU_SETSIZE]) \<le> CPU_SETSIZE" for f
    using bound [of "map f [0..<CPU_SETSIZE]"] by simp
  have start: "drawn ?n (CPU_COUNT (map f [0..<CPU_SETSIZE])) (fold CPU_SET [0..<?n] CPU_ZERO)"
    if "\<not> CPU_COUNT (map f [0..<CPU_SETSIZE]) \<le> ?n" for f
    using that size [of f] by (intro drawn_start) simp_all
  show ?thesis
    unfolding set_affinity_nproc_def Let_def
    apply (intro mask.step_family mask.branch mask.returns_safe mask.after [OF shuffle])
    using assms apply (simp_all add: start size selected_cpus distinct)
    apply (elim conjE, rule found [where x = "(Pr Sched_getaffinity, r)" for r], assumption)
    apply (simp add: mem)
    done
qed

text \<open>
  C35: a job limited to a number of CPUs is given exactly that many, chosen among those that it was
  allowed before: whatever random numbers are drawn, the mask set has \<open>nproc\<close> members, all of them in
  a mask that \<open>sched_getaffinity\<close> has reported.
\<close>

theorem affinity_exact:
  "mask_ok (unat nproc) (trace (snd (set_affinity_nproc nproc (start g [] rs))))"
  using affinity_safe [of nproc "start g [] rs"] by (simp add: mask.safe_def start_def)

subsection \<open>The limits that are set\<close>

definition rlimit_call :: "change_rlimit_t list \<Rightarrow> call \<Rightarrow> bool" where
  "rlimit_call l c \<longleftrightarrow> (case c of
       Pr p \<Rightarrow> (case p of
          Getrlimit res \<Rightarrow> True
        | Setrlimit res cur lim \<Rightarrow>
            cur \<le> lim \<and> list_ex (\<lambda>q. rl_resource q = res
              \<and> (case rl_hard q of Some h \<Rightarrow> lim = h | None \<Rightarrow> True)
              \<and> (case rl_soft q of Some s \<Rightarrow> cur = min s lim | None \<Rightarrow> True)) l
        | _ \<Rightarrow> False)
     | Mi m \<Rightarrow> (case m of Log _ _ _ \<Rightarrow> True | _ \<Rightarrow> False)
     | _ \<Rightarrow> False)"

lemma set_rlimit_emits:
  assumes "p \<in> set l"
  shows "emits (rlimit_call l) (set_rlimit p)"
proof -
  have "rlimit_call l (Pr (Setrlimit (rl_resource p) (if lim < cur then lim else cur) lim))"
    if "lim = (case rl_hard p of Some h \<Rightarrow> h | None \<Rightarrow> a)" "cur = (case rl_soft p of Some s \<Rightarrow> s | None \<Rightarrow> b)" for lim cur a b
    using assms that unfolding rlimit_call_def
    by (auto simp: list_ex_iff min_def split: option.splits intro!: bexI [of _ p])
  then show ?thesis
    unfolding set_rlimit_def by (intro inv_intros) (simp_all add: rlimit_call_def [of l "Pr (Getrlimit _)"])
qed

text \<open>
  C36: the resource limits of a job: every limit set has its soft value at most its hard value; the
  hard value is the configured one if one is configured, and so is the soft value unless the hard
  limit is lower; and the process makes no other call in between.
\<close>

theorem set_rlimits_configured:
  "\<exists>new. trace (snd (set_rlimits w)) = new @ trace w
     \<and> list_all (\<lambda>(c, r). rlimit_call (change_rlimit (cf (gl w))) c) new"
proof -
  let ?l = "change_rlimit (cf (gl w))"
  have "or_log (rlimit_call ?l) = rlimit_call ?l"
    by (auto simp: or_log_def fun_eq_iff rlimit_call_def)
  moreover have "emits_from (rlimit_call ?l) set_rlimits w"
    unfolding set_rlimits_def
    by (rule emits_from_getg, rule emits_from_all) (auto intro!: em.for_each set_rlimit_emits)
  ultimately show ?thesis by (auto simp: emits_from_def extends_by_def list_all_iff)
qed

end
