(* ===== verification/Job.thy ===== *)
theory Job
  imports Fds
begin

text \<open>
  A job and the requests that build it up: \<open>struct job\<close>, the validation of its arguments, the
  reception of its command headers and string arrays (caller_job.c), and the names of the job
  types (job2str.c). Running a job that has been received is in theory \<open>Runner\<close>.
\<close>

subsection \<open>The job\<close>

text \<open>Null pointers in \<open>argv\<close> and \<open>env\<close> are \<open>None\<close>.\<close>

record job =
  job_type :: u32
  job_mask :: u32
  job_persona :: u32
  job_chroot_fd :: int
  job_std_fds :: "int list"
  job_pipe_fds :: "int list"
  job_argv :: "string list option"
  job_env :: "string list option"

definition job_init :: job where
  "job_init = \<lparr>job_type = JOB_NONE, job_mask = 0, job_persona = - 1, job_chroot_fd = -1,
               job_std_fds = [-1, -1, -1], job_pipe_fds = [-1, -1], job_argv = None, job_env = None\<rparr>"

definition jobmap :: "(u32 \<times> string) list" where
  "jobmap = [(JOB_NONE, ''none''), (JOB_GETCONF, ''getconf''), (JOB_KILLUID, ''killuid''),
             (JOB_GETUGID1, ''getugid1''), (JOB_GETUGID2, ''getugid2''),
             (JOB_CHROOTUID1, ''chrootuid1''), (JOB_CHROOTUID2, ''chrootuid2'')]"

definition job2str :: "u32 \<Rightarrow> string option" where
  "job2str type = map_of jobmap type"

definition is_job_spawning :: "job \<Rightarrow> bool" where
  "is_job_spawning j \<longleftrightarrow> job_type j = JOB_CHROOTUID1 \<or> job_type j = JOB_CHROOTUID2"

subsection \<open>Validation\<close>

text \<open>\<open>required_args\<close> and \<open>more_args\<close> of a job type.\<close>

definition arguments_of :: "u32 \<Rightarrow> (int \<times> bool) option" where
  "arguments_of type =
     (if type = JOB_GETCONF \<or> type = JOB_KILLUID \<or> type = JOB_GETUGID1 \<or> type = JOB_GETUGID2
      then Some (0, False)
      else if type = JOB_CHROOTUID1 \<or> type = JOB_CHROOTUID2 then Some (1, True)
      else None)"

definition validate_arguments :: "u32 \<Rightarrow> string list option \<Rightarrow> int m" where
  "validate_arguments type argv =
     (let argc = int (case argv of None \<Rightarrow> 0 | Some l \<Rightarrow> length l) in
      case arguments_of type of
        None \<Rightarrow> seq (error_msg ''unknown job type: %u'') (ret (-1))
      | Some (required_args, more_args) \<Rightarrow>
          if argc < 0
          then seq (error_msg ''number of arguments must be a positive but got %d'') (ret (-1))
          else if argc < required_args
          then seq (error_msg ''%s job requires at least %d arguments but got %d'') (ret (-1))
          else if required_args < argc \<and> \<not> more_args
          then seq (error_msg ''%s job requires exactly %d arguments but got %d'') (ret (-1))
          else ret 0)"

definition validate_job :: "job \<Rightarrow> int m" where
  "validate_job j =
     (if is_job_spawning j then
        (if job_mask j AND CMD_JOB_CHROOT_FD = 0 then seq (error_msg ''no root directory'') (ret (-1))
         else if job_mask j AND CMD_JOB_ARGUMENTS = 0 then seq (error_msg ''no arguments'') (ret (-1))
         else ret 0)
      else ret 0)"

subsection \<open>Releasing a job\<close>

fun close_all :: "int list \<Rightarrow> int list m" where
  "close_all [] = ret []"
| "close_all (fd # fds) =
     bnd (xclose_to fd) (\<lambda>fd'. bnd (close_all fds) (\<lambda>fds'. ret (fd' # fds')))"

text \<open>The strings are freed; the model sets them to \<open>None\<close>.\<close>

definition deallocate_job_resources :: "job \<Rightarrow> job m" where
  "deallocate_job_resources j =
     bnd (xclose_to (job_chroot_fd j)) (\<lambda>c.
     bnd (close_all (job_std_fds j)) (\<lambda>s.
     bnd (close_all (job_pipe_fds j)) (\<lambda>p.
     ret (j\<lparr>job_chroot_fd := c, job_std_fds := s, job_pipe_fds := p, job_env := None,
            job_argv := None\<rparr>))))"

definition cancel_job :: "int \<Rightarrow> job \<Rightarrow> string \<Rightarrow> 'a m" where
  "cancel_job conn j reason =
     bnd (deallocate_job_resources j) (\<lambda>_.
     bnd (send_response_to_client conn CMD_STATUS_FAILED (Some reason)) (\<lambda>_. c_exit 1))"

definition respond_server_error :: "int \<Rightarrow> job \<Rightarrow> 'a m" where
  "respond_server_error conn j = cancel_job conn j ''command failed''"

definition respond_bad_request :: "int \<Rightarrow> job \<Rightarrow> 'a m" where
  "respond_bad_request conn j = cancel_job conn j ''bad request''"

subsection \<open>Arrays of strings\<close>

text \<open>The strings in a buffer that a NUL byte is appended to.\<close>

function c_strings :: "string \<Rightarrow> string list" where
  "c_strings s =
     (if s = [] then []
      else takeWhile (\<lambda>c. c \<noteq> nul) s # c_strings (drop (Suc (length (takeWhile (\<lambda>c. c \<noteq> nul) s))) s))"
  by pat_completeness auto
termination by (relation "measure length") auto

declare c_strings.simps [simp del]

definition MAX_ARGS_SIZE :: u32 where "MAX_ARGS_SIZE = 0x20000"

text \<open>\<open>Some strings\<close> stands for a return value of 0, \<open>None\<close> for \<open>-1\<close>.\<close>

definition recv_strings_from_client :: "int \<Rightarrow> u32 \<Rightarrow> string list option m" where
  "recv_strings_from_client conn len =
     (if MAX_ARGS_SIZE < len then seq (error_msg ''strings of total size %u rejected'') (ret None)
      else bnd (sys_mi (Malloc (unat len + 1))) (\<lambda>r.
      if r_ret r = 0 then seq (perror_msg ''malloc'') (ret None)
      else bnd (if 0 < len then xrecvmsg conn (unat len) else ret (Some [])) (\<lambda>o_data.
      case o_data of
        None \<Rightarrow> ret None
      | Some args \<Rightarrow>
          let av = c_strings args in
          bnd (sys_mi (Malloc (8 * (length av + 1)))) (\<lambda>r.
          if r_ret r = 0 then seq (perror_msg ''calloc'') (ret None)
          else ret (Some av)))))"

subsection \<open>Waiting for a job\<close>

definition wait_job :: "job \<Rightarrow> int \<Rightarrow> int m" where
  "wait_job j pid =
     bnd (waitpid_retry pid False) (\<lambda>r.
     if r_ret r < 0 then seq (perror_msg ''waitpid'') (ret 1)
     else case r_status r of
       WExited rc \<Rightarrow>
         seq (if rc \<noteq> 0 then notice_msg ''%s/%u:%u: %s: process %d exited, status=%d''
              else info_msg ''%s/%u:%u: %s: process %d exited'')
           (ret (int rc))
     | WSignaled signo \<Rightarrow>
         seq (notice_msg ''%s/%u:%u: %s: process %d terminated by signal %d'')
           (ret (128 + int signo))
     | WOther _ \<Rightarrow> ret 1)"

subsection \<open>Receiving the job\<close>

definition acknowledge :: "int \<Rightarrow> job \<Rightarrow> (job + job) m" where
  "acknowledge conn j = bnd (send_response_to_client conn CMD_STATUS_DONE None) (\<lambda>_. ret (Inl j))"

text \<open>
  One round of the loop of \<open>receive_job_request\<close>: \<open>Inl\<close> goes round again, \<open>Inr\<close> is a job that
  has passed validation on \<open>CMD_JOB_RUN\<close>. \<open>receive_fields\<close> is the switch on a command that is
  not a repetition.
\<close>

definition receive_fields :: "int \<Rightarrow> job \<Rightarrow> cmd_header \<Rightarrow> (job + job) m" where
  "receive_fields conn j hdr =
     (let type = hdr_type hdr; len = hdr_len hdr in
      if type = CMD_JOB_TYPE then acknowledge conn (j\<lparr>job_type := len\<rparr>)
      else if type = CMD_JOB_PERSONALITY then acknowledge conn (j\<lparr>job_persona := len\<rparr>)
      else if type = CMD_JOB_CHROOT_FD then
        (if len \<noteq> 4 then respond_bad_request conn j
         else bnd (fd_recv conn 1 0) (\<lambda>(rc, fds, _).
           let j' = (if fds = [] then j else j\<lparr>job_chroot_fd := hd fds\<rparr>)
           in if rc < 0 then respond_bad_request conn j' else acknowledge conn j'))
      else if type = CMD_JOB_FDS then
        (if len \<noteq> 12 then respond_bad_request conn j
         else bnd (fd_recv conn 3 0) (\<lambda>(rc, fds, _).
           let j' = (if fds = [] then j else j\<lparr>job_std_fds := fds\<rparr>)
           in if rc < 0 then respond_bad_request conn j' else acknowledge conn j'))
      else if type = CMD_JOB_ARGUMENTS then
        bnd (recv_strings_from_client conn len) (\<lambda>o_argv.
        case o_argv of
          None \<Rightarrow> respond_bad_request conn j
        | Some argv \<Rightarrow>
            let j' = j\<lparr>job_argv := Some argv\<rparr> in
            bnd (validate_arguments (job_type j') (job_argv j')) (\<lambda>rc.
            if rc < 0 then respond_bad_request conn j' else acknowledge conn j'))
      else if type = CMD_JOB_ENVIRON then
        bnd (recv_strings_from_client conn len) (\<lambda>o_env.
        case o_env of
          None \<Rightarrow> respond_bad_request conn j
        | Some env \<Rightarrow> acknowledge conn (j\<lparr>job_env := Some env\<rparr>))
      else if type = CMD_JOB_RUN then
        bnd (if len \<noteq> 0 then ret (-1) else validate_job j) (\<lambda>rc.
        if rc < 0 then respond_bad_request conn j else ret (Inr j))
      else seq (error_msg ''unknown command: %d'') (respond_bad_request conn j))"

definition receive_command :: "int \<Rightarrow> job \<Rightarrow> (job + job) m" where
  "receive_command conn j =
     bnd (xrecvmsg conn 8) (\<lambda>o_hdr.
     case o_hdr of
       None \<Rightarrow> respond_server_error conn j
     | Some data \<Rightarrow>
         let hdr = header_of data in
         if job_mask j AND hdr_type hdr \<noteq> 0
         then seq (error_msg ''repeated command: %d'') (respond_bad_request conn j)
         else receive_fields conn (j\<lparr>job_mask := job_mask j OR hdr_type hdr\<rparr>) hdr)"

text \<open>
  Every round but the last sets one of the eight bits of the mask, so nine rounds are more than
  there can be (lemma \<open>tame_receive_commands\<close> in theory \<open>Fuel\<close>).
\<close>

definition receive_commands :: "int \<Rightarrow> job \<Rightarrow> job m" where
  "receive_commands conn j = loop 9 (receive_command conn) j"

subsection \<open>Command bits\<close>

lemma bit_push1: "i < 32 \<Longrightarrow> bit (push_bit i (1 :: u32)) k \<longleftrightarrow> k = i"
  by (auto simp: bit_exp_iff)

lemma and_push1: "i < 32 \<Longrightarrow> m AND push_bit i 1 = 0 \<longleftrightarrow> \<not> bit (m :: u32) i"
  using and_exp_eq_0_iff_not_bit [of m i] by simp

lemma bit_cmd:
  "bit CMD_JOB_TYPE k \<longleftrightarrow> k = 1" "bit CMD_JOB_FDS k \<longleftrightarrow> k = 2" "bit CMD_JOB_ARGUMENTS k \<longleftrightarrow> k = 3"
  "bit CMD_JOB_ENVIRON k \<longleftrightarrow> k = 4" "bit CMD_JOB_CHROOT_FD k \<longleftrightarrow> k = 5"
  "bit CMD_JOB_PERSONALITY k \<longleftrightarrow> k = 6" "bit CMD_JOB_RUN k \<longleftrightarrow> k = 7"
  unfolding cmd_defs by (rule bit_push1, simp)+

lemma and_cmd:
  "m AND CMD_JOB_TYPE = 0 \<longleftrightarrow> \<not> bit m 1" "m AND CMD_JOB_FDS = 0 \<longleftrightarrow> \<not> bit m 2"
  "m AND CMD_JOB_ARGUMENTS = 0 \<longleftrightarrow> \<not> bit m 3" "m AND CMD_JOB_ENVIRON = 0 \<longleftrightarrow> \<not> bit m 4"
  "m AND CMD_JOB_CHROOT_FD = 0 \<longleftrightarrow> \<not> bit m 5" "m AND CMD_JOB_PERSONALITY = 0 \<longleftrightarrow> \<not> bit m 6"
  "m AND CMD_JOB_RUN = 0 \<longleftrightarrow> \<not> bit m 7"
  unfolding cmd_defs by (rule and_push1, simp)+

subsection \<open>What the parts return\<close>

text \<open>The number of arguments is one the job type takes.\<close>

definition args_fit :: "u32 \<Rightarrow> string list option \<Rightarrow> bool" where
  "args_fit type argv \<longleftrightarrow>
     (case (arguments_of type, argv) of
        (Some (required_args, more_args), Some args) \<Rightarrow>
          required_args \<le> int (length args) \<and> (more_args \<or> int (length args) = required_args)
      | _ \<Rightarrow> False)"

lemma cancel_noreturn:
  "noreturn (cancel_job conn j s)" "noreturn (respond_server_error conn j)"
  "noreturn (respond_bad_request conn j)"
  by (auto simp: cancel_job_def respond_server_error_def respond_bad_request_def intro!: returns_rules)

lemmas cancel_returns [returns_rules] = cancel_noreturn [THEN noreturn_any]

lemma acknowledge_returns: "Q (Inl j) \<Longrightarrow> returns (acknowledge conn j) Q"
  by (auto simp: acknowledge_def intro!: returns_rules)

lemma validate_arguments_returns:
  "returns (validate_arguments type (Some args)) (\<lambda>rc. \<not> rc < 0 \<longrightarrow> args_fit type (Some args))"
  unfolding validate_arguments_def args_fit_def
  by (auto simp: Let_def split: option.splits intro!: returns_rules)

lemma validate_job_returns:
  "returns (validate_job j) (\<lambda>rc. \<not> rc < 0 \<longrightarrow>
     is_job_spawning j \<longrightarrow> bit (job_mask j) 5 \<and> bit (job_mask j) 3)"
  unfolding validate_job_def and_cmd by (auto intro!: returns_rules)

lemma fd_recv_returns: "returns (fd_recv conn n k) (\<lambda>(rc, fds, _). fds = [] \<or> length fds = n)"
  unfolding fd_recv_def by (auto simp: Let_def intro!: returns_rules split: list.splits)

subsection \<open>The invariant of a job\<close>

text \<open>
  A field is set exactly when its command has been received, and arguments that have been
  received fit the type of the job (so that a type sent after the arguments is impossible).
\<close>

definition job_inv :: "job \<Rightarrow> bool" where
  "job_inv j \<longleftrightarrow>
     (\<not> bit (job_mask j) 1 \<longrightarrow> job_type j = JOB_NONE)
   \<and> (\<not> bit (job_mask j) 2 \<longrightarrow> job_std_fds j = [-1, -1, -1])
   \<and> (if bit (job_mask j) 3 then bit (job_mask j) 1 \<and> args_fit (job_type j) (job_argv j)
      else job_argv j = None)
   \<and> (bit (job_mask j) 4 \<longleftrightarrow> job_env j \<noteq> None)
   \<and> (\<not> bit (job_mask j) 5 \<longrightarrow> job_chroot_fd j = -1)
   \<and> (\<not> bit (job_mask j) 6 \<longrightarrow> job_persona j = - 1)
   \<and> length (job_std_fds j) = 3 \<and> job_pipe_fds j = [-1, -1]"

text \<open>A job that \<open>CMD_JOB_RUN\<close> may start.\<close>

definition job_ready :: "job \<Rightarrow> bool" where
  "job_ready j \<longleftrightarrow>
     job_inv j \<and> (is_job_spawning j \<longrightarrow> bit (job_mask j) 5 \<and> (\<exists>arg args. job_argv j = Some (arg # args)))
     \<and> (\<not> is_job_spawning j \<longrightarrow> job_argv j = None \<or> job_argv j = Some [])"

lemma job_inv_init: "job_inv job_init"
  by (simp add: job_inv_def job_init_def)

lemma arguments_of_none [simp]: "arguments_of JOB_NONE = None"
  by (simp add: arguments_of_def job_defs)

lemma args_fit_spawning:
  "args_fit (job_type j) (job_argv j) \<Longrightarrow>
     (if is_job_spawning j then \<exists>arg args. job_argv j = Some (arg # args) else job_argv j = Some [])"
  by (auto simp: args_fit_def is_job_spawning_def arguments_of_def job_defs neq_Nil_conv Suc_le_length_iff
      length_Suc_conv
      split: option.splits if_splits)

lemma job_ready_of_inv:
  assumes "job_inv j" and "is_job_spawning j \<longrightarrow> bit (job_mask j) 5 \<and> bit (job_mask j) 3"
  shows "job_ready j"
  using assms args_fit_spawning [of j] by (cases "bit (job_mask j) 3") (auto simp: job_ready_def job_inv_def)

abbreviation round_post :: "(job \<Rightarrow> bool) \<Rightarrow> (job \<Rightarrow> bool) \<Rightarrow> job + job \<Rightarrow> bool" where
  "round_post I Q x \<equiv> (case x of Inl j \<Rightarrow> I j | Inr j \<Rightarrow> Q j)"

lemma receive_fields_inv:
  assumes "job_inv j" and new: "job_mask j AND hdr_type hdr = 0"
  shows "returns (receive_fields conn (j\<lparr>job_mask := job_mask j OR hdr_type hdr\<rparr>) hdr)
           (round_post job_inv job_ready)"
proof -
  note I = assms(1) [unfolded job_inv_def]
  let ?j = "j\<lparr>job_mask := job_mask j OR hdr_type hdr\<rparr>"
  consider "hdr_type hdr = CMD_JOB_TYPE" | "hdr_type hdr = CMD_JOB_PERSONALITY"
    | "hdr_type hdr = CMD_JOB_CHROOT_FD" | "hdr_type hdr = CMD_JOB_FDS"
    | "hdr_type hdr = CMD_JOB_ARGUMENTS" | "hdr_type hdr = CMD_JOB_ENVIRON"
    | "hdr_type hdr = CMD_JOB_RUN"
    | "hdr_type hdr \<notin> {CMD_JOB_TYPE, CMD_JOB_PERSONALITY, CMD_JOB_CHROOT_FD, CMD_JOB_FDS,
         CMD_JOB_ARGUMENTS, CMD_JOB_ENVIRON, CMD_JOB_RUN}"
    by blast
  then show ?thesis
  proof cases
    case 1
    then have "job_inv (?j\<lparr>job_type := hdr_len hdr\<rparr>)"
      using I new by (auto simp: job_inv_def bit_simps bit_cmd and_cmd)
    with 1 show ?thesis by (simp add: receive_fields_def acknowledge_returns)
  next
    case 2
    then have "job_inv (?j\<lparr>job_persona := hdr_len hdr\<rparr>)"
      using I new by (auto simp: job_inv_def bit_simps bit_cmd and_cmd)
    with 2 show ?thesis
      unfolding receive_fields_def by (auto simp: Let_def cmd_defs intro!: acknowledge_returns)
  next
    case 3
    then have "job_inv ?j" and "job_inv (?j\<lparr>job_chroot_fd := fd\<rparr>)" for fd
      using I new by (auto simp: job_inv_def bit_simps bit_cmd and_cmd)
    with 3 show ?thesis
      unfolding receive_fields_def
      by (auto simp: Let_def cmd_defs intro!: returns_rules acknowledge_returns)
  next
    case 4
    then have "job_inv ?j" and "length fds = 3 \<Longrightarrow> job_inv (?j\<lparr>job_std_fds := fds\<rparr>)" for fds
      using I new by (auto simp: job_inv_def bit_simps bit_cmd and_cmd)
    with 4 show ?thesis
      unfolding receive_fields_def
      by (auto simp: Let_def cmd_defs intro!: returns_splits returns_bnd [OF fd_recv_returns]
          cancel_returns acknowledge_returns)
  next
    case 5
    then have inv: "args_fit (job_type j) (Some av) \<Longrightarrow> job_inv (?j\<lparr>job_argv := Some av\<rparr>)" for av
      using I new by (auto simp: job_inv_def bit_simps bit_cmd and_cmd args_fit_def)
    show ?thesis
      unfolding receive_fields_def using 5 inv validate_arguments_returns [of "job_type j"]
      by (auto simp: Let_def cmd_defs intro!: returns_splits returns_bnd [OF validate_arguments_returns]
          returns_bnd_any [of "\<lambda>o_argv. case o_argv of None \<Rightarrow> _ | Some a \<Rightarrow> _ a"] cancel_returns acknowledge_returns)
  next
    case 6
    then have "job_inv (?j\<lparr>job_env := Some e\<rparr>)" for e
      using I new by (auto simp: job_inv_def bit_simps bit_cmd and_cmd)
    with 6 show ?thesis
      unfolding receive_fields_def
      by (auto simp: Let_def cmd_defs intro!: returns_rules acknowledge_returns)
  next
    case 7
    then have "job_inv ?j" using I new by (auto simp: job_inv_def bit_simps bit_cmd and_cmd)
    with 7 show ?thesis
      unfolding receive_fields_def
      by (auto simp: Let_def cmd_defs intro!: returns_splits returns_bnd [OF validate_job_returns]
          cancel_returns returns_ret job_ready_of_inv)
  next
    case 8
    then show ?thesis by (auto simp: receive_fields_def intro!: returns_rules)
  qed
qed

lemma receive_command_inv:
  "job_inv j \<Longrightarrow> returns (receive_command conn j) (round_post job_inv job_ready)"
  unfolding receive_command_def Let_def
  by (intro returns_rules receive_fields_inv) simp_all

text \<open>Every round sets a bit that was clear.\<close>

definition bits_left :: "job \<Rightarrow> nat" where
  "bits_left j = card {k. k < 8 \<and> \<not> bit (job_mask j) k}"

lemma bits_left_le: "bits_left j \<le> 8"
proof -
  have "card {k :: nat. k < 8 \<and> \<not> bit (job_mask j) k} \<le> card {k :: nat. k < 8}"
    by (rule card_mono) auto
  then show ?thesis by (simp add: bits_left_def)
qed

lemma bits_left_less:
  assumes "job_mask j' = job_mask j OR push_bit i 1" and "i < 8" and "\<not> bit (job_mask j) i"
  shows "bits_left j' < bits_left j"
  unfolding bits_left_def
proof (rule psubset_card_mono)
  show "{k. k < 8 \<and> \<not> bit (job_mask j') k} \<subset> {k. k < 8 \<and> \<not> bit (job_mask j) k}"
  proof -
    have "bit (job_mask j') k \<longleftrightarrow> bit (job_mask j) k \<or> k = i" for k
      using assms(2) bit_push1 [of i k] by (simp only: assms(1) bit_or_iff)
    then show ?thesis using assms(2,3) by blast
  qed
qed simp

lemma receive_fields_measure:
  assumes new: "job_mask j AND hdr_type hdr = 0"
  shows "returns (receive_fields conn (j\<lparr>job_mask := job_mask j OR hdr_type hdr\<rparr>) hdr)
           (round_post (\<lambda>j'. bits_left j' < bits_left j) (\<lambda>_. True))"
proof -
  let ?j = "j\<lparr>job_mask := job_mask j OR hdr_type hdr\<rparr>"
  let ?less = "\<lambda>j'. bits_left j' < bits_left j"
  have less: "?less j'" if "job_mask j' = job_mask j OR hdr_type hdr"
    and "hdr_type hdr \<in> {CMD_JOB_TYPE, CMD_JOB_PERSONALITY, CMD_JOB_CHROOT_FD, CMD_JOB_FDS,
         CMD_JOB_ARGUMENTS, CMD_JOB_ENVIRON}" for j'
  proof -
    have "\<exists>i \<in> {1, 2, 3, 4, 5, 6}. hdr_type hdr = push_bit i 1"
      using that(2) unfolding cmd_defs by blast
    then obtain i where "i \<in> {1, 2, 3, 4, 5, 6}" and i2: "hdr_type hdr = push_bit i 1" by (rule bexE)
    then have i: "i < 8" by auto
    with new have "\<not> bit (job_mask j) i" using and_push1 [of i "job_mask j"] i i2 by simp
    with i that(1) i2 bits_left_less show ?thesis by metis
  qed
  have ack: "returns (acknowledge conn j') (round_post ?less (\<lambda>_. True))"
    if "job_mask j' = job_mask j OR hdr_type hdr"
      "hdr_type hdr \<in> {CMD_JOB_TYPE, CMD_JOB_PERSONALITY, CMD_JOB_CHROOT_FD, CMD_JOB_FDS,
         CMD_JOB_ARGUMENTS, CMD_JOB_ENVIRON}" for j'
    using less [OF that] by (simp add: acknowledge_returns)
  show ?thesis
    unfolding receive_fields_def Let_def
    by (intro returns_rules ack) simp_all
qed

lemma receive_command_measure:
  "returns (receive_command conn j)
     (\<lambda>x. case x of Inl j' \<Rightarrow> True \<and> bits_left j' < bits_left j | Inr _ \<Rightarrow> True)"
  unfolding receive_command_def Let_def
  by (intro returns_rules returns_weaken [OF receive_fields_measure]) (auto split: sum.splits)

end
