(* ===== verification/Runner.thy ===== *)
theory Runner
  imports Chrootuid Job
begin

text \<open>
  Running a job (caller_runner.c) and the request handler that receives it (caller_job.c): a
  request handler process receives and validates the job, a runner process becomes the caller
  and reports the outcome to the client, and an executor process does the job.
\<close>

subsection \<open>The daemon's descriptors (daemon.h)\<close>

record hadaemon =
  fd_pipe :: "int \<times> int"
  fd_conn :: int
  fd_signal :: int
  fd_ep :: int

subsection \<open>Signals from a signalfd\<close>

text \<open>
  \<open>struct signalfd_siginfo\<close> has 128 bytes, the number of the signal in the first four. \<open>None\<close>: the
  read was short.
\<close>

definition read_siginfo :: "int \<Rightarrow> nat option m" where
  "read_siginfo fd =
     bnd (read_retry fd 128) (\<lambda>r.
     if r_ret r \<noteq> 128 then seq (error_msg ''expected siginfo size %lu, got %ld'') (ret None)
     else ret (Some (unat (of_le32 (r_buf r)))))"

definition finishing :: "nat \<Rightarrow> bool" where
  "finishing signo \<longleftrightarrow> signo \<in> set (map signum [SIGHUP, SIGINT, SIGQUIT, SIGTERM])"

fun fold_m :: "('s \<Rightarrow> 'a \<Rightarrow> 's m) \<Rightarrow> 's \<Rightarrow> 'a list \<Rightarrow> 's m" where
  "fold_m f s [] = ret s"
| "fold_m f s (x # xs) = bnd (f s x) (\<lambda>s'. fold_m f s' xs)"

text \<open>The events that \<open>epoll_wait\<close> has stored.\<close>

definition events_of :: "reply \<Rightarrow> epoll_event list" where
  "events_of r = take (nat (r_ret r)) (r_events r)"

subsection \<open>The executor (caller_runner.c)\<close>

definition run_job :: "job \<Rightarrow> int m" where
  "run_job j =
     (let argv = (case job_argv j of None \<Rightarrow> [] | Some a \<Rightarrow> a) in
      if job_type j = JOB_GETCONF then do_getconf
      else if job_type j = JOB_KILLUID then do_killuid
      else if job_type j = JOB_GETUGID1 then do_getugid1
      else if job_type j = JOB_CHROOTUID1 then do_chrootuid1 argv (job_persona j)
      else if job_type j = JOB_GETUGID2 then do_getugid2
      else if job_type j = JOB_CHROOTUID2 then do_chrootuid2 argv (job_persona j)
      else error_msg_and_die ''unknown job %d'')"

definition job_executor :: "job \<Rightarrow> 'a m" where
  "job_executor j =
     seq (setproctitle ''%s %s/%u:%u'')
    (seq unblock_all_signals
    (seq (for_each (zip (job_std_fds j) [0, 1, 2]) (\<lambda>(fd, i). bnd (move_fd fd i) (\<lambda>_. ret ())))
    (seq init_log_standalone
    (seq (modg (chroot_fd_update (\<lambda>_. job_chroot_fd j)))
    (seq sanitize_fds
    (bnd (sys_mi Clearenv) (\<lambda>r.
     if r_ret r \<noteq> 0 then perror_msg_and_die ''clearenv''
     else seq (parse_env (job_env j))
         (bnd (run_job j) c_exit))))))))"

definition spawn_job_executor :: "job \<Rightarrow> int m" where
  "spawn_job_executor j =
     bnd (sys_pr Fork) (\<lambda>r.
     if r_ret r < 0 then seq (perror_msg ''fork'') (ret (-1))
     else if 0 < r_ret r then ret (r_ret r)
     else job_executor j)"

subsection \<open>The runner (caller_runner.c)\<close>

definition terminate_executor :: "job \<Rightarrow> int \<Rightarrow> unit m" where
  "terminate_executor j pid =
     bnd (sys_pr (Kill pid SIGTERM)) (\<lambda>r.
     if r_ret r \<noteq> 0 then perror_msg ''kill'' else bnd (wait_job j pid) (\<lambda>_. ret ()))"

definition respond_job_completion :: "int \<Rightarrow> int \<Rightarrow> 'a m" where
  "respond_job_completion conn rc = bnd (send_response_to_client conn rc None) (\<lambda>_. c_exit 0)"

definition runner_hangup :: "int \<Rightarrow> job \<Rightarrow> int \<Rightarrow> epoll_event \<Rightarrow> unit m" where
  "runner_hangup conn j pid ev =
     only_if (ev_hup ev \<and> ev_fd ev = conn)
       (seq (notice_msg ''client disconnected, terminating executor'')
         (seq (terminate_executor j pid) (c_exit 1)))"

text \<open>The state is \<open>finish_server\<close>.\<close>

definition runner_input :: "int \<Rightarrow> int \<Rightarrow> job \<Rightarrow> int \<Rightarrow> bool \<Rightarrow> epoll_event \<Rightarrow> bool m" where
  "runner_input sig_fd conn j pid finish ev =
     (if ev_in ev \<and> ev_fd ev = sig_fd then
        bnd (read_siginfo sig_fd) (\<lambda>o_signo.
        case o_signo of
          None \<Rightarrow> ret finish
        | Some signo \<Rightarrow>
            if finishing signo then seq (notice_msg ''received signal %d'') (ret True)
            else if signo = signum SIGCHLD then bnd (wait_job j pid) (respond_job_completion conn)
            else seq (error_msg ''unexpected signal %d ignored'') (ret finish))
      else ret finish)"

definition runner_round :: "int \<Rightarrow> int \<Rightarrow> int \<Rightarrow> job \<Rightarrow> int \<Rightarrow> unit \<Rightarrow> (unit + unit) m" where
  "runner_round ep sig_fd conn j pid _ =
     bnd (sys_fd (Epoll_wait ep (-1))) (\<lambda>r.
     if r_ret r < 0 then
       (if r_errno r = EINTR then ret (Inl ()) else seq (perror_msg ''epoll_wait'') (ret (Inr ())))
     else seq (for_each (events_of r) (runner_hangup conn j pid))
         (bnd (fold_m (runner_input sig_fd conn j pid) False (events_of r)) (\<lambda>finish.
          ret (if finish then Inr () else Inl ()))))"

definition runner_drop :: "unit m" where
  "runner_drop =
     seq drop_dumpable
    (bnd (sys_pr (Setgroups [])) (\<lambda>r.
     if r_ret r < 0 then perror_msg_and_die ''setgroups''
     else bnd (getg cl) (\<lambda>c. become (caller_uid c) (caller_gid c))))"

definition runner_serve :: "int \<Rightarrow> job \<Rightarrow> int \<Rightarrow> 'a m" where
  "runner_serve conn j pid =
     bnd daemon_create_signal_fd (\<lambda>sig_fd.
     if sig_fd < 0 then perror_msg_and_die ''signalfd''
     else bnd (sys_fd Epoll_create) (\<lambda>r.
     let ep = r_ret r in
     if ep < 0 then perror_msg_and_die ''epoll_create1''
     else bnd (epoll_add_in ep sig_fd) (\<lambda>rc1.
     bnd (if rc1 < 0 then ret (-1) else epoll_add_hup ep conn) (\<lambda>rc2.
     if rc2 < 0 then perror_msg_and_die ''epoll_add''
     else seq (event_loop (runner_round ep sig_fd conn j pid) ())
         (seq (info_msg ''terminating executor'')
         (seq (terminate_executor j pid)
         (bnd (send_response_to_client conn CMD_STATUS_FAILED None) (\<lambda>_. c_exit 1))))))))"

definition job_runner :: "int \<Rightarrow> job \<Rightarrow> 'a m" where
  "job_runner conn j =
     seq (setproctitle ''runner %s/%u:%u: %s'')
    (seq (only_if (is_job_spawning j) (bnd (getg (caller_pid \<circ> cl)) join_caller_cgroup))
    (seq (block_signal_handler SIGCHLD True)
    (bnd (spawn_job_executor j) (\<lambda>pid.
     if pid < 0 then c_exit 1
     else seq (bnd (deallocate_job_resources j) (\<lambda>_. ret ()))
         (seq runner_drop (runner_serve conn j pid))))))"

text \<open>
  \<open>spawn_job_runner\<close> returns the job beside its result: a pipe made for a job that starts
  processes is closed with it.
\<close>

definition spawn_job_runner :: "int \<Rightarrow> job \<Rightarrow> (int \<times> job) m" where
  "spawn_job_runner conn j0 =
     bnd (if is_job_spawning j0
          then bnd (sys_fd Pipe) (\<lambda>r.
            if r_ret r \<noteq> 0 then seq (perror_msg ''pipe'') (ret None)
            else ret (Some (j0\<lparr>job_pipe_fds := [r_ints r ! 0, r_ints r ! 1]\<rparr>)))
          else ret (Some j0)) (\<lambda>o_j.
     case o_j of
       None \<Rightarrow> ret (-1, j0)
     | Some j \<Rightarrow>
         bnd (sys_pr Fork) (\<lambda>r.
         let pid = r_ret r in
         if pid < 0 then seq (perror_msg ''fork'') (ret (-1, j))
         else if 0 < pid then
           (if is_job_spawning j then
              seq (close_fd (job_pipe_fds j ! 1))
             (bnd (read_retry (job_pipe_fds j ! 0) 1) (\<lambda>_. ret (pid, j)))
            else bnd (wait_job j pid) (\<lambda>_. ret (0, j)))
         else bnd (xclose_to (job_pipe_fds j ! 0)) (\<lambda>p.
              job_runner conn (j\<lparr>job_pipe_fds := [p, job_pipe_fds j ! 1]\<rparr>))))"

subsection \<open>The request handler (caller_job.c)\<close>

definition close_daemon :: "hadaemon \<Rightarrow> unit m" where
  "close_daemon d = seq (close_fd (fd_ep d)) (seq (close_fd (fd_signal d))
     (seq (close_fd (fd_conn d)) (close_fd (fst (fd_pipe d)))))"

definition receive_job_request :: "hadaemon \<Rightarrow> int \<Rightarrow> job \<Rightarrow> 'a m" where
  "receive_job_request d conn j0 =
     seq (setproctitle ''job %s/%u:%u'')
    (seq (close_daemon d)
    (bnd (receive_commands conn j0) (\<lambda>j.
     bnd (spawn_job_runner conn j) (\<lambda>(rc, j').
     if rc < 0 then respond_server_error conn j' else c_exit 0))))"

definition spawn_job_request_handler :: "hadaemon \<Rightarrow> int \<Rightarrow> int m" where
  "spawn_job_request_handler d conn =
     bnd (sys_pr Fork) (\<lambda>r.
     let pid = r_ret r in
     if pid < 0 then
       seq (perror_msg ''fork'')
         (bnd (send_response_to_client conn CMD_STATUS_FAILED (Some ''command failed'')) (\<lambda>_. ret 1))
     else if 0 < pid then wait_job job_init pid
     else receive_job_request d conn job_init)"

subsection \<open>A job that is run has been received and validated\<close>

lemma receive_commands_returns: "job_inv j \<Longrightarrow> returns (receive_commands conn j) job_ready"
  unfolding receive_commands_def by (rule returns_loop [where I = job_inv], assumption, rule receive_command_inv)

text \<open>
  C4: a job that the request handler runs is complete, whatever commands the client has sent and in
  whatever order: a job that starts a program has a chroot descriptor that was sent and at least
  one argument, every other job has no arguments; every field is the default unless its
  command was received, and the number of arguments fits the type of the job.
\<close>

theorem receive_commands_ready:
  "case receive_commands conn job_init w of
     (Ret j, _) \<Rightarrow> job_ready j
   | (Stop _, _) \<Rightarrow> True"
proof (cases "receive_commands conn job_init w")
  case (Pair out v)
  then show ?thesis
    using returnsD [OF receive_commands_returns [OF job_inv_init]] by (cases out) auto
qed

subsection \<open>Whatever a client asks for, programs run as user1 or user2\<close>

text \<open>The identities that the configuration gives to jobs, and the caller's own.\<close>

definition idents :: "globals \<Rightarrow> (u32 \<times> u32) list \<times> u32 \<times> u32" where
  "idents g = ([(change_uid1 (cf g), change_gid1 (cf g)), (change_uid2 (cf g), change_gid2 (cf g))],
               caller_uid (cl g), caller_gid (cl g))"

fun exec_ok :: "(u32 \<times> u32) list \<Rightarrow> trace \<Rightarrow> bool" where
  "exec_ok ids [] = True"
| "exec_ok ids ((c, r) # t) =
     (exec_ok ids t \<and>
      (case c of
         Pr p \<Rightarrow> (case p of Execve _ _ _ \<Rightarrow> list_ex (\<lambda>(uid, gid). confined uid gid t) ids | _ \<Rightarrow> True)
       | _ \<Rightarrow> True))"

text \<open>A process that has neither executed anything nor changed its uid.\<close>

definition fresh :: "trace \<Rightarrow> bool" where
  "fresh t \<longleftrightarrow> list_all (\<lambda>(c, r). pre_drop c) t"

interpretation sess: trace_safety "exec_ok ids" for ids
  by unfold_locales simp

lemma fresh_simps [simp]: "fresh []" "fresh ((c, r) # t) \<longleftrightarrow> pre_drop c \<and> fresh t" "fresh (t @ u) \<longleftrightarrow> fresh t \<and> fresh u"
  by (simp_all add: fresh_def)

lemma fresh_preparing: "fresh t \<Longrightarrow> job_ok uid gid t \<and> \<not> dropped t"
  by (induction t) (auto simp: pre_drop_def split: call.splits proc_call.splits)

lemma fresh_exec: "fresh t \<Longrightarrow> exec_ok ids t"
  by (induction t) (auto simp: pre_drop_def split: call.splits proc_call.splits)

lemma job_exec: "job_ok uid gid t \<Longrightarrow> (uid, gid) \<in> set ids \<Longrightarrow> exec_ok ids t"
proof (induction t)
  case (Cons a t)
  then show ?case by (cases a) (auto simp: list_ex_iff split: call.splits proc_call.splits)
qed simp

lemma job_sess: "job.meets uid gid m Q w \<Longrightarrow> (uid, gid) \<in> set ids \<Longrightarrow> sess.meets ids m Q w"
  unfolding job.meets_def sess.meets_def by (erule wp_conseq) (auto intro: job_exec)

lemma log_pre_drop: "or_log pre_drop c \<Longrightarrow> pre_drop c"
  by (auto simp: or_log_def pre_drop_def)

text \<open>Code that keeps a process fresh, and the identities as they are.\<close>

definition mild :: "'a m \<Rightarrow> bool" where
  "mild m \<longleftrightarrow> emits pre_drop m \<and> (\<forall>k. runs (keeps (\<lambda>g. idents g = k)) m)"

lemma mild_meets:
  assumes "mild m" and "fresh (trace w)"
  shows "sess.meets ids m (\<lambda>_ v. fresh (trace v) \<and> idents (gl v) = idents (gl w)) w"
proof -
  have "runs (keeps (\<lambda>g. idents g = idents (gl w))) m" using assms(1) unfolding mild_def by blast
  then have "pc m (\<lambda>_ v. idents (gl v) = idents (gl w)) w" by (rule pc_keeps) simp
  moreover have "sess.meets ids m (\<lambda>_ v. fresh (trace v)) w"
  proof (rule sess.class_meets)
    show "exec_ok ids (trace w)" using assms(2) by (rule fresh_exec)
    show "emits pre_drop m" using assms(1) by (simp add: mild_def)
    show "exec_ok ids ((c, r) # t)" if "pre_drop c" "exec_ok ids t" for c r t
      using that by (auto simp: pre_drop_def split: call.splits proc_call.splits)
    show "fresh (trace v)" if "trace v = new @ trace w" "list_all (\<lambda>(c, r). or_log pre_drop c) new" for v new
      using that assms(2) log_pre_drop by (auto simp: fresh_def list_all_iff)
  qed
  ultimately show ?thesis
    unfolding sess.meets_def by (rule wp_conseq [OF wp_conj]) auto
qed

lemma mild_rules:
  "mild m \<Longrightarrow> (\<And>x. mild (f x)) \<Longrightarrow> mild (bnd m f)" "mild m0 \<Longrightarrow> mild m \<Longrightarrow> mild (seq m0 m)"
  "mild (ret x)" "pre_drop c \<Longrightarrow> mild (sys c)" "pre_drop (Fs c1) \<Longrightarrow> mild (sys_fs c1)"
  "pre_drop (Fd c2) \<Longrightarrow> mild (sys_fd c2)" "pre_drop (Pr c3) \<Longrightarrow> mild (sys_pr c3)" "pre_drop (Mi c4) \<Longrightarrow> mild (sys_mi c4)"
  "mild (getg h)" "(\<And>g. idents (k g) = idents g) \<Longrightarrow> mild (modg k)" "pre_drop c \<Longrightarrow> mild (emit c)"
  "pre_drop c \<Longrightarrow> mild (temp_failure_retry c)"
  "(\<And>x. x \<in> set xs \<Longrightarrow> mild (f0 x)) \<Longrightarrow> mild (for_each xs f0)"
  "(b \<Longrightarrow> mild m) \<Longrightarrow> (\<not> b \<Longrightarrow> mild n) \<Longrightarrow> mild (if b then m else n)"
  "(b \<Longrightarrow> mild m0) \<Longrightarrow> mild (only_if b m0)"
  "(\<And>s. mild (body s)) \<Longrightarrow> mild (loop n0 body s)" "(\<And>s. mild (body s)) \<Longrightarrow> mild (event_loop body s)"
  "mild (c_exit e)" "mild die"
  "mild (error_msg s0)" "mild (warn_msg s0)" "mild (notice_msg s0)" "mild (info_msg s0)" "mild (debug_msg s0)"
  "mild (perror_msg s0)" "mild (error_msg_and_die s0)" "mild (perror_msg_and_die s0)" "mild (lift_res y)"
  unfolding mild_def by (auto intro!: em.rules kp.rules simp: or_log_def Monad_Logic.stable_def)

lemma mild_cases:
  "(x = None \<Longrightarrow> mild m) \<Longrightarrow> (\<And>y. x = Some y \<Longrightarrow> mild (f y)) \<Longrightarrow> mild (case x of None \<Rightarrow> m | Some y \<Rightarrow> f y)"
  "(xs = [] \<Longrightarrow> mild n) \<Longrightarrow> (\<And>y ys. xs = y # ys \<Longrightarrow> mild (g y ys)) \<Longrightarrow> mild (case xs of [] \<Rightarrow> n | y # ys \<Rightarrow> g y ys)"
  "(\<And>a b. p = (a, b) \<Longrightarrow> mild (h a b)) \<Longrightarrow> mild (case p of (a, b) \<Rightarrow> h a b)"
  "(\<And>a. z = Inl a \<Longrightarrow> mild (f1 a)) \<Longrightarrow> (\<And>b. z = Inr b \<Longrightarrow> mild (f2 b)) \<Longrightarrow>
     mild (case z of Inl a \<Rightarrow> f1 a | Inr b \<Rightarrow> f2 b)"
  "(\<And>y. y = v \<Longrightarrow> mild (k y)) \<Longrightarrow> mild (Let v k)"
  "(\<And>n. mild (w1 n)) \<Longrightarrow> (\<And>n. mild (w2 n)) \<Longrightarrow> (\<And>n. mild (w3 n)) \<Longrightarrow>
     mild (case s of WExited n \<Rightarrow> w1 n | WSignaled n \<Rightarrow> w2 n | WOther n \<Rightarrow> w3 n)"
  by (cases x; simp; fail | cases xs; simp; fail | cases p; simp; fail | cases z; simp; fail | cases s; simp; fail
      | simp; fail)+

named_theorems mild_fns \<open>functions that keep a process fresh and the identities as they are\<close>

lemma mild_io [mild_fns]:
  "mild (read_retry fd n)" "mild (waitpid_retry p nh)" "mild (xclose fd)" "mild (xclose_to fd)" "mild (close_fd fd)" "mild (fd_recv fd n k)"
  "mild (xrecvmsg fd n)" "mild (send_response_to_client fd rc txt)" "mild (block_signal_handler sg bl)"
  "mild unblock_all_signals" "mild (move_fd a b)" "mild sanitize_fds" "mild (get_peercred fd)" "mild (set_recv_timeout fd secs)"
  "mild (read_siginfo fd)" "mild daemon_create_signal_fd" "mild (epoll_add_in ep fd)" "mild (epoll_add_hup ep fd)"
  "mild (xsprintf n s)" "mild (srv_listen s)"
  unfolding read_retry_def waitpid_retry_def xclose_def xclose_to_def close_fd_def fd_recv_def xrecvmsg_def recvmsg_retry_def
    send_response_to_client_def sendmsg_retry_def block_signal_handler_def unblock_all_signals_def xsigprocmask_def
    move_fd_def sanitize_fds_def reorder_fds_def reorder_log_fd_def reorder_chroot_fd_def reorder_fd_def
    sys_close_range_def get_open_max_def close_range_brutely_def get_peercred_def set_recv_timeout_def
    read_siginfo_def daemon_create_signal_fd_def epoll_add_in_def epoll_add_hup_def xsprintf_def srv_listen_def
  by (intro mild_rules mild_cases; simp add: pre_drop_def idents_def)+

lemma mild_job [mild_fns]:
  "mild (receive_commands conn j)" "mild (deallocate_job_resources j)" "mild (wait_job j pid)"
  "mild (respond_server_error conn j)" "mild (close_daemon d)" "mild (join_caller_cgroup pid)"
proof -
  have c: "mild (close_all fds)" for fds
    by (induction fds) (auto intro!: mild_rules mild_fns)
  show d: "mild (deallocate_job_resources j)" for j
    unfolding deallocate_job_resources_def by (intro mild_rules mild_fns c)
  have r: "mild (respond_bad_request conn j)" "mild (respond_server_error conn j)" for conn j
    unfolding respond_bad_request_def respond_server_error_def cancel_job_def by (intro mild_rules mild_fns d)+
  show "mild (respond_server_error conn j)" by (rule r)
  show "mild (receive_commands conn j)"
    unfolding receive_commands_def receive_command_def receive_fields_def acknowledge_def recv_strings_from_client_def
      validate_arguments_def validate_job_def
    by (intro mild_rules mild_cases mild_fns r; simp add: pre_drop_def)
  show "mild (wait_job j pid)" "mild (close_daemon d)" for d
    unfolding wait_job_def close_daemon_def by (intro mild_rules mild_cases mild_fns)+
  show "mild (join_caller_cgroup pid)"
    unfolding join_caller_cgroup_def join_cgroup_def open_proc_fd_def read_loop_def
    by (intro mild_rules mild_cases mild_fns; simp add: pre_drop_def)
qed

text \<open>One mild part after the other.\<close>

abbreviation ready :: "(u32 \<times> u32) list \<times> u32 \<times> u32 \<Rightarrow> world \<Rightarrow> bool" where
  "ready k w \<equiv> fresh (trace w) \<and> idents (gl w) = k"

lemma mild_bnd:
  assumes "ready k w" and "mild m" and "\<And>x v. ready k v \<Longrightarrow> sess.meets ids (f x) Q v"
  shows "sess.meets ids (bnd m f) Q w"
proof (rule sess.after [OF mild_meets [OF assms(2)]])
  show "fresh (trace w)" using assms(1) ..
  show "sess.meets ids (f x) Q v" if "fresh (trace v) \<and> idents (gl v) = idents (gl w)" for x v
    by (rule assms(3)) (use that assms(1) in simp)
qed

lemma mild_seq:
  assumes "ready k w" and "mild m" and "\<And>v. ready k v \<Longrightarrow> sess.meets ids n Q v"
  shows "sess.meets ids (seq m n) Q w"
  unfolding seq_def by (rule mild_bnd [OF assms(1,2)]) (rule assms(3))

lemma mild_parse_env [mild_fns]: "mild (parse_env env)"
proof -
  have "runs (keeps (\<lambda>g. idents g = k)) (parse_env env)" for k
    using parse_env_runs [of env] unfolding runs_def env_rel_def keeps_def
    by (auto simp: only_tightened_def Let_def idents_def)
  then show ?thesis by (auto simp: mild_def pre_drop_harmless [OF harmless_env])
qed

lemma mild_small_jobs [mild_fns]: "mild do_getconf" "mild do_killuid" "mild do_getugid1" "mild do_getugid2"
  unfolding do_getconf_def do_killuid_def do_getugid1_def do_getugid2_def print_ids_def raise_rlimit_nproc_def
    purge_ipc_def purge_sem_def purge_shm_def purge_msg_def purge_kind_def
  by (intro mild_rules mild_cases mild_fns; simp add: pre_drop_def)+

lemma run_job_meets:
  assumes "ready k w"
  shows "sess.safe (fst k) (run_job j) w"
proof -
  let ?c = "cf (gl w)"
  have ids: "(change_uid1 ?c, change_gid1 ?c) \<in> set (fst k)" "(change_uid2 ?c, change_gid2 ?c) \<in> set (fst k)"
    using assms by (auto simp: idents_def)
  have mild: "sess.safe (fst k) m w" if "mild m" for m :: "int m"
    by (rule sess.meets_conseq [OF mild_meets [OF that]]) (use assms in auto)
  have "preparing uid gid w" for uid gid using assms fresh_preparing by blast
  note chroot = job_sess [OF chrootuid_meets [OF this HOL.refl], THEN sess.meets_conseq]
  have "sess.safe (fst k) (do_chrootuid1 argv p) w" "sess.safe (fst k) (do_chrootuid2 argv p) w" for argv p
    unfolding do_chrootuid1_def do_chrootuid2_def
    by (rule sess.get, rule chroot, rule ids, rule TrueI)+
  note run = this mild [OF mild_small_jobs(1)] mild [OF mild_small_jobs(2)] mild [OF mild_small_jobs(3)]
    mild [OF mild_small_jobs(4)]
  show ?thesis
    unfolding run_job_def Let_def
    by (intro sess.branch run sess.dies) (use assms fresh_exec in auto)
qed

lemma mild_title: "mild (setproctitle s)"
  by (intro mild_rules)

lemma job_executor_meets:
  assumes "ready k w"
  shows "sess.meets (fst k) (job_executor j) Q w"
proof -
  have reset: "mild (for_each l (\<lambda>(fd, i). bnd (move_fd fd i) (\<lambda>_. ret ())))" for l
    by (intro mild_rules mild_cases mild_fns)
  have chroot: "mild (modg (chroot_fd_update (\<lambda>_. fd)))" for fd
    by (intro mild_rules) (simp add: idents_def)
  have log: "mild init_log_standalone"
    unfolding init_log_standalone_def by (intro mild_rules) (simp_all add: pre_drop_def idents_def)
  have clear: "mild (sys_mi Clearenv)" by (intro mild_rules) (simp add: pre_drop_def)
  show ?thesis
    unfolding job_executor_def
    apply (rule mild_seq [OF assms mild_title])
    apply (rule mild_seq [OF _ mild_io(10)], assumption)
    apply (rule mild_seq [OF _ reset], assumption)
    apply (rule mild_seq [OF _ log], assumption)
    apply (rule mild_seq [OF _ chroot], assumption)
    apply (rule mild_seq [OF _ mild_io(12)], assumption)
    apply (rule mild_bnd [OF _ clear], assumption)
    apply (rule sess.branch, rule sess.dies, simp add: fresh_exec)
    apply (rule mild_seq [OF _ mild_parse_env], assumption)
    apply (rule sess.compose [OF run_job_meets], assumption)
    apply (rule sess.dies, assumption)
    done
qed

text \<open>The parent of a fork, with the child's run out of the way.\<close>

lemma spawn_job_executor_meets:
  assumes "ready k w"
  shows "sess.meets (fst k) (spawn_job_executor j) (\<lambda>_. ready k) w"
proof -
  have fork: "mild (sys_pr Fork)" by (intro mild_rules) (simp add: pre_drop_def)
  have perr: "mild (perror_msg s)" for s by (intro mild_rules)
  show ?thesis
    unfolding spawn_job_executor_def
    apply (rule mild_bnd [OF assms fork])
    apply (rule sess.branch)
     apply (rule mild_seq [OF _ perr], assumption)
     apply (rule sess.returns_safe)
      apply (simp_all add: fresh_exec)
    apply (intro conjI impI sess.returns_safe job_executor_meets)
      apply (simp_all add: fresh_exec)
    done
qed

definition no_exec :: "call \<Rightarrow> bool" where
  "no_exec c \<longleftrightarrow> (case c of Pr p \<Rightarrow> (case p of Execve _ _ _ \<Rightarrow> False | _ \<Rightarrow> True) | _ \<Rightarrow> True)"

lemma no_exec_of_pre: "emits pre_drop m \<Longrightarrow> emits no_exec m"
  by (erule emits_mono) (auto simp: pre_drop_def no_exec_def split: call.splits proc_call.splits)

lemma no_exec_mild: "mild m \<Longrightarrow> emits no_exec m"
  by (simp add: mild_def no_exec_of_pre)

lemma no_exec_safe:
  assumes "exec_ok ids (trace w)" and "emits no_exec m" and "noreturn m"
  shows "sess.meets ids m Q w"
proof -
  have "sess.safe ids m w"
    by (rule sess.last_part [OF assms(1,2)]) (auto simp: no_exec_def split: call.splits proc_call.splits)
  then show ?thesis
    unfolding sess.meets_def by (rule wp_conseq [OF wp_conj [OF _ pc_noreturn [OF assms(3)]]]) auto
qed

lemma noreturn_parts [returns_rules]:
  "returns (job_executor j) Q" "returns (respond_job_completion conn rc) Q"
  "returns (runner_serve conn j pid) Q" "returns (job_runner conn j) Q"
  unfolding job_executor_def respond_job_completion_def job_runner_def runner_serve_def Let_def by (intro returns_rules)+

lemma no_exec_fns:
  "emits no_exec (terminate_executor j pid)" "emits no_exec runner_drop" "emits no_exec (runner_hangup conn j pid ev)"
  "emits no_exec (runner_input sig_fd conn j pid finish ev)"
proof -
  note mild = mild_fns [THEN no_exec_mild]
  show t: "emits no_exec (terminate_executor j pid)"
    unfolding terminate_executor_def by (intro inv_intros mild) (simp add: no_exec_def)
  show "emits no_exec runner_drop"
    unfolding runner_drop_def drop_dumpable_def become_def by (intro inv_intros; simp add: no_exec_def)
  show "emits no_exec (runner_hangup conn j pid ev)"
    unfolding runner_hangup_def by (intro inv_intros t)
  show "emits no_exec (runner_input sig_fd conn j pid finish ev)"
    unfolding runner_input_def respond_job_completion_def by (intro inv_intros mild)
qed

lemma fold_m_emits: "(\<And>s x. emits C (f s x)) \<Longrightarrow> emits C (fold_m f s xs)"
  by (induction xs arbitrary: s) (auto intro!: em.rules)

text \<open>The runner, once the executor has been started.\<close>

lemma no_exec_runner_serve: "emits no_exec (runner_serve conn j pid)"
proof -
  note mild = mild_fns [THEN no_exec_mild]
  have round: "emits no_exec (runner_round ep sig conn j pid u)" for ep sig u
    unfolding runner_round_def
    by (intro inv_intros no_exec_fns fold_m_emits) (simp_all add: no_exec_def)
  show ?thesis
    unfolding runner_serve_def Let_def by (intro inv_intros mild no_exec_fns round) (simp_all add: no_exec_def)
qed

lemma job_runner_meets:
  assumes "ready k w"
  shows "sess.meets (fst k) (job_runner conn j) Q w"
proof -
  note mild = mild_fns [THEN no_exec_mild]
  have j: "mild (only_if b (bnd (getg (caller_pid \<circ> cl)) join_caller_cgroup))" for b
    by (intro mild_rules mild_fns)
  have rest: "emits no_exec (seq (bnd (deallocate_job_resources j) (\<lambda>_. ret ())) (seq runner_drop (runner_serve conn j pid)))" for pid
    by (intro inv_intros mild no_exec_fns no_exec_runner_serve)
  have noreturn: "returns (seq (bnd (deallocate_job_resources j) (\<lambda>_. ret ())) (seq runner_drop (runner_serve conn j pid))) Q" for pid Q
    by (intro returns_rules)
  show ?thesis
    unfolding job_runner_def
    apply (rule mild_seq [OF assms mild_title])
    apply (rule mild_seq [OF _ j], assumption)
    apply (rule mild_seq [OF _ mild_io(9)], assumption)
    apply (rule sess.after [OF spawn_job_executor_meets], assumption)
    apply (rule sess.branch, rule sess.dies, simp add: fresh_exec)
    apply (rule no_exec_safe [OF _ rest noreturn], simp add: fresh_exec)
    done
qed

text \<open>The request handler, from the fork that makes it.\<close>

lemma job_runner_returns [returns_rules]: "returns (receive_job_request d conn j) Q"
  unfolding receive_job_request_def respond_server_error_def by (intro returns_rules)

lemma mild_deliver: "mild m \<Longrightarrow> ready k w \<Longrightarrow> sess.meets ids m (\<lambda>_. ready k) w"
  by (rule sess.meets_conseq [OF mild_meets]) auto

lemma spawn_job_runner_meets:
  assumes "ready k w"
  shows "sess.meets (fst k) (spawn_job_runner conn j0) (\<lambda>_. ready k) w"
proof -
  have pipe: "mild (if b then bnd (sys_fd Pipe) (\<lambda>r.
      if r_ret r \<noteq> 0 then seq (perror_msg s) (ret None) else ret (Some (f r))) else ret (Some x))" for b s x and f :: "reply \<Rightarrow> job"
    by (intro mild_rules) (simp_all add: pre_drop_def)
  have fork: "mild (sys_pr Fork)" by (intro mild_rules) (simp add: pre_drop_def)
  have fail: "mild (seq (perror_msg s) (ret x))" for s and x :: "int \<times> job" by (intro mild_rules)
  have spawned: "mild (if b then seq (close_fd f1) (bnd (read_retry f2 1) (\<lambda>_. ret (p, j)))
      else bnd (wait_job j p) (\<lambda>_. ret (0, j)))" for b f1 f2 p j
    by (intro mild_rules mild_fns)
  show ?thesis
    unfolding spawn_job_runner_def
    apply (rule mild_bnd [OF assms pipe])
    apply (rule sess.branch_option)
     apply (rule sess.returns_safe, simp add: fresh_exec, simp)
    apply (rule mild_bnd [OF _ fork], assumption)
    apply (rule sess.let_safe)
    apply (rule sess.branch, rule mild_deliver [OF fail], assumption)
    apply (rule sess.branch, rule mild_deliver [OF spawned], assumption)
    apply (rule mild_bnd [OF _ mild_io(4)], assumption)
    apply (rule job_runner_meets, assumption)
    done
qed

lemma spawn_job_request_handler_meets:
  assumes "ready k w"
  shows "sess.meets (fst k) (spawn_job_request_handler d conn) (\<lambda>_. ready k) w"
proof -
  have fork: "mild (sys_pr Fork)" by (intro mild_rules) (simp add: pre_drop_def)
  have fail: "mild (seq (perror_msg s) (bnd (send_response_to_client conn rc t) (\<lambda>_. ret x)))" for s rc t and x :: int
    by (intro mild_rules mild_fns)
  have over: "mild (if b then respond_server_error conn j else c_exit 0 :: int m)" for b j
    by (intro mild_rules mild_fns)
  have noreturn: "returns (if b then respond_server_error conn j else c_exit 0) R" for b j R
    unfolding respond_server_error_def by (intro returns_rules)
  have receive: "sess.meets (fst k) (receive_job_request d conn job_init :: int m) Q v" if "ready k v" for Q v
    unfolding receive_job_request_def
    apply (rule mild_seq [OF that mild_title])
    apply (rule mild_seq [OF _ mild_job(5)], assumption)
    apply (rule mild_bnd [OF _ mild_job(1)], assumption)
    apply (rule sess.after [OF spawn_job_runner_meets], assumption)
    apply (rule sess.branch_prod)
    apply (rule no_exec_safe [OF _ no_exec_mild [OF over] noreturn], simp add: fresh_exec)
    done
  show ?thesis
    unfolding spawn_job_request_handler_def
    apply (rule mild_bnd [OF assms fork])
    apply (rule sess.let_safe)
    apply (rule sess.branch, rule mild_deliver [OF fail], assumption)
    apply (rule sess.branch, rule mild_deliver [OF mild_job(3)], assumption)
    apply (rule receive, assumption)
    done
qed

end
