(* ===== verification/Fuel.thy ===== *)
theory Fuel
  imports Runner
begin

text \<open>
  The loop bounds of the model are never too small: every helper either has no loop, or its
  loop has a measure or takes a reply in every round that goes on. So a run of the daemon's
  parts ends by returning, exiting, replacing the process or waiting, and never because the
  model gives up.
\<close>

subsection \<open>Tame code\<close>

text \<open>
  Code is tame if it never runs out of fuel and only takes replies away from the world; for a
  loop the second part of its body makes the measure of the rest of the loop.
\<close>

definition tame :: "'a m \<Rightarrow> bool" where
  "tame m \<longleftrightarrow> never_out_of_fuel m \<and> runs consumes m"

lemma tame_rules:
  "tame m \<Longrightarrow> (\<And>x. tame (f x)) \<Longrightarrow> tame (bnd m f)" "tame m0 \<Longrightarrow> tame m \<Longrightarrow> tame (seq m0 m)"
  "tame (ret x)" "tame (sys c)" "tame (sys_fs c1)" "tame (sys_fd c2)" "tame (sys_pr c3)" "tame (sys_mi c4)"
  "tame (getg h)" "tame (modg k)" "tame (emit c)" "tame (temp_failure_retry c)"
  "(\<And>x. x \<in> set xs \<Longrightarrow> tame (f0 x)) \<Longrightarrow> tame (for_each xs f0)"
  "(b \<Longrightarrow> tame m) \<Longrightarrow> (\<not> b \<Longrightarrow> tame n) \<Longrightarrow> tame (if b then m else n)"
  "(b \<Longrightarrow> tame m0) \<Longrightarrow> tame (only_if b m0)"
  "tame (vprint_or_log_msg p s)" "tame (c_exit e)" "tame die"
  "tame (error_msg s)" "tame (warn_msg s)" "tame (notice_msg s)" "tame (info_msg s)" "tame (debug_msg s)"
  "tame (perror_msg s)" "tame (error_msg_and_die s)" "tame (perror_msg_and_die s)" "tame (lift_res y)"
  unfolding tame_def by (auto intro!: nf_rules co.rules)

lemma tame_cases:
  "(x = None \<Longrightarrow> tame m) \<Longrightarrow> (\<And>y. x = Some y \<Longrightarrow> tame (f y)) \<Longrightarrow> tame (case x of None \<Rightarrow> m | Some y \<Rightarrow> f y)"
  "(xs = [] \<Longrightarrow> tame n) \<Longrightarrow> (\<And>y ys. xs = y # ys \<Longrightarrow> tame (g y ys)) \<Longrightarrow> tame (case xs of [] \<Rightarrow> n | y # ys \<Rightarrow> g y ys)"
  "(\<And>a b. p = (a, b) \<Longrightarrow> tame (h a b)) \<Longrightarrow> tame (case p of (a, b) \<Rightarrow> h a b)"
  "(\<And>a. z = Inl a \<Longrightarrow> tame (f1 a)) \<Longrightarrow> (\<And>b. z = Inr b \<Longrightarrow> tame (f2 b)) \<Longrightarrow>
     tame (case z of Inl a \<Rightarrow> f1 a | Inr b \<Rightarrow> f2 b)"
  "(\<And>y. y = v \<Longrightarrow> tame (k y)) \<Longrightarrow> tame (Let v k)"
  "(\<And>n. tame (w1 n)) \<Longrightarrow> (\<And>n. tame (w2 n)) \<Longrightarrow> (\<And>n. tame (w3 n)) \<Longrightarrow>
     tame (case s of WExited n \<Rightarrow> w1 n | WSignaled n \<Rightarrow> w2 n | WOther n \<Rightarrow> w3 n)"
  "tame m1 \<Longrightarrow> tame m2 \<Longrightarrow> tame (case meth of X11_connect_unix \<Rightarrow> m1 | X11_connect_inet \<Rightarrow> m2)"
  by (cases x; simp; fail | cases xs; simp; fail | cases p; simp; fail | cases z; simp; fail | cases s; simp; fail
      | cases meth; simp; fail | simp; fail)+

lemma tame_loop:
  assumes "\<And>s. tame (body s)"
    and "\<And>s. I s \<Longrightarrow> returns (body s) (\<lambda>x. case x of Inl s' \<Rightarrow> I s' \<and> f s' < f s | Inr r \<Rightarrow> True)"
    and "I s" and "f s < n"
  shows "tame (loop n body s)"
  using assms unfolding tame_def by (auto intro: loop_measure [where I = I and f = f] co.loop)

lemma tame_event_loop:
  assumes "\<And>s. tame (body s)" and "\<And>s. progress_on goes_on (body s)"
  shows "tame (event_loop body s)"
  using assms unfolding tame_def by (auto intro: event_loop_fuel_on co.event_loop)

lemma progress_on_tame:
  "tame m \<Longrightarrow> (\<And>x. progress_on P (f x)) \<Longrightarrow> progress_on P (bnd m f)"
  "tame m0 \<Longrightarrow> progress_on P n \<Longrightarrow> progress_on P (seq m0 n)"
  "progress m \<Longrightarrow> (\<And>x. tame (g x)) \<Longrightarrow> progress_on P (bnd m g)"
  unfolding tame_def by (auto intro: progress_on_right progress_on_seq progress_on_left)

lemma progress_on_cases:
  "(x = None \<Longrightarrow> progress_on P m) \<Longrightarrow> (\<And>y. x = Some y \<Longrightarrow> progress_on P (f y)) \<Longrightarrow>
     progress_on P (case x of None \<Rightarrow> m | Some y \<Rightarrow> f y)"
  by (cases x) auto

named_theorems tame_fns \<open>functions that are tame\<close>

lemma tame_retries [tame_fns]:
  "tame (read_retry fd n)" "tame (write_retry fd s)"
  "tame (sendmsg_retry fd s fds)" "tame (recvmsg_retry fd n)"
  "tame (waitpid_retry p b)"
  unfolding read_retry_def write_retry_def sendmsg_retry_def recvmsg_retry_def waitpid_retry_def
  by (rule tame_rules)+

lemma tame_write_loop [tame_fns]: "tame (write_loop fd s)"
  using write_loop_nf unfolding tame_def write_loop_def by (auto intro!: co.rules runs_cases simp: write_retry_def)

lemma tame_read_loop [tame_fns]: "tame (read_loop fd n)"
  unfolding read_loop_def
  by (rule tame_loop [where I = "\<lambda>_. True" and f = "\<lambda>(_, _, k). k"])
    (auto intro!: tame_rules tame_cases tame_fns returns_rules)

subsection \<open>Receiving a job request\<close>

lemma tame_messages [tame_fns]:
  "tame (xrecvmsg fd n)" "tame (xclose_to fd)" "tame (close_fd fd)" "tame (fd_recv fd n k)" "tame (send_response_to_client fd rc t)"
  unfolding xrecvmsg_def recvmsg_retry_def xclose_to_def close_fd_def xclose_def fd_recv_def
    send_response_to_client_def sendmsg_retry_def
  by (intro tame_rules tame_cases)+

lemma tame_close_all [tame_fns]: "tame (close_all fds)"
  by (induction fds) (auto intro!: tame_rules tame_fns)

lemma tame_job [tame_fns]:
  "tame (cancel_job conn j s)" "tame (acknowledge conn j)" "tame (recv_strings_from_client conn len)"
  "tame (validate_arguments t a)" "tame (validate_job j)"
  unfolding cancel_job_def deallocate_job_resources_def acknowledge_def
    recv_strings_from_client_def validate_arguments_def validate_job_def
  by (intro tame_rules tame_cases tame_fns)+

lemma tame_receive_command: "tame (receive_command conn j)"
  unfolding receive_command_def receive_fields_def respond_server_error_def respond_bad_request_def
  by (intro tame_rules tame_cases tame_fns)

lemma tame_receive_commands [tame_fns]: "tame (receive_commands conn j)"
  unfolding receive_commands_def
proof (rule tame_loop [where I = "\<lambda>_. True" and f = bits_left])
  show "bits_left j < 9" using bits_left_le [of j] by simp
qed (rule tame_receive_command receive_command_measure TrueI)+

subsection \<open>The parent of a chroot job\<close>

lemma tame_helpers [tame_fns]:
  "tame (unblock_fd fd)" "tame (unix_accept fd)"
  "tame (x11_check_listen fd)" "tame x11_closedir"
  "tame (block_signal_handler sig b)" "tame (dfl_signal_handler sig)"
  "tame (xsprintf n s)" "tame nullify_stdin" "tame (set_par f)"
  unfolding close_fd_def xclose_def unblock_fd_def unix_accept_def x11_check_listen_def x11_closedir_def
    block_signal_handler_def dfl_signal_handler_def xsigprocmask_def put_cr_def set_x11_def x11_drop_display_def
    xsprintf_def xclose_to_def nullify_stdin_def set_par_def Let_def
  by (intro tame_rules tame_cases; simp)+

lemma tame_x11_connect [tame_fns]: "tame x11_connect"
proof -
  have c: "tame (connect_first ais fd)" for ais fd
    by (induction ais fd rule: connect_first.induct)
      (auto simp: xclose_to_def xclose_def intro!: tame_rules tame_cases)
  show ?thesis
    unfolding x11_connect_def x11_connect_unix_def x11_connect_inet_def put_cr_def
    by (intro tame_rules tame_cases c tame_fns)
qed

lemma tame_relay [tame_fns]:
  "tame (x11_handle_select rd wr)" "tame (x11_handle_new fd rd)"
  "tame (log_handle_select rd)" "tame (log_handle_new fd rd)"
  "tame (xwrite_all fd s)"
proof -
  show x: "tame (xwrite_all fd s)" for fd s
    unfolding xwrite_all_def by (intro tame_rules tame_cases tame_fns)
  show "tame (x11_handle_select rd wr)" "tame (x11_handle_new fd rd)"
    unfolding x11_handle_select_def x11_relay_def and_then_def flush_master_def fill_master_def flush_slave_def
      fill_slave_def io_x11_free_def store_io_def io_check_auth_data_def x11_handle_new_def io_x11_new_def Let_def
    by (intro tame_rules tame_cases tame_fns; simp)+
  show "tame (log_handle_select rd)" "tame (log_handle_new fd rd)"
    unfolding log_handle_select_def copy_log_def fd_free_def log_handle_new_def fd_new_def Let_def
    by (intro tame_rules tame_cases tame_fns x; simp)+
qed

lemma tame_terminal [tame_fns]:
  "tame restore_tty" "tame init_tty" "tame (tty_copy_winsize a b)"
  "tame (handle_signal s)" "tame setup_timer" "tame setup_sigwinch_handler"
  "tame setup_sigchld_handler" "tame forget_child"
  unfolding restore_tty_def init_tty_def tty_copy_winsize_def handle_signal_def sigchld_handler_def sigalrm_handler_def
    sigwinch_handler_def setup_timer_def setup_sigwinch_handler_def setup_sigchld_handler_def forget_child_def
  by (intro tame_rules tame_cases tame_fns; simp)+

lemma tame_limit: "tame (limit_exceeded s)"
  unfolding limit_exceeded_def by (intro tame_rules tame_fns)

lemma tame_round: "tame (parent_round io)"
  unfolding parent_round_def work_limits_ok_def handle_io_def relay_child_def xselect_def read_child_err_def read_child_out_def
    write_child_in_def read_tty_in_def handle_ctl_def handle_x11_ctl_def put_cr_def
  by (intro tame_rules tame_cases tame_fns tame_limit)

lemma progress_handle_io: "progress_on fst (handle_io io)"
proof -
  have s: "progress (xselect rd wr t)" for rd wr t
    unfolding xselect_def
    by (intro progress_bnd_left progress_sys_family co.rules) (use tame_terminal(4) in \<open>simp add: tame_def\<close>)
  show ?thesis
    unfolding handle_io_def relay_child_def read_child_err_def read_child_out_def write_child_in_def read_tty_in_def
      handle_ctl_def handle_x11_ctl_def put_cr_def
    apply (rule progress_on_tame(1), intro tame_rules)
    apply (rule progress_on_tame(2), intro tame_rules tame_fns)
    apply (rule progress_on_tame(1), intro tame_rules)
    apply (rule progress_on_cases)
     apply (rule progress_on_ret, simp)
    apply (simp only: split_paired_all prod.case)
    apply (rule progress_on_tame(3), rule s)
    apply (intro tame_rules tame_cases tame_fns tame_limit)
    done
qed

lemma tame_handle_parent [tame_fns]: "tame (handle_parent pid pty out err ctl)"
proof -
  have p: "progress_on goes_on (parent_round io)" for io
  proof -
    have "progress_on goes_on (bnd (handle_io io) (\<lambda>(ok, io'). ret (if ok then Inl io' else Inr ())))"
      using progress_handle_io [of io]
      by (auto simp: progress_on_def bnd_def ret_def split: prod.splits outcome.splits if_splits)
    then show ?thesis
      unfolding parent_round_def work_limits_ok_def
      apply -
      apply (rule progress_on_tame(1), intro tame_rules)
      apply (rule progress_on_tame(2), intro tame_rules tame_limit)
      apply assumption
      done
  qed
  show ?thesis
    unfolding handle_parent_def wait_child_def Let_def
    by (intro tame_rules tame_cases tame_fns tame_event_loop tame_round p)
qed


subsection \<open>Chroot jobs\<close>

lemma tame_fds [tame_fns]:
  "tame (move_fd a b)" "tame sanitize_fds" "tame cloexec_fds" "tame (open_proc_fd pid uid)" "tame (reorder_fd a b)"
  "tame (xsigprocmask mc)" "tame unblock_all_signals" "tame daemon_create_signal_fd" "tame (epoll_add_in ep fd)"
  "tame (epoll_add_hup ep fd)" "tame (get_peercred fd)" "tame (set_recv_timeout fd secs)" "tame (srv_listen s)"
  "tame (fd_send c fds s)" "tame (read_siginfo fd)"
  unfolding move_fd_def sanitize_fds_def cloexec_fds_def open_proc_fd_def reorder_fd_def reorder_fds_def
    reorder_log_fd_def reorder_chroot_fd_def sys_close_range_def get_open_max_def close_range_brutely_def
    cloexec_range_brutely_def xsigprocmask_def unblock_all_signals_def daemon_create_signal_fd_def
    epoll_add_in_def epoll_add_hup_def get_peercred_def set_recv_timeout_def srv_listen_def fd_send_def
    read_siginfo_def xclose_def Let_def
  by (intro tame_rules tame_cases tame_fns; simp)+

lemma tame_chdir [tame_fns]:
  "tame (stat_caller_ok_validator st n)" "tame (stat_caller_rooter_ok_validator st n)" "tame (stat_root_ok_validator st n)"
  "tame (ch_uid u)" "tame (ch_gid g)" "tame check_cwd" "tame change_creds" "tame (restore_creds u g)"
  unfolding stat_caller_ok_validator_def stat_caller_rooter_ok_validator_def stat_root_ok_validator_def
    ch_uid_def ch_gid_def check_cwd_def change_creds_def restore_creds_def
  by (intro tame_rules tame_cases; simp)+

lemma tame_safe_chdir [tame_fns]:
  assumes "\<And>st n. tame (v st n)"
  shows "tame (safe_chdir path v)" "tame (fchdiruid fd v)" "tame (chdiruid o_path v)"
proof -
  show c: "tame (safe_chdir path v)" for path
    unfolding safe_chdir_def safe_chdir_component_def by (intro tame_rules tame_cases assms)
  show "tame (fchdiruid fd v)"
    unfolding fchdiruid_def safe_fchdir_def by (intro tame_rules tame_cases assms tame_chdir)
  show "tame (chdiruid o_path v)"
    unfolding chdiruid_def by (intro tame_rules tame_cases c tame_chdir)
qed

lemma tame_fold_m: "(\<And>s x. tame (f s x)) \<Longrightarrow> tame (fold_m f s xs)"
  by (induction xs arbitrary: s) (auto intro!: tame_rules)

lemma tame_x11_listen [tame_fns]: "tame (unix_listen s)" "tame log_listen" "tame x11_listen" "tame x11_prepare_connect"
  unfolding unix_listen_def log_listen_def x11_listen_def x11_prepare_connect_def set_x11_def x11_drop_display_def
    xclose_to_def xclose_def put_cr_def x11_closedir_def Let_def
  by (intro tame_rules tame_cases tame_fns; simp)+

lemma tame_namespaces [tame_fns]:
  "tame (join_caller_cgroup pid)" "tame setup_network" "tame unshare_ipc" "tame unshare_mount"
  "tame unshare_network" "tame unshare_uts"
  unfolding join_caller_cgroup_def join_cgroup_def setup_network_def unshare_ipc_def unshare_mount_def
    unshare_network_def unshare_uts_def do_unshare_def xclose_def
  by (intro tame_rules tame_cases tame_fns; simp)+

lemma tame_setup_ns [tame_fns]: "tame (setup_ns pid uid)"
proof -
  have c: "tame (compare_ns d self es)" for d self es
    unfolding compare_ns_def by (intro tame_rules)
  have p: "progress_on goes_on (compare_ns d self es)" for d self es
    unfolding compare_ns_def by (intro progress_on_tame(3) progress_sys_family tame_rules)
  show ?thesis
    unfolding setup_ns_def open_proc_ns_fd_def enter_one_def
    by (intro tame_rules tame_cases tame_fns tame_event_loop p c)
qed

lemma tame_setup_devices [tame_fns]: "tame (setup_devices ds)"
  unfolding setup_devices_def xmknod_def xmkdir_def xsymlink_def copy_dev_def make_parent_directories_def
  by (intro tame_rules tame_cases tame_fns; simp)

lemma tame_xmount: "tame (xmount e)"
proof -
  have o: "tame (parse_opts os fl d)" for os fl d
    by (induction os arbitrary: fl d) (auto simp: parse_opt_def intro!: tame_rules tame_cases)
  have v: "tame ((if b then stat_root_ok_validator else stat_caller_rooter_ok_validator) st n)" for b st n
    using tame_chdir by simp
  show ?thesis
    unfolding xmount_def by (intro tame_rules tame_cases o tame_safe_chdir(2) tame_chdir tame_safe_chdir(3) v)
qed

lemma tame_mount [tame_fns]: "tame setup_mountpoints"
  unfolding setup_mountpoints_def setup_fstab_def fread_fstab_def lookup_mount_entry_def load_config_def
  by (intro tame_rules tame_cases tame_fns tame_xmount; simp)

lemma tame_small_jobs [tame_fns]: "tame do_killuid" "tame spawn_killuid" "tame do_getconf" "tame do_getugid1" "tame do_getugid2"
  unfolding do_killuid_def spawn_killuid_def do_getconf_def do_getugid1_def do_getugid2_def print_ids_def
    raise_rlimit_nproc_def purge_ipc_def purge_sem_def purge_shm_def purge_msg_def purge_kind_def
  by (intro tame_rules tame_cases tame_fns; simp)+

lemma tame_pty [tame_fns]: "tame (open_pty slv b)" "tame (second_pty p)"
proof -
  show o: "tame (open_pty slv b)" for slv b
    unfolding open_pty_def open_pty_from_def open_ptmx_def close_ptys_def
    by (intro tame_rules tame_cases tame_fns; simp)
  show "tame (second_pty p)"
    unfolding second_pty_def by (intro tame_rules tame_cases tame_fns o)
qed

lemma tame_execve: "tame (execve p a e)"
  unfolding execve_def by (intro tame_rules) (simp add: tame_def never_out_of_fuel_def stop_def co.stop [unfolded stop_def])

lemma tame_chroot_parts [tame_fns]:
  "tame set_rlimits" "tame (connect_fds i1 i2 i3)" "tame (set_affinity_nproc np)" "tame (target_groups un gid)"
  "tame setup_chroot_dir" "tame make_pipes" "tame make_ctl" "tame drop_dumpable" "tame (become uid gid)" "tame (set_persona ps)"
proof -
  have s: "tame (shuffle_cpus is n tmp)" for "is" n tmp
    by (induction "is" n tmp rule: shuffle_cpus.induct) (auto intro!: tame_rules)
  show "tame (set_affinity_nproc np)"
    unfolding set_affinity_nproc_def by (intro tame_rules tame_cases s)
qed (unfold set_rlimits_def set_rlimit_def connect_fds_def target_groups_def setup_chroot_dir_def make_pipes_def make_ctl_def
      drop_dumpable_def become_def set_persona_def xclose_def; intro tame_rules tame_cases tame_fns; simp)+

lemma tame_handle_child [tame_fns]: "tame (handle_child argv env pty out err ctl)"
  unfolding handle_child_def send_x11_def xauth_gen_fake_def xauth_add_entry_def
  by (intro tame_rules tame_cases tame_fns tame_execve)

lemma tame_chrootuid [tame_fns]: "tame (do_chrootuid1 argv ps)" "tame (do_chrootuid2 argv ps)"
proof -
  have c: "tame (close_chain fds)" for fds
    by (induction fds) (auto simp: xclose_def intro!: tame_rules tame_cases)
  have "tame (chrootuid uid gid ps un argv eh eu ep)" for uid gid ps un argv eh eu ep
    unfolding chrootuid_def chrootuid_setup_def chrootuid_parent_def chrootuid_child_def
    by (intro tame_rules tame_cases tame_fns c)
  then show "tame (do_chrootuid1 argv ps)" "tame (do_chrootuid2 argv ps)"
    unfolding do_chrootuid1_def do_chrootuid2_def by (auto intro: tame_rules)
qed

subsection \<open>Request handlers\<close>

lemma tame_parse_env [tame_fns]: "tame (parse_env env)"
  unfolding parse_env_def env_wlim_def env_bool_def env_string_def set_cf_def parse_x11_key_def
    x11_parse_display_def set_x11_def x11_drop_display_def
  by (intro tame_rules tame_cases tame_fns; simp)

lemma tame_wait_job [tame_fns]: "tame (wait_job j pid)" "tame (deallocate_job_resources j)" "tame (respond_server_error conn j)"
  unfolding wait_job_def deallocate_job_resources_def respond_server_error_def cancel_job_def
  by (intro tame_rules tame_cases tame_fns)+

lemma tame_runner [tame_fns]: "tame (spawn_job_executor j)" "tame (runner_serve conn j pid)" "tame runner_drop"
proof -
  show "tame (spawn_job_executor j)"
    unfolding spawn_job_executor_def job_executor_def run_job_def init_log_standalone_def by (intro tame_rules tame_cases tame_fns)
  have t: "tame (terminate_executor j pid)" "tame (runner_hangup conn j pid ev)" for ev
    unfolding runner_hangup_def terminate_executor_def by (intro tame_rules tame_cases tame_fns)+
  have i: "tame (runner_input sig conn j pid b ev)" for sig b ev
    unfolding runner_input_def respond_job_completion_def by (intro tame_rules tame_cases tame_fns)
  have r: "tame (runner_round ep sig conn j pid u)" for ep sig u
    unfolding runner_round_def by (intro tame_rules tame_cases tame_fold_m t i)
  have p: "progress_on goes_on (runner_round ep sig conn j pid u)" for ep sig u
    unfolding runner_round_def
    by (intro progress_on_tame(3) progress_sys_family tame_rules tame_cases tame_fold_m t i)
  show "tame (runner_serve conn j pid)"
    unfolding runner_serve_def by (intro tame_rules tame_cases tame_fns tame_event_loop t r p)
  show "tame runner_drop"
    unfolding runner_drop_def by (intro tame_rules tame_cases tame_fns)
qed

lemma tame_handler [tame_fns]: "tame (receive_job_request d conn j)" "tame (spawn_job_request_handler d conn)"
  unfolding spawn_job_request_handler_def receive_job_request_def close_daemon_def spawn_job_runner_def job_runner_def
  by (intro tame_rules tame_cases tame_fns)+

end
