(* ===== verification/Caller_Server.thy ===== *)
theory Caller_Server
  imports Fuel
begin

text \<open>
  The session server of one caller (caller_server.c): its listening socket, the check of the
  credentials of every client, and the loop that serves requests until it is told to finish or
  has been idle for too long.
\<close>

definition check_peer_creds :: "int \<Rightarrow> int m" where
  "check_peer_creds conn =
     bnd (get_peercred conn) (\<lambda>cred.
     case cred of
       None \<Rightarrow> ret (-1)
     | Some (pid, uid, gid) \<Rightarrow>
         seq (modg (cl_update (caller_pid_update (\<lambda>_. pid))))
        (bnd (getg cl) (\<lambda>c.
         if caller_uid c \<noteq> uid \<or> caller_gid c \<noteq> gid
         then seq (error_msg ''connection from [%u:%u] to %s:%u rejected'') (ret (-1))
         else ret 0)))"

text \<open>The name of a session's socket: \<open>%d\<close> prints the uid as a signed number.\<close>

definition session_name :: "u32 \<Rightarrow> u32 \<Rightarrow> string" where
  "session_name uid num = fmt_d (sint uid) @ '':'' @ fmt_u (unat num)"

definition listener_fail :: "hadaemon \<Rightarrow> string \<Rightarrow> (int \<times> hadaemon) m" where
  "listener_fail d path =
     bnd (xclose_to (fd_ep d)) (\<lambda>e. bnd (xclose_to (fd_signal d)) (\<lambda>s. bnd (xclose_to (fd_conn d)) (\<lambda>c.
     bnd (sys_fs (Unlink path)) (\<lambda>_. ret (-1, d\<lparr>fd_ep := e, fd_signal := s, fd_conn := c\<rparr>)))))"

definition caller_server_listener_init :: "hadaemon \<Rightarrow> (int \<times> hadaemon) m" where
  "caller_server_listener_init sdae0 =
     (let d0 = sdae0\<lparr>fd_ep := -1, fd_signal := -1, fd_conn := -1\<rparr> in
     seq configure_caller
    (bnd (getg cl) (\<lambda>c.
     bnd (xsprintf UNIX_PATH_MAX (SOCKETDIR @ ''/'' @ session_name (caller_uid c) (caller_num c))) (\<lambda>path.
     bnd (sys_fs (Umask 63)) (\<lambda>_.
     bnd (srv_listen path) (\<lambda>fd.
     let d1 = d0\<lparr>fd_conn := fd\<rparr> in
     if fd < 0 then ret (-1, d1)
     else bnd (sys_fs (Chown path (caller_uid c) (caller_gid c))) (\<lambda>r.
     if r_ret r \<noteq> 0 then seq (perror_msg ''chown: %s'') (listener_fail d1 path)
     else bnd daemon_create_signal_fd (\<lambda>sig.
     let d2 = d1\<lparr>fd_signal := sig\<rparr> in
     if sig < 0 then seq (perror_msg ''signalfd'') (listener_fail d2 path)
     else bnd (sys_fd Epoll_create) (\<lambda>r.
     let d3 = d2\<lparr>fd_ep := r_ret r\<rparr> in
     if r_ret r < 0 then seq (perror_msg ''epoll_create1'') (listener_fail d3 path)
     else bnd (epoll_add_in (fd_ep d3) (fst (fd_pipe d3))) (\<lambda>a.
     bnd (if a < 0 then ret (-1) else epoll_add_in (fd_ep d3) (fd_conn d3)) (\<lambda>b.
     bnd (if b < 0 then ret (-1) else epoll_add_in (fd_ep d3) (fd_signal d3)) (\<lambda>c.
     if c < 0 then listener_fail d3 path else ret (0, d3)))))))))))))"

text \<open>The first pass over the events of a round: the state is \<open>finish_server\<close>.\<close>

fun server_inputs :: "hadaemon \<Rightarrow> epoll_event list \<Rightarrow> bool \<Rightarrow> bool m" where
  "server_inputs d [] finish = ret finish"
| "server_inputs d (ev # evs) finish =
     (if ev_fd ev = fst (fd_pipe d) then ret True
      else if ev_in ev \<and> ev_fd ev = fd_signal d then
        bnd (read_siginfo (fd_signal d)) (\<lambda>o_signo.
        case o_signo of
          None \<Rightarrow> server_inputs d evs finish
        | Some signo \<Rightarrow>
            if finishing signo then server_inputs d evs True
            else seq (error_msg ''unexpected signal %d ignored'') (server_inputs d evs finish))
      else server_inputs d evs finish)"

text \<open>The second pass: the state is \<open>n_seconds\<close>.\<close>

definition server_accept :: "hadaemon \<Rightarrow> u64 \<Rightarrow> epoll_event \<Rightarrow> u64 m" where
  "server_accept d n_seconds ev =
     (if ev_in ev \<and> ev_fd ev = fd_conn d then
        bnd (sys_fd (Accept (fd_conn d))) (\<lambda>r.
        let conn = r_ret r in
        if conn < 0 then seq (perror_msg ''accept4'') (ret n_seconds)
        else bnd (set_recv_timeout conn 3) (\<lambda>rc1.
             bnd (if rc1 = 0 then check_peer_creds conn else ret (-1)) (\<lambda>rc2.
             bnd (if rc2 = 0 then spawn_job_request_handler d conn else ret (-1)) (\<lambda>rc3.
             seq (close_fd conn) (ret (if rc3 = 0 then 0 else n_seconds))))))
      else ret n_seconds)"

definition server_round :: "hadaemon \<Rightarrow> u64 \<Rightarrow> (u64 + unit) m" where
  "server_round d n_seconds =
     bnd (sys_fd (Epoll_wait (fd_ep d) 1000)) (\<lambda>r.
     if r_ret r < 0 then
       (if r_errno r = EINTR then ret (Inl n_seconds) else perror_msg_and_die ''epoll_wait'')
     else if r_ret r = 0 then
       bnd (getg (server_session_timeout \<circ> sv)) (\<lambda>timeout.
       ret (if timeout \<le> n_seconds + 1 then Inr () else Inl (n_seconds + 1)))
     else bnd (server_inputs d (events_of r) False) (\<lambda>finish.
       if finish then ret (Inr ())
       else bnd (fold_m (server_accept d) n_seconds (events_of r)) (\<lambda>n. ret (Inl n))))"

definition caller_server :: "hadaemon \<Rightarrow> 'a m" where
  "caller_server d =
     seq (block_signal_handler SIGCHLD False)
    (seq (event_loop (server_round d) 0)
    (seq (notice_msg ''%s/%u:%u: session finished'') (c_exit 0)))"

subsection \<open>Whatever a session's clients ask for, programs run as user1 or user2\<close>

lemma mild_session [mild_fns]:
  "mild (check_peer_creds conn)" "mild (server_inputs d evs finish)"
proof -
  show "mild (check_peer_creds conn)"
    unfolding check_peer_creds_def by (intro mild_rules mild_cases mild_fns; simp add: pre_drop_def idents_def)
  show "mild (server_inputs d evs finish)"
    by (induction evs arbitrary: finish) (auto intro!: mild_rules mild_cases mild_fns split: option.split)
qed

lemma fold_m_meets:
  assumes "\<And>s x v. ready k v \<Longrightarrow> sess.meets ids (f s x) (\<lambda>_. ready k) v"
  shows "ready k w \<Longrightarrow> sess.meets ids (fold_m f s xs) (\<lambda>_. ready k) w"
proof (induction xs arbitrary: s w)
  case (Cons x xs)
  show ?case unfolding fold_m.simps by (rule sess.after [OF assms [OF Cons.prems]]) (rule Cons.IH)
qed (simp add: sess.returns_safe fresh_exec)

lemma server_accept_meets:
  assumes "ready k w"
  shows "sess.meets (fst k) (server_accept d n ev) (\<lambda>_. ready k) w"
proof -
  have accept: "mild (sys_fd (Accept fd))" for fd by (intro mild_rules) (simp add: pre_drop_def)
  have fail: "mild (seq (perror_msg s) (ret x))" for s and x :: u64 by (intro mild_rules)
  have peer: "mild (if rc1 = 0 then check_peer_creds conn else ret (-1))" for rc1 conn by (intro mild_rules mild_fns)
  have close: "mild (seq (close_fd conn) (ret x))" for conn and x :: u64 by (intro mild_rules mild_fns)
  have skip: "sess.meets (fst k) (ret x) (\<lambda>_. ready k) v" if "ready k v" for v and x :: 'x
    by (rule sess.returns_safe) (use that fresh_exec in auto)
  show ?thesis
    unfolding server_accept_def
    apply (rule sess.branch)
     apply (rule mild_bnd [OF assms accept])
     apply (rule sess.let_safe)
     apply (rule sess.branch, rule mild_deliver [OF fail], assumption)
     apply (rule mild_bnd [OF _ mild_io(14)], assumption)
     apply (rule mild_bnd [OF _ peer], assumption)
     apply (rule sess.after [where P = "\<lambda>_. ready k"])
      apply (rule sess.branch, rule spawn_job_request_handler_meets, assumption, rule skip, assumption)
     apply (rule mild_deliver [OF close], assumption)
    apply (rule skip [OF assms])
    done
qed

lemma server_round_meets:
  assumes "ready k w"
  shows "sess.meets (fst k) (server_round d n) (\<lambda>_. ready k) w"
proof -
  have poll: "mild (sys_fd (Epoll_wait ep t))" for ep t by (intro mild_rules) (simp add: pre_drop_def)
  have idle: "mild (if b then (if e then ret y else perror_msg_and_die s) else bnd (getg h) (\<lambda>t. ret (f t)))"
    for b e s and y :: "u64 + unit" and h :: "globals \<Rightarrow> u64" and f
    by (intro mild_rules)
  have skip: "sess.meets (fst k) (ret x) (\<lambda>_. ready k) v" if "ready k v" for v and x :: 'x
    by (rule sess.returns_safe) (use that fresh_exec in auto)
  have ready_dies: "sess.meets (fst k) (perror_msg_and_die s) Q v" if "ready k v" for s Q and v
    by (rule sess.dies) (use that fresh_exec in auto)
  show ?thesis
    unfolding server_round_def
    apply (rule mild_bnd [OF assms poll])
    apply (rule sess.branch, rule sess.branch, rule skip, assumption, rule ready_dies, assumption)
    apply (rule sess.branch, rule sess.get, rule skip, assumption)
    apply (rule mild_bnd [OF _ mild_session(2)], assumption)
    apply (rule sess.branch, rule skip, assumption)
    apply (rule sess.after [OF fold_m_meets [OF server_accept_meets]], assumption, assumption)
    apply (rule skip, assumption)
    done
qed

lemma caller_server_meets:
  assumes "ready k w"
  shows "sess.safe (fst k) (caller_server d) w"
  unfolding caller_server_def
  apply (rule mild_seq [OF assms mild_io(9)])
  apply (rule sess.after_seq [OF sess.event_loop_meets [where I = "\<lambda>_. ready k" and Q = "\<lambda>_. ready k"]])
     apply (simp add: fresh_exec)
    apply assumption
   apply (rule sess.meets_conseq [OF server_round_meets], assumption, simp split: sum.splits)
  apply (rule sess.compose_seq [OF sess.messages(4)], assumption, rule sess.dies, assumption)
  done

text \<open>
  C8: whatever the clients of a session send, whatever the kernel answers and however often requests
  are served, every program that any process of the session executes is executed after the
  process has entered a chroot, dropped its supplementary groups and become user1 or user2 of
  the session for good.
\<close>

theorem session_executes_confined:
  "exec_ok [(change_uid1 (cf g), change_gid1 (cf g)), (change_uid2 (cf g), change_gid2 (cf g))]
     (trace (snd (caller_server d (start g [] rs))))"
proof -
  have "ready (idents g) (start g [] rs)" by (simp add: start_def)
  from caller_server_meets [OF this] show ?thesis
    unfolding sess.safe_def by (simp add: idents_def)
qed

subsection \<open>Only the caller is served\<close>

text \<open>
  The connection accepted last; whether its peer has been found to have the given ids since; and
  whether the process is one that a \<open>fork\<close> has made.
\<close>

fun accepted :: "trace \<Rightarrow> int option" where
  "accepted [] = None"
| "accepted ((c, r) # t) = (case c of Fd f \<Rightarrow> (case f of Accept _ \<Rightarrow> Some (r_ret r) | _ \<Rightarrow> accepted t) | _ \<Rightarrow> accepted t)"

fun peer_known :: "u32 \<Rightarrow> u32 \<Rightarrow> trace \<Rightarrow> bool" where
  "peer_known uid gid [] = False"
| "peer_known uid gid ((c, r) # t) =
     (case c of
        Fd f \<Rightarrow>
          (case f of
             Accept _ \<Rightarrow> False
           | Getsockopt_peercred fd \<Rightarrow> accepted t = Some fd \<and> 0 \<le> r_ret r
               \<and> (case r_ints r of [_, u, g, len] \<Rightarrow> len = 12 \<and> word_of_int u = uid \<and> word_of_int g = gid | _ \<Rightarrow> False)
           | _ \<Rightarrow> peer_known uid gid t)
      | _ \<Rightarrow> peer_known uid gid t)"

definition in_child :: "trace \<Rightarrow> bool" where
  "in_child t \<longleftrightarrow> list_ex (\<lambda>(c, r). c = Pr Fork \<and> r_ret r = 0) t"

fun forks_checked :: "u32 \<Rightarrow> u32 \<Rightarrow> trace \<Rightarrow> bool" where
  "forks_checked uid gid [] = True"
| "forks_checked uid gid ((c, r) # t) =
     (forks_checked uid gid t \<and> (if c = Pr Fork then in_child t \<or> peer_known uid gid t else True))"

interpretation peer: trace_safety "forks_checked uid gid" for uid gid
  by unfold_locales simp

lemma in_child_simps [simp]: "\<not> in_child []" "in_child ((c, r) # t) \<longleftrightarrow> c = Pr Fork \<and> r_ret r = 0 \<or> in_child t"
  by (auto simp: in_child_def)

lemma forks_harmless: "harmless c \<Longrightarrow> forks_checked uid gid t \<Longrightarrow> forks_checked uid gid ((c, r) # t)"
  by (auto simp: harmless_def)

lemma in_child_checked: "in_child t \<Longrightarrow> forks_checked uid gid t \<Longrightarrow> forks_checked uid gid (new @ t)"
proof -
  assume c: "in_child t" and f: "forks_checked uid gid t"
  have "in_child (new @ t)" for new using c by (simp add: in_child_def)
  then show ?thesis using f by (induction new) auto
qed

lemma child_safe:
  "in_child (trace w) \<Longrightarrow> forks_checked uid gid (trace w) \<Longrightarrow> tame m \<Longrightarrow> peer.safe uid gid m w"
  unfolding tame_def by (rule peer.runs_meets [of consumes]) (auto simp: consumes_def in_child_checked)

text \<open>The session still belongs to the caller with the given ids.\<close>

abbreviation owned :: "u32 \<Rightarrow> u32 \<Rightarrow> world \<Rightarrow> bool" where
  "owned uid gid w \<equiv> snd (idents (gl w)) = (uid, gid)"

lemma quiet_meets:
  assumes "emits harmless m" and "mild m" and "forks_checked uid gid (trace w)" and "owned uid gid w"
  shows "peer.meets uid gid m (\<lambda>_. owned uid gid) w"
proof -
  have "runs (keeps (\<lambda>g. idents g = idents (gl w))) m" using assms(2) unfolding mild_def by blast
  then have "pc m (\<lambda>_ v. idents (gl v) = idents (gl w)) w" by (rule pc_keeps) simp
  moreover have "peer.safe uid gid m w"
    by (rule peer.last_part [OF assms(3,1)]) (rule forks_harmless)
  ultimately show ?thesis
    unfolding peer.meets_def by (rule wp_conseq [OF wp_conj]) (use assms(4) in auto)
qed

lemma harmless_session [harmless_fns]:
  "emits harmless (server_inputs d evs finish)" "emits harmless (wait_job j pid)" "emits harmless (read_siginfo fd)"
proof -
  show r: "emits harmless (read_siginfo fd)" for fd
    unfolding read_siginfo_def by (intro inv_intros harmless_fns)
  show "emits harmless (server_inputs d evs finish)"
    by (induction evs arbitrary: finish) (auto intro!: inv_intros r split: option.split)
  have "emits harmless (close_all fds)" for fds
    by (induction fds) (auto intro!: inv_intros harmless_fns)
  then show "emits harmless (wait_job j pid)"
    unfolding wait_job_def deallocate_job_resources_def
    by (intro inv_intros harmless_fns) (auto split: wait_status.split intro!: inv_intros)
qed

lemma say_meets:
  assumes "forks_checked uid gid (trace w)" and "owned uid gid w"
    and "\<And>v. forks_checked uid gid (trace v) \<Longrightarrow> owned uid gid v \<Longrightarrow> Q x v"
  shows "peer.meets uid gid (seq (error_msg s) (ret x)) Q w" "peer.meets uid gid (seq (perror_msg s) (ret x)) Q w"
  by (rule peer.after_seq [OF quiet_meets [OF _ _ assms(1,2)]];
      ((rule inv_intros | rule mild_rules)+ | rule peer.returns_safe; simp add: assms(3)))+

lemma check_peer_creds_meets:
  assumes "forks_checked uid gid (trace w)" and "owned uid gid w" and "accepted (trace w) = Some conn"
  shows "peer.meets uid gid (check_peer_creds conn)
     (\<lambda>rc v. owned uid gid v \<and> (rc = 0 \<longrightarrow> peer_known uid gid (trace v))) w"
proof -
  let ?cred = "\<lambda>o_cred v. owned uid gid v \<and> (case o_cred of
      None \<Rightarrow> True | Some (pid, u, g) \<Rightarrow> u = uid \<and> g = gid \<longrightarrow> peer_known uid gid (trace v))"
  have cred: "peer.meets uid gid (get_peercred conn) ?cred w"
    unfolding get_peercred_def
    apply (rule peer.step_family(2) [OF assms(1)])
    apply (rule peer.branch, rule say_meets)
    using assms apply (auto split: list.split intro!: say_meets peer.returns_safe)
    done
  show ?thesis
    unfolding check_peer_creds_def
    apply (rule peer.after [OF cred])
    apply (rule peer.branch_option, rule peer.returns_safe, assumption, simp)
    apply (rule peer.branch_prod)
    apply clarsimp
    apply (rule peer.put, rule peer.get)
    apply (auto simp: idents_def intro!: say_meets peer.returns_safe)
    done
qed

lemma spawn_handler_meets:
  assumes "forks_checked uid gid (trace w)" and "owned uid gid w" and "peer_known uid gid (trace w)"
  shows "peer.meets uid gid (spawn_job_request_handler d conn) (\<lambda>_. owned uid gid) w"
proof -
  have fail: "emits harmless (seq (perror_msg s) (bnd (send_response_to_client conn rc t) (\<lambda>_. ret x)))"
      "mild (seq (perror_msg s) (bnd (send_response_to_client conn rc t) (\<lambda>_. ret x)))" for s rc t and x :: int
    by (intro inv_intros harmless_fns) (intro mild_rules mild_fns)
  have child: "peer.meets uid gid (receive_job_request d conn job_init) Q v"
    if "in_child (trace v)" "forks_checked uid gid (trace v)" for Q and v :: world
  proof -
    have "peer.safe uid gid (receive_job_request d conn job_init) v"
      by (rule child_safe [OF that]) (rule tame_fns)
    then show ?thesis
      unfolding peer.meets_def by (rule wp_conseq [OF wp_conj [OF _ pc_noreturn [OF job_runner_returns]]]) auto
  qed
  show ?thesis
    unfolding spawn_job_request_handler_def
    apply (rule peer.step_family(3) [OF assms(1)])
    apply (rule peer.let_safe)
    apply (rule peer.branch, rule quiet_meets [OF fail], use assms in simp, use assms in simp)
    apply (rule peer.branch, rule quiet_meets [OF harmless_session(2) mild_job(3)], use assms in simp, use assms in simp)
    apply (rule child, use assms in simp, use assms in simp)
    done
qed

lemma accept_checked:
  assumes "forks_checked uid gid (trace w)" and "owned uid gid w"
  shows "peer.meets uid gid (server_accept d n ev) (\<lambda>_. owned uid gid) w"
proof -
  have close: "peer.meets uid gid (seq (close_fd conn) (ret x)) (\<lambda>_. owned uid gid) v"
    if "forks_checked uid gid (trace v)" "owned uid gid v" for v conn and x :: u64
    by (rule quiet_meets [OF _ _ that]; (intro inv_intros harmless_fns | intro mild_rules mild_fns))
  have timeout: "peer.meets uid gid (set_recv_timeout conn 3)
      (\<lambda>_ v. owned uid gid v \<and> accepted (trace v) = Some conn) v"
    if "forks_checked uid gid (trace v)" "owned uid gid v" "accepted (trace v) = Some conn" for v conn
    unfolding set_recv_timeout_def
    apply (rule peer.step_family(2) [OF that(1)])
    using that apply (auto simp: peer.meets_def wp_simps logged_trace intro!: peer.returns_safe)
    done
  show ?thesis
    unfolding server_accept_def
    apply (rule peer.branch)
     prefer 2 apply (rule peer.returns_safe, use assms in simp, use assms in simp)
    apply (rule peer.step_family(2) [OF assms(1)])
    apply (rule peer.let_safe)
    apply (rule peer.branch, rule say_meets, use assms in simp, use assms in simp, assumption)
    apply (rule peer.after [OF timeout], use assms in simp, use assms in simp, simp)
    apply (rule peer.after [where P = "\<lambda>rc v. owned uid gid v \<and> (rc = 0 \<longrightarrow> peer_known uid gid (trace v))"])
     apply (rule peer.branch, rule check_peer_creds_meets, assumption, simp, simp, rule peer.returns_safe, assumption, simp)
    apply (rule peer.after [where P = "\<lambda>_. owned uid gid"])
     apply (rule peer.branch, rule spawn_handler_meets, assumption, simp, simp, rule peer.returns_safe, assumption, simp)
    apply (rule close, assumption, assumption)
    done
qed

lemma round_checked:
  assumes "forks_checked uid gid (trace w)" and "owned uid gid w"
  shows "peer.meets uid gid (server_round d n) (\<lambda>_. owned uid gid) w"
proof -
  have accepts: "peer.meets uid gid (fold_m (server_accept d) m evs) (\<lambda>_. owned uid gid) v"
    if "forks_checked uid gid (trace v)" "owned uid gid v" for m evs v
    using that
  proof (induction evs arbitrary: m v)
    case (Cons ev evs)
    show ?case unfolding fold_m.simps by (rule peer.after [OF accept_checked [OF Cons.prems]]) (rule Cons.IH)
  qed (simp add: peer.returns_safe)
  show ?thesis
    unfolding server_round_def
    apply (rule peer.step_family(2) [OF assms(1)])
    apply (rule peer.branch, rule peer.branch, rule peer.returns_safe, use assms in simp, use assms in simp,
        rule peer.dies, use assms in simp)
    apply (rule peer.branch, rule peer.get, rule peer.returns_safe, use assms in simp, use assms in simp)
    apply (rule peer.after [OF quiet_meets [OF harmless_session(1) mild_session(2)]], use assms in simp, use assms in simp)
    apply (rule peer.branch, rule peer.returns_safe, assumption, assumption)
    apply (rule peer.after [OF accepts], assumption, assumption)
    apply (rule peer.returns_safe, assumption, assumption)
    done
qed

text \<open>
  C3: a session server starts a request handler only for its caller: whenever it forks, the
  connection it has accepted last is one whose peer has, by \<open>SO_PEERCRED\<close>, the uid and the gid
  of the session; other connections are closed, whatever they send.
\<close>

theorem session_serves_caller:
  "forks_checked (caller_uid (cl g)) (caller_gid (cl g)) (trace (snd (caller_server d (start g [] rs))))"
proof -
  let ?u = "caller_uid (cl g)" and ?g = "caller_gid (cl g)"
  have w: "forks_checked ?u ?g (trace (start g [] rs))" "owned ?u ?g (start g [] rs)"
    by (simp_all add: start_def idents_def)
  have "peer.safe ?u ?g (caller_server d) (start g [] rs)"
    unfolding caller_server_def
    apply (rule peer.after_seq [OF quiet_meets [OF harmless_signals(3) mild_io(9) w]])
    apply (rule peer.after_seq [OF peer.event_loop_meets [where I = "\<lambda>_. owned ?u ?g" and Q = "\<lambda>_. owned ?u ?g"]])
       apply assumption
      apply assumption
     apply (rule peer.meets_conseq [OF round_checked], assumption, assumption, simp split: sum.splits)
    apply (rule peer.compose_seq [OF peer.messages(4)], assumption, rule peer.dies, assumption)
    done
  then show ?thesis by (simp add: peer.safe_def)
qed

subsection \<open>A session ends\<close>

lemma tame_server_round: "tame (server_round d n)" "progress_on goes_on (server_round d n)"
proof -
  have i: "tame (server_inputs d evs finish)" for evs finish
    by (induction evs arbitrary: finish) (auto intro!: tame_rules tame_fns split: option.split)
  have a: "tame (server_accept d n ev)" for n ev
    unfolding server_accept_def check_peer_creds_def by (intro tame_rules tame_cases tame_fns)
  show "tame (server_round d n)"
    unfolding server_round_def by (intro tame_rules tame_fold_m i a)
  show "progress_on goes_on (server_round d n)"
    unfolding server_round_def
    by (intro progress_on_tame(3) progress_sys_family tame_rules tame_fold_m i a)
qed

lemma tame_caller_server [tame_fns]: "tame (caller_server d)"
  unfolding caller_server_def by (intro tame_rules tame_fns tame_event_loop tame_server_round)

lemma idle_round:
  "server_round d n (start g t (rep 0 # rs)) =
     (Ret (if server_session_timeout (sv g) \<le> n + 1 then Inr () else Inl (n + 1)),
      start g ((Fd (Epoll_wait (fd_ep d) 1000), rep 0) # t) rs)"
  by (simp add: server_round_def run_defs start_def rep_def)

lemma next_second:
  fixes n timeout :: u64
  assumes "\<not> timeout \<le> n + 1" and "unat n < unat timeout"
  shows "unat (n + 1) = Suc (unat n)" "Suc (unat n) < unat timeout"
proof -
  have "unat timeout < 2 ^ 64" using unsigned_less [of timeout] by simp
  with assms(2) show n: "unat (n + 1) = Suc (unat n)" by (simp add: unat_word_ariths)
  with assms(1) show "Suc (unat n) < unat timeout" by (simp add: word_le_nat_alt)
qed

lemma idle_loop:
  assumes "unat n < max 1 (unat (server_session_timeout (sv g)))" and "k < f"
  shows "fst (loop f (server_round d) n (start g t (replicate k (rep 0))))
    = (if max 1 (unat (server_session_timeout (sv g))) \<le> unat n + k then Ret () else Stop Blocked)"
  using assms
proof (induction k arbitrary: f n t)
  case 0
  then show ?case by (cases f) (auto simp: server_round_def run_defs start_def max_def)
next
  case (Suc k)
  let ?timeout = "server_session_timeout (sv g)"
  obtain f' where f: "f = Suc f'" "k < f'" using Suc.prems(2) by (cases f) auto
  show ?case
  proof (cases "?timeout \<le> n + 1")
    case True
    have "unat (n + 1) \<le> Suc (unat n)" by (simp add: unat_word_ariths)
    with True have "unat ?timeout \<le> Suc (unat n)" by (simp add: word_le_nat_alt)
    with True show ?thesis by (simp add: f idle_round bnd_def ret_def)
  next
    case False
    then have "unat n < unat ?timeout" using Suc.prems(1) unat_gt_0 [of ?timeout] by (cases "?timeout = 0") (auto simp: max_def split: if_splits)
    with False have "unat (n + 1) = Suc (unat n)" "Suc (unat n) < unat ?timeout"
      by (rule next_second)+
    with False f show ?thesis by (simp add: idle_round bnd_def Suc.IH)
  qed
qed

text \<open>
  C34: an idle session finishes by itself: with no connection and no signal the server exits after as
  many seconds as the configured timeout says (after one if it says zero), and not before.
\<close>

theorem idle_session_exits:
  "fst (caller_server d (start g [] (rep 0 # replicate n (rep 0)))) =
     (if max 1 (unat (server_session_timeout (sv g))) \<le> n then Stop (Exit 0) else Stop Blocked)"
proof -
  let ?t = "[(Mi (Sigprocmask_unblock SIGCHLD), rep 0)]"
  have mask: "block_signal_handler SIGCHLD False (start g [] (rep 0 # rs)) = (Ret (), start g ?t rs)" for rs
    by (simp add: block_signal_handler_def xsigprocmask_def run_defs start_def rep_def)
  have "fst (event_loop (server_round d) 0 (start g ?t (replicate n (rep 0)))) =
     (if max 1 (unat (server_session_timeout (sv g))) \<le> n then Ret () else Stop Blocked)"
    using idle_loop [of 0 g n "Suc n" d ?t] by (simp add: event_loop_def start_def del: loop.simps)
  then show ?thesis
    unfolding caller_server_def seq_def
    by (cases "event_loop (server_round d) 0 (start g ?t (replicate n (rep 0)))")
      (auto simp: bnd_def mask notice_msg_def vprint_or_log_msg_def vprint_msg_def run_defs split: outcome.splits if_splits)
qed

end
