(* ===== verification/Daemon.thy ===== *)
theory Daemon
  imports Caller_Server Server_Config
begin

text \<open>
  The top-level daemon (hasher-privd.c), its pid file (pidfile.c) and the level of its messages
  (error_prints.c): it accepts connections on the main socket and starts one session server for
  every caller and number.
\<close>

subsection \<open>The level of messages (error_prints.c)\<close>

definition log_level_table :: "(string \<times> int) list" where
  "log_level_table = [(''debug'', 7), (''info'', 6), (''notice'', 5), (''warning'', 4), (''error'', 3)]"

definition translate_log_level :: "string \<Rightarrow> int res" where
  "translate_log_level name =
     (case find (\<lambda>e. strcaseeq name (fst e)) log_level_table of
        Some e \<Rightarrow> Inr (snd e)
      | None \<Rightarrow> Inl (Diag ''unrecognized log level: %s'' [name]))"

definition set_log_level :: "string \<Rightarrow> unit m" where
  "set_log_level name = bnd (lift_res (translate_log_level name)) (\<lambda>l. modg (log_level_update (\<lambda>_. l)))"

subsection \<open>The pid file (pidfile.c)\<close>

text \<open>A scanned number is the first of the reply's numbers.\<close>

definition read_pid :: "string \<Rightarrow> int m" where
  "read_pid pidfile =
     bnd (sys_fs (Fopen pidfile)) (\<lambda>fp.
     if r_ret fp = 0 then ret 0
     else bnd (sys_fs (Fscanf_d (r_ret fp))) (\<lambda>r.
          bnd (sys_fs (Fclose (r_ret fp))) (\<lambda>_. ret (if r_ret r \<noteq> 1 then 0 else r_ints r ! 0))))"

definition check_pid :: "string \<Rightarrow> int m" where
  "check_pid pidfile =
     bnd (read_pid pidfile) (\<lambda>pid.
     if pid = 0 then ret 0
     else bnd (sys_pr Getpid) (\<lambda>r.
     if pid = r_ret r then ret 0
     else bnd (sys_pr (Kill_0 pid)) (\<lambda>r.
     ret (if r_ret r \<noteq> 0 \<and> r_errno r = ESRCH then 0 else pid))))"

definition write_pid :: "string \<Rightarrow> int m" where
  "write_pid pidfile =
     bnd (sys_fs (Open pidfile [O_RDWR, O_CREAT, O_TRUNC, O_CLOEXEC] 0x1A4)) (\<lambda>r.
     let fd = r_ret r in
     if fd < 0 then seq (perror_msg ''open: %s'') (ret 0)
     else bnd (sys_fs (Fdopen fd)) (\<lambda>r.
     if r_ret r = 0 then seq (perror_msg ''fdopen: %s'') (seq (close_fd fd) (ret 0))
     else bnd (sys_fs (Flock fd)) (\<lambda>r.
     if r_ret r \<noteq> 0 then
       bnd (sys_fs (Fscanf_d fd)) (\<lambda>_.
       seq (error_msg ''%s: locked by pid %d'') (bnd (sys_fs (Fclose fd)) (\<lambda>_. ret 0)))
     else bnd (sys_pr Getpid) (\<lambda>p.
     bnd (sys_fs (Fprintf fd (fmt_d (r_ret p) @ [newline]))) (\<lambda>r.
     if r_ret r < 0 then seq (perror_msg ''fprintf: %s'') (bnd (sys_fs (Fclose fd)) (\<lambda>_. ret 0))
     else bnd (sys_fs (Fclose fd)) (\<lambda>r.
     if r_ret r \<noteq> 0 then seq (perror_msg ''fclose: %s'') (ret 0) else ret (r_ret p)))))))"

definition remove_pid :: "string \<Rightarrow> int m" where
  "remove_pid pidfile =
     bnd (sys_fs (Unlink pidfile)) (\<lambda>r. if r_ret r \<noteq> 0 then seq (perror_msg ''unlink: %s'') (ret (-1)) else ret 0)"

subsection \<open>Sessions (hasher-privd.c)\<close>

text \<open>The list \<open>pool\<close> is passed along; its order is that of the list.\<close>

record session =
  s_uid :: u32
  s_gid :: u32
  s_num :: u32
  server_pid :: int

definition MAIN_SOCKET_BASE_NAME :: string where "MAIN_SOCKET_BASE_NAME = ''daemon''"

definition create_socket_node :: "int m" where
  "create_socket_node =
     bnd (sys_fs (Umask 15)) (\<lambda>m.
     bnd (xsprintf UNIX_PATH_MAX (SOCKETDIR @ ''/'' @ MAIN_SOCKET_BASE_NAME)) (\<lambda>path.
     bnd (srv_listen path) (\<lambda>fd.
     if fd < 0 then perror_msg_and_die ''srv_listen''
     else bnd (sys_fs (Umask (word_of_int (r_ret m)))) (\<lambda>_.
     bnd (getg (server_gid \<circ> sv)) (\<lambda>gid.
     bnd (sys_fs (Chown path 0 gid)) (\<lambda>r.
     if r_ret r \<noteq> 0 then perror_msg_and_die ''chown: %s''
     else seq (notice_msg ''listening on %s'') (ret fd)))))))"

definition run_caller_server :: "hadaemon \<Rightarrow> int \<Rightarrow> session \<Rightarrow> 'a m" where
  "run_caller_server d cl_conn a =
     seq (close_fd (snd (fd_pipe d)))
    (seq (close_fd (fd_ep d))
    (seq (close_fd (fd_signal d))
    (seq (close_fd (fd_conn d))
    (seq (modg (cl_update (caller_num_update (\<lambda>_. s_num a))))
    (seq (init_caller_data (s_uid a) (s_gid a))
    (seq (setproctitle ''server %s/%u:%u'')
    (bnd (caller_server_listener_init \<lparr>fd_pipe = (fst (fd_pipe d), -1), fd_conn = 0, fd_signal = 0, fd_ep = 0\<rparr>)
       (\<lambda>(rc, sh).
     if rc < 0 then bnd (send_response_to_client cl_conn CMD_STATUS_FAILED None) (\<lambda>_. c_exit 1)
     else seq (notice_msg ''%s/%u:%u: session started'')
         (bnd (send_response_to_client cl_conn CMD_STATUS_DONE None) (\<lambda>_.
          seq (close_fd cl_conn) (caller_server sh)))))))))))"

definition peer_valid :: "u32 \<Rightarrow> u32 \<Rightarrow> bool m" where
  "peer_valid uid gid =
     bnd (getg sv) (\<lambda>s.
     bnd (if min_uid s < 0 then ret True
          else if \<not> valid_uid s uid then ret False
          else bnd (sys_pr Getuid) (\<lambda>r. ret (uid \<noteq> word_of_int (r_ret r)))) (\<lambda>ok.
     if \<not> ok then seq (error_msg ''invalid uid: %u'') (ret False)
     else bnd (if min_gid s < 0 then ret True
          else if \<not> valid_gid s gid then ret False
          else bnd (sys_pr Getgid) (\<lambda>r. ret (gid \<noteq> word_of_int (r_ret r)))) (\<lambda>ok.
     if \<not> ok then seq (error_msg ''invalid gid: %u'') (ret False) else ret True)))"

definition start_session :: "hadaemon \<Rightarrow> int \<Rightarrow> u32 \<Rightarrow> session list \<Rightarrow> (int \<times> session list) m" where
  "start_session d conn num pool =
     bnd (get_peercred conn) (\<lambda>cred.
     case cred of
       None \<Rightarrow> ret (-1, pool)
     | Some (_, uid, gid) \<Rightarrow>
         bnd (peer_valid uid gid) (\<lambda>ok.
         if \<not> ok then ret (-1, pool)
         else if list_ex (\<lambda>s. s_uid s = uid \<and> s_num s = num) pool
         then bnd (send_response_to_client conn CMD_STATUS_DONE None) (\<lambda>_. ret (0, pool))
         else bnd (sys_mi (Malloc 24)) (\<lambda>r.
         if r_ret r = 0 then seq (perror_msg ''calloc'') (ret (-1, pool))
         else seq (notice_msg ''starting session for user %d:%u'')
        (bnd (sys_pr Fork) (\<lambda>r.
         let s = \<lparr>s_uid = uid, s_gid = gid, s_num = num, server_pid = r_ret r\<rparr> in
         if r_ret r < 0 then seq (perror_msg ''fork'') (ret (-1, pool))
         else if r_ret r = 0 then run_caller_server d conn s
         else ret (0, pool @ [s]))))))"

definition process_request :: "hadaemon \<Rightarrow> int \<Rightarrow> session list \<Rightarrow> session list m" where
  "process_request d conn pool =
     bnd (set_recv_timeout conn 3) (\<lambda>rc.
     if rc < 0 then ret pool
     else bnd (xrecvmsg conn 8) (\<lambda>o_hdr.
     case o_hdr of
       None \<Rightarrow> ret pool
     | Some data \<Rightarrow>
         if hdr_type (header_of data) = CMD_OPEN_SESSION then
           bnd (start_session d conn (hdr_len (header_of data)) pool) (\<lambda>(rc, pool').
           seq (only_if (rc < 0)
                  (bnd (send_response_to_client conn CMD_STATUS_FAILED (Some ''command failed'')) (\<lambda>_. ret ())))
             (ret pool'))
         else seq (error_msg ''unknown command: %d'')
           (bnd (send_response_to_client conn CMD_STATUS_FAILED (Some ''unknown command'')) (\<lambda>_. ret pool))))"

fun free_session :: "int \<Rightarrow> session list \<Rightarrow> session list" where
  "free_session pid [] = []"
| "free_session pid (s # pool) = (if pid = server_pid s then pool else s # free_session pid pool)"

definition wait_round :: "bool \<Rightarrow> session list \<Rightarrow> (session list + session list) m" where
  "wait_round nohang pool =
     bnd (waitpid_retry (-1) nohang) (\<lambda>r.
     if r_ret r \<le> 0 then
       seq (only_if (r_ret r < 0 \<and> r_errno r \<noteq> ECHILD) (perror_msg ''waitpid'')) (ret (Inr pool))
     else seq (case r_status r of
                 WExited rc \<Rightarrow>
                   if rc \<noteq> 0 then notice_msg ''process %d exited, status=%d'' else info_msg ''process %d exited''
               | WSignaled _ \<Rightarrow> notice_msg ''process %d terminated by signal %d''
               | WOther _ \<Rightarrow> ret ())
            (ret (Inl (free_session (r_ret r) pool))))"

definition wait_sessions :: "bool \<Rightarrow> session list \<Rightarrow> session list m" where
  "wait_sessions nohang pool = event_loop (wait_round nohang) pool"

subsection \<open>The main loop (hasher-privd.c)\<close>

text \<open>The state is \<open>finish_server\<close> and the pool.\<close>

definition daemon_input :: "hadaemon \<Rightarrow> bool \<times> session list \<Rightarrow> epoll_event \<Rightarrow> (bool \<times> session list) m" where
  "daemon_input d st ev =
     (if ev_in ev \<and> ev_fd ev = fd_signal d then
        bnd (read_siginfo (fd_signal d)) (\<lambda>o_signo.
        case o_signo of
          None \<Rightarrow> ret st
        | Some signo \<Rightarrow>
            if finishing signo then ret (True, snd st)
            else if signo = signum SIGCHLD
            then bnd (wait_sessions True (snd st)) (\<lambda>pool. ret (fst st, pool))
            else seq (error_msg ''unexpected signal %d ignored'') (ret st))
      else ret st)"

definition daemon_accept :: "hadaemon \<Rightarrow> session list \<Rightarrow> epoll_event \<Rightarrow> session list m" where
  "daemon_accept d pool ev =
     (if ev_in ev \<and> ev_fd ev = fd_conn d then
        bnd (sys_fd (Accept (fd_conn d))) (\<lambda>r.
        let conn = r_ret r in
        if conn < 0 then seq (perror_msg ''accept4'') (ret pool)
        else bnd (process_request d conn pool) (\<lambda>pool'. seq (close_fd conn) (ret pool')))
      else ret pool)"

definition daemon_round :: "hadaemon \<Rightarrow> session list \<Rightarrow> (session list + session list) m" where
  "daemon_round d pool =
     bnd (sys_fd (Epoll_wait (fd_ep d) (-1))) (\<lambda>r.
     if r_ret r < 0 then
       (if r_errno r = EINTR then ret (Inl pool) else seq (perror_msg ''epoll_wait'') (ret (Inr pool)))
     else bnd (fold_m (daemon_input d) (False, pool) (events_of r)) (\<lambda>(finish, pool).
       if finish then ret (Inr pool)
       else bnd (fold_m (daemon_accept d) pool (events_of r)) (\<lambda>pool. ret (Inl pool))))"

subsection \<open>The program (hasher-privd.c)\<close>

definition print_help :: "'a m" where
  "print_help = seq (emit (Mi (Printf ''Usage: %s [options]''))) (c_exit 0)"

definition print_version :: "'a m" where
  "print_version = seq (emit (Mi (Printf ''%s version %s''))) (c_exit 0)"

definition show_usage :: "'a m" where
  "show_usage = seq (emit (Mi (Dprintf 2 ''Try --help for more information.''))) (c_exit 1)"

record daemon_opts =
  o_loglevel :: "string option"
  o_pidfile :: "string option"
  o_daemonize :: bool

text \<open>One option as \<open>getopt_long\<close> yields it: its letter and its argument.\<close>

definition daemon_option :: "daemon_opts \<Rightarrow> char \<times> string \<Rightarrow> daemon_opts m" where
  "daemon_option st opt =
     (case opt of (i, arg) \<Rightarrow>
        if i = CHR ''D'' then ret (st\<lparr>o_daemonize := True\<rparr>)
        else if i = CHR ''l'' then ret (st\<lparr>o_loglevel := Some arg\<rparr>)
        else if i = CHR ''p'' then ret (st\<lparr>o_pidfile := Some arg\<rparr>)
        else if i = CHR ''V'' then print_version
        else if i = CHR ''h'' then print_help
        else show_usage)"

definition daemon_serve :: "string option \<Rightarrow> int m" where
  "daemon_serve pidfile =
     bnd (sys_fd Pipe) (\<lambda>r.
     if r_ret r \<noteq> 0 then perror_msg_and_die ''pipe''
     else let pipe = (r_ints r ! 0, r_ints r ! 1) in
     bnd create_socket_node (\<lambda>conn.
     bnd daemon_create_signal_fd (\<lambda>sig.
     if sig < 0 then perror_msg_and_die ''signalfd''
     else bnd (sys_fd Epoll_create) (\<lambda>r.
     if r_ret r < 0 then perror_msg_and_die ''epoll_create1''
     else let d = \<lparr>fd_pipe = pipe, fd_conn = conn, fd_signal = sig, fd_ep = r_ret r\<rparr> in
     bnd (epoll_add_in (fd_ep d) (fd_signal d)) (\<lambda>a.
     bnd (if a < 0 then ret (-1) else epoll_add_in (fd_ep d) (fd_conn d)) (\<lambda>b.
     if b < 0 then perror_msg_and_die ''epoll_add_in''
     else bnd (sys_mi (Signal_dfl SIGCHLD)) (\<lambda>_.
     bnd (sys_mi (Signal_ign SIGPIPE)) (\<lambda>_.
     seq (notice_msg ''accepting connections'')
    (bnd (event_loop (daemon_round d) []) (\<lambda>pool.
     seq (notice_msg ''shutting down'')
    (seq (close_fd (snd (fd_pipe d)))
    (bnd (wait_sessions False pool) (\<lambda>_.
     seq (case pidfile of None \<Rightarrow> ret () | Some p \<Rightarrow> bnd (remove_pid p) (\<lambda>_. ret ()))
         (ret 0))))))))))))))"

definition daemon_main :: "(char \<times> string) list \<Rightarrow> int m" where
  "daemon_main opts =
     seq sanitize_fds
    (bnd (sys_pr Prctl_set_no_new_privs) (\<lambda>r.
     seq (only_if (r_ret r \<noteq> 0) (perror_msg ''PR_SET_NO_NEW_PRIVS''))
    (bnd (fold_m daemon_option \<lparr>o_loglevel = None, o_pidfile = None, o_daemonize = False\<rparr> opts) (\<lambda>st.
     seq configure_server
    (bnd (getg sv) (\<lambda>s.
     seq (case (case o_loglevel st of None \<Rightarrow> server_loglevel s | Some l \<Rightarrow> Some l) of
            None \<Rightarrow> ret () | Some l \<Rightarrow> set_log_level l)
    (let pidfile = (if o_daemonize st \<and> o_pidfile st = None
                      \<and> server_pidfile s \<noteq> None \<and> server_pidfile s \<noteq> Some []
                    then server_pidfile s else o_pidfile st) in
     bnd (case pidfile of None \<Rightarrow> ret 0 | Some p \<Rightarrow> check_pid p) (\<lambda>pid.
     if pid \<noteq> 0 then error_msg_and_die ''already running''
     else bnd (if o_daemonize st then bnd (sys_mi Daemon) (\<lambda>r. ret (r_ret r)) else ret 0) (\<lambda>rc.
     if rc < 0 then perror_msg_and_die ''daemon''
     else seq (init_log_daemon (\<not> o_daemonize st))
    (bnd (case pidfile of None \<Rightarrow> ret 1 | Some p \<Rightarrow> write_pid p) (\<lambda>pid.
     if pid = 0 then ret 1 else daemon_serve pidfile)))))))))))"

subsection \<open>The daemon's process keeps its configuration\<close>

text \<open>The server configuration and the ids of the caller, which a session server sets once.\<close>

definition who :: "globals \<Rightarrow> server_conf \<times> u32 \<times> u32" where
  "who g = (sv g, caller_uid (cl g), caller_gid (cl g))"

abbreviation steady :: "server_conf \<times> u32 \<times> u32 \<Rightarrow> 'a m \<Rightarrow> bool" where
  "steady k m \<equiv> runs (keeps (\<lambda>g. who g = k)) m"

named_theorems steady_fns \<open>functions that keep the server configuration and the caller's ids\<close>

lemmas steady_rules = keeps_rules TrueI

lemma keeps_io:
  "runs (keeps P) (read_retry fd n)" "runs (keeps P) (waitpid_retry p nh)" "runs (keeps P) (xclose fd)" "runs (keeps P) (xclose_to fd)"
  "runs (keeps P) (close_fd fd)" "runs (keeps P) (xrecvmsg fd n)" "runs (keeps P) (send_response_to_client fd rc txt)"
  "runs (keeps P) (get_peercred fd)" "runs (keeps P) (set_recv_timeout fd secs)" "runs (keeps P) (read_siginfo fd)"
  "runs (keeps P) daemon_create_signal_fd" "runs (keeps P) (epoll_add_in ep fd)" "runs (keeps P) (xsprintf n s)" "runs (keeps P) (srv_listen s)"
  unfolding read_retry_def waitpid_retry_def xclose_def xclose_to_def close_fd_def xrecvmsg_def recvmsg_retry_def
    send_response_to_client_def sendmsg_retry_def get_peercred_def set_recv_timeout_def read_siginfo_def
    daemon_create_signal_fd_def xsigprocmask_def epoll_add_in_def xsprintf_def srv_listen_def
  by (intro steady_rules)+

lemmas steady_io [steady_fns] = keeps_io [where P = "\<lambda>g. who g = k" for k]

lemma steady_config [steady_fns]: "steady k (safe_chdir path stat_root_ok_validator)" "steady k (load_caller_config n)"
    "steady k configure_caller"
proof -
  have v: "steady k (stat_root_ok_validator st n)" for st n
    unfolding stat_root_ok_validator_def by (intro steady_rules)
  have f: "steady k (fread_caller_config fd n)" for fd n
    unfolding fread_caller_config_def by (intro steady_rules) (simp add: Monad_Logic.stable_def who_def)
  show s: "steady k (safe_chdir path stat_root_ok_validator)" for path
    unfolding safe_chdir_def safe_chdir_component_def by (intro steady_rules v)
  show l: "steady k (load_caller_config n)" for n
    unfolding load_caller_config_def load_config_def
    by (intro steady_rules v f) (simp add: Monad_Logic.stable_def who_def)
  show "steady k configure_caller"
    unfolding configure_caller_def load_user_configs_def check_users_def check_user_def
    by (intro steady_rules s l; simp add: Monad_Logic.stable_def who_def)
qed

lemma steady_listener [steady_fns]: "steady k (caller_server_listener_init d)"
  unfolding caller_server_listener_init_def listener_fail_def by (intro steady_rules steady_fns)

lemma steady_daemon [steady_fns]: "steady k (wait_sessions nh pool)" "steady k (peer_valid uid gid)"
  unfolding wait_sessions_def wait_round_def peer_valid_def
  by (intro steady_rules runs_wait_status steady_fns)+

subsection \<open>The pool of sessions\<close>

text \<open>
  At most one session for a caller and a number; the ids of every caller are in the configured
  range; every session has the pid of a process.
\<close>

definition session_ok :: "server_conf \<Rightarrow> session \<Rightarrow> bool" where
  "session_ok c s \<longleftrightarrow> valid_uid c (s_uid s) \<and> valid_gid c (s_gid s) \<and> 0 < server_pid s"

definition pool_ok :: "server_conf \<Rightarrow> session list \<Rightarrow> bool" where
  "pool_ok c pool \<longleftrightarrow> distinct (map (\<lambda>s. (s_uid s, s_num s)) pool) \<and> list_all (session_ok c) pool"

lemma pool_ok_Nil [simp]: "pool_ok c []"
  by (simp add: pool_ok_def)

lemma pool_ok_snoc:
  "pool_ok c pool \<Longrightarrow> session_ok c s \<Longrightarrow> \<not> list_ex (\<lambda>x. s_uid x = s_uid s \<and> s_num x = s_num s) pool \<Longrightarrow>
     pool_ok c (pool @ [s])"
  by (auto simp: pool_ok_def list_ex_iff)

lemma free_session_subset: "set (free_session pid pool) \<subseteq> set pool"
  by (induction pool) auto

lemma free_session_ok: "pool_ok c pool \<Longrightarrow> pool_ok c (free_session pid pool)"
proof (induction pool)
  case (Cons a pool)
  then show ?case
    using free_session_subset [of pid pool] by (auto simp: pool_ok_def list_all_iff)
qed simp

lemma run_caller_server_returns [returns_rules]: "returns (run_caller_server d conn a) Q"
  unfolding run_caller_server_def caller_server_def by (intro returns_rules)

lemma peer_valid_returns:
  "pc (peer_valid uid gid) (\<lambda>ok v. who (gl v) = who (gl w) \<and> (ok \<longrightarrow> valid_uid (sv (gl w)) uid \<and> valid_gid (sv (gl w)) gid)) w"
  unfolding peer_valid_def
  by (intro pc_rules) (auto simp: valid_uid_def valid_gid_def)

abbreviation pool_inv :: "server_conf \<times> u32 \<times> u32 \<Rightarrow> session list \<Rightarrow> world \<Rightarrow> bool" where
  "pool_inv k pool v \<equiv> who (gl v) = k \<and> pool_ok (fst k) pool"

lemma pc_steady: "steady k m \<Longrightarrow> who (gl w) = k \<Longrightarrow> (\<And>x v. who (gl v) = k \<Longrightarrow> Q x v) \<Longrightarrow> pc m Q w"
  by (rule pc_keeps)

lemma start_session_pool:
  assumes "pool_inv k pool w"
  shows "pc (start_session d conn num pool) (\<lambda>(rc, pool'). pool_inv k pool') w"
proof -
  have ret: "pc (ret x) (\<lambda>(rc, pool'). pool_inv k pool') v" if "pool_inv k (snd x) v" for x :: "int \<times> session list" and v
    by (rule pc_comb) (use that in \<open>auto split: prod.split\<close>)
  show ?thesis
    unfolding start_session_def
    apply (rule pc_comb)
    apply (rule pc_steady [OF steady_io(8)], use assms in simp)
    apply (rule pc_cases, rule ret, use assms in simp)
    apply (rule pc_cases, rule pc_cases)
    apply (rule pc_comb)
    apply (rule pc_conseq [OF peer_valid_returns])
    apply (rule pc_comb, rule ret, use assms in simp)
    apply (rule pc_comb, rule pc_comb, rule pc_steady [OF steady_io(7)], use assms in simp, rule ret, use assms in simp)
    apply (rule pc_comb, rule pc_sys_family)
    apply (rule pc_comb, rule pc_comb, rule pc_msg, rule ret, use assms in \<open>simp add: who_def\<close>)
    apply (rule pc_comb, rule pc_msg, rule pc_comb, rule pc_sys_family, rule pc_comb)
    apply (rule pc_comb, rule pc_comb, rule pc_msg, rule ret, use assms in \<open>simp add: who_def\<close>)
    apply (rule pc_comb, rule pc_noreturn, rule run_caller_server_returns)
    apply (rule ret, use assms in \<open>auto simp: who_def session_ok_def intro!: pool_ok_snoc\<close>)
    done
qed

lemma process_request_pool:
  assumes "pool_inv k pool w"
  shows "pc (process_request d conn pool) (pool_inv k) w"
proof -
  have ret: "pc (ret p) (pool_inv k) v" if "pool_inv k p v" for p v
    by (rule pc_comb) (use that in simp)
  show ?thesis
    unfolding process_request_def Let_def
    apply (rule pc_comb)
    apply (rule pc_steady [OF steady_io(9)], use assms in simp)
    apply (rule pc_comb, rule ret, use assms in simp)
    apply (rule pc_comb)
    apply (rule pc_steady [OF steady_io(6)], assumption)
    apply (rule pc_cases, rule ret, use assms in simp)
    apply (rule pc_comb)
     apply (rule pc_comb, rule pc_conseq [OF start_session_pool [where k = k]], use assms in simp)
     apply (rule pc_cases, rule pc_comb, rule pc_only_if)
      apply (rule pc_comb, rule pc_steady [OF steady_io(7)], simp, rule pc_comb, rule ret, simp)
     apply (rule ret, simp)
    apply (rule pc_comb, rule pc_msg, rule pc_comb)
    apply (rule pc_steady [OF steady_io(7)], simp, rule ret, use assms in simp)
    done
qed

lemma pc_fold_m:
  assumes "\<And>s x v. I s v \<Longrightarrow> pc (f s x) I v"
  shows "I s w \<Longrightarrow> pc (fold_m f s xs) I w"
proof (induction xs arbitrary: s w)
  case (Cons x xs)
  show ?case
    unfolding fold_m.simps by (rule pc_comb, rule pc_conseq [OF assms [OF Cons.prems]]) (rule Cons.IH)
qed (simp add: wp_ret)

lemma wait_sessions_pool:
  assumes "pool_inv k pool w"
  shows "pc (wait_sessions nh pool) (pool_inv k) w"
  unfolding wait_sessions_def
proof (rule pc_event_loop [where I = "pool_inv k", OF assms])
  fix s v assume i: "pool_inv k s v"
  have r: "steady k (case st of WExited rc \<Rightarrow> if rc \<noteq> 0 then notice_msg a else info_msg b
      | WSignaled n \<Rightarrow> notice_msg c | WOther x \<Rightarrow> ret ())" for st a b c
    by (intro steady_rules runs_wait_status)
  show "pc (wait_round nh s) (\<lambda>x u. case x of Inl s' \<Rightarrow> pool_inv k s' u | Inr r \<Rightarrow> pool_inv k r u) v"
    unfolding wait_round_def
    apply (rule pc_comb)
    apply (rule pc_steady [OF steady_io(2)], use i in simp)
    apply (rule pc_comb, rule pc_comb, rule pc_only_if, rule pc_msg, rule pc_comb, use i in simp)
     apply (rule pc_comb, use i in simp)
    apply (rule pc_comb, rule pc_steady [OF r], assumption)
    apply (rule pc_comb, use i free_session_ok in simp)
    done
qed

lemma daemon_round_pool:
  assumes "pool_inv k pool w"
  shows "pc (daemon_round d pool) (\<lambda>x v. case x of Inl pool' \<Rightarrow> pool_inv k pool' v | Inr pool' \<Rightarrow> pool_inv k pool' v) w"
proof -
  have input: "pc (daemon_input d st ev) (\<lambda>st. pool_inv k (snd st)) v" if "pool_inv k (snd st) v" for st ev v
    unfolding daemon_input_def
    apply (rule pc_comb, rule pc_comb)
     apply (rule pc_steady [OF steady_io(10)], use that in simp)
     apply (rule pc_cases, rule pc_comb, use that in simp)
     apply (rule pc_comb, rule pc_comb, use that in simp)
     apply (rule pc_comb, rule pc_comb, rule pc_conseq [OF wait_sessions_pool [where k = k]], use that in simp)
      apply (rule pc_comb, simp)
     apply (rule pc_comb, rule pc_msg, rule pc_comb, use that in simp)
    apply (rule pc_comb, use that in simp)
    done
  have accept: "pc (daemon_accept d p ev) (pool_inv k) v" if "pool_inv k p v" for p ev v
    unfolding daemon_accept_def
    apply (rule pc_comb, rule pc_comb, rule pc_sys_family, rule pc_comb)
     apply (rule pc_comb, rule pc_comb, rule pc_msg, rule pc_comb, use that in simp)
     apply (rule pc_comb, rule pc_conseq [OF process_request_pool [where k = k]], use that in simp)
     apply (rule pc_comb, rule pc_steady [OF steady_io(5)], simp, rule pc_comb, simp)
    apply (rule pc_comb, use that in simp)
    done
  show ?thesis
    unfolding daemon_round_def
    apply (rule pc_comb, rule pc_sys_family)
    apply (rule pc_comb, rule pc_comb, rule pc_comb, use assms in simp)
     apply (rule pc_comb, rule pc_msg, rule pc_comb, use assms in simp)
    apply (rule pc_comb, rule pc_conseq [OF pc_fold_m [where I = "\<lambda>st. pool_inv k (snd st)"]])
      apply (rule input, assumption)
     apply (use assms in simp)
    apply (rule pc_cases, rule pc_comb, rule pc_comb, simp)
    apply (rule pc_comb, rule pc_conseq [OF pc_fold_m [where I = "pool_inv k"]])
      apply (rule accept, assumption)
     apply simp
    apply (rule pc_comb, simp)
    done
qed

text \<open>The pools the daemon's loop can have between two rounds.\<close>

inductive daemon_reaches :: "hadaemon \<Rightarrow> globals \<Rightarrow> session list \<Rightarrow> globals \<Rightarrow> bool" for d g0 where
  started: "daemon_reaches d g0 [] g0"
| round: "daemon_reaches d g0 pool g \<Longrightarrow> daemon_round d pool w = (Ret (Inl pool'), v) \<Longrightarrow> gl w = g \<Longrightarrow>
    daemon_reaches d g0 pool' (gl v)"

text \<open>
  C5: at every moment the daemon has at most one session server for a user and a session number;
  every user that has one is within the configured range of uids and gids, and every entry of
  the pool has the pid of a process, whatever clients connect and whatever children end.
\<close>

theorem daemon_pool_ok:
  assumes "daemon_reaches d g0 pool g"
  shows "pool_ok (sv g0) pool \<and> sv g = sv g0"
proof -
  have "who g = who g0 \<and> pool_ok (sv g0) pool"
    using assms
  proof induction
    case (round pool g w pool' v)
    then have "pool_inv (who g0) pool w" by (simp add: who_def)
    from pcD [OF daemon_round_pool [OF this] round.hyps(2)] show ?case by (simp add: who_def)
  qed simp
  then show ?thesis by (simp add: who_def)
qed

text \<open>A round in which a user opens a session.\<close>

definition demo_hadaemon :: hadaemon where
  "demo_hadaemon = \<lparr>fd_pipe = (3, 4), fd_conn = 5, fd_signal = 6, fd_ep = 7\<rparr>"

definition open_session_replies :: "reply list" where
  "open_session_replies =
     [(rep 1)\<lparr>r_events := [\<lparr>ev_fd = 5, ev_in = True, ev_hup = False\<rparr>]\<rparr>, rep 8, rep 0,
      (rep 8)\<lparr>r_buf := header_bytes \<lparr>hdr_type = CMD_OPEN_SESSION, hdr_len = 0\<rparr>\<rparr>,
      (rep 0)\<lparr>r_ints := [100, 500, 500, 12]\<rparr>, rep 0, rep 0, rep 1, rep 4711, rep 0]"

lemma open_session_run:
  "\<exists>v. daemon_round demo_hadaemon [] (start globals_init [] open_session_replies) =
     (Ret (Inl [\<lparr>s_uid = 500, s_gid = 500, s_num = 0, server_pid = 4711\<rparr>]), v)"
  by (simp add: daemon_round_def open_session_replies_def demo_hadaemon_def start_def run_defs events_of_def
      daemon_input_def daemon_accept_def process_request_def set_recv_timeout_def xrecvmsg_def recvmsg_retry_def
      start_session_def get_peercred_def peer_valid_def valid_uid_def valid_gid_def globals_init_def
      server_conf_init_def rep_def close_fd_def xclose_def header_roundtrip temp_failure_retry_def)

lemma daemon_pool_ok_witness:
  "\<exists>pool g. daemon_reaches demo_hadaemon globals_init pool g \<and> length pool = 1
     \<and> pool_ok (sv globals_init) pool \<and> sv g = sv globals_init"
proof -
  from open_session_run obtain v where
    r: "daemon_round demo_hadaemon [] (start globals_init [] open_session_replies) =
       (Ret (Inl [\<lparr>s_uid = 500, s_gid = 500, s_num = 0, server_pid = 4711\<rparr>]), v)" ..
  have "daemon_reaches demo_hadaemon globals_init [\<lparr>s_uid = 500, s_gid = 500, s_num = 0, server_pid = 4711\<rparr>] (gl v)"
    by (rule daemon_reaches.round [OF daemon_reaches.started r]) (simp add: start_def)
  with daemon_pool_ok [OF this] show ?thesis
    by (intro exI [of _ "[\<lparr>s_uid = 500, s_gid = 500, s_num = 0, server_pid = 4711\<rparr>]"] exI [of _ "gl v"]) simp
qed

subsection \<open>The daemon never gives up\<close>

lemma tame_wait_sessions: "tame (wait_sessions nh pool)"
proof -
  have t: "tame (wait_round nh p)" for p
    unfolding wait_round_def by (intro tame_rules tame_cases tame_fns)
  have w: "progress (waitpid_retry (-1) nh)"
    unfolding waitpid_retry_def by (rule progress_retry)
  have p: "progress_on goes_on (wait_round nh p)" for p
    unfolding wait_round_def by (intro progress_on_tame(3) w tame_rules tame_cases)
  show ?thesis
    unfolding wait_sessions_def by (rule tame_event_loop [OF t p])
qed

lemma tame_configs [tame_fns]: "tame configure_server" "tame configure_caller" "tame (init_caller_data uid gid)"
  unfolding configure_server_def configure_caller_def init_caller_data_def load_user_configs_def check_users_def
    check_user_def set_server_access_gid_def load_server_config_def load_caller_config_def load_config_def
    fread_server_config_def fread_caller_config_def
  by (intro tame_rules tame_cases tame_fns; simp)+

lemma tame_daemon_round: "tame (daemon_round d pool)" "progress_on goes_on (daemon_round d pool)"
proof -
  have i: "tame (daemon_input d st ev)" for st ev
    unfolding daemon_input_def by (intro tame_rules tame_cases tame_fns tame_wait_sessions)
  have r: "tame (run_caller_server d conn a)" for conn a
    unfolding run_caller_server_def caller_server_listener_init_def listener_fail_def
    by (intro tame_rules tame_cases tame_fns)
  have a: "tame (daemon_accept d p ev)" for p ev
    unfolding daemon_accept_def process_request_def start_session_def peer_valid_def
    by (intro tame_rules tame_cases tame_fns r)
  show "tame (daemon_round d pool)"
    unfolding daemon_round_def by (intro tame_rules tame_cases tame_fold_m i a)
  show "progress_on goes_on (daemon_round d pool)"
    unfolding daemon_round_def
    by (intro progress_on_tame(3) progress_sys_family tame_rules tame_cases tame_fold_m i a)
qed

text \<open>
  C32: the daemon, with all the processes it forks (session servers, request handlers, runners,
  executors, parents and children of jobs), always gets to an exit, to the execution of a program
  or to a wait for the kernel: no loop of the program turns without a system call, whatever the
  options, the configuration, the clients and the kernel do.
\<close>

theorem daemon_ends: "fst (daemon_main opts w) \<noteq> Stop NoFuel"
proof -
  have o: "tame (daemon_option st opt)" for st opt
    unfolding daemon_option_def print_version_def print_help_def show_usage_def by (intro tame_rules tame_cases)
  have p: "tame (check_pid f)" "tame (write_pid f)" "tame (remove_pid f)" for f
    unfolding check_pid_def read_pid_def write_pid_def remove_pid_def by (intro tame_rules tame_cases tame_fns)+
  have s: "tame (daemon_serve f)" for f
    unfolding daemon_serve_def create_socket_node_def
    by (intro tame_rules tame_cases tame_fns p tame_event_loop tame_daemon_round tame_wait_sessions)
  have "tame (daemon_main opts)"
    unfolding daemon_main_def set_log_level_def init_log_daemon_def by (intro tame_rules tame_cases tame_fns tame_fold_m o p s)
  then show ?thesis unfolding tame_def never_out_of_fuel_def by blast
qed

subsection \<open>A session server runs programs as two users of its own only\<close>

definition session_idents :: "server_conf \<Rightarrow> u32 \<Rightarrow> u32 \<Rightarrow> (u32 \<times> u32) list \<Rightarrow> bool" where
  "session_idents c uid gid ids \<longleftrightarrow>
     list_all (\<lambda>(u, g). valid_uid c u \<and> valid_gid c g \<and> u \<noteq> uid \<and> g \<noteq> gid) ids
     \<and> distinct (map fst ids) \<and> distinct (map snd ids)"

definition execs_permitted :: "server_conf \<Rightarrow> u32 \<Rightarrow> u32 \<Rightarrow> trace \<Rightarrow> bool" where
  "execs_permitted c uid gid t \<longleftrightarrow> (\<exists>ids. session_idents c uid gid ids \<and> exec_ok ids t)"

interpretation perm: trace_safety "execs_permitted c uid gid" for c uid gid
  by unfold_locales (auto simp: execs_permitted_def)

lemma fresh_permitted: "fresh t \<Longrightarrow> execs_permitted c uid gid t"
  unfolding execs_permitted_def session_idents_def by (intro exI [of _ "[]"]) (simp add: fresh_exec)

text \<open>Code that runs before any job: it makes harmless calls and keeps what is known of the globals.\<close>

lemma before_jobs:
  assumes "emits harmless m" and "runs (keeps P) m" and "fresh (trace w)" and "P (gl w)"
  shows "perm.meets c uid gid m (\<lambda>_ v. fresh (trace v) \<and> P (gl v)) w"
proof -
  have "perm.meets c uid gid m (\<lambda>_ v. fresh (trace v)) w"
    unfolding perm.meets_def
  proof (rule wpI)
    have e: "emits pre_drop m" using assms(1) by (rule pre_drop_harmless)
    have f: "fresh (trace v)" if "m w = (out, v)" for out v
      using emits_trace [OF e that] assms(3) log_pre_drop by (metis (no_types, lifting) fresh_def fresh_simps(3) list_all_iff case_prodI2)
    show "execs_permitted c uid gid (trace v) \<and> fresh (trace v)" if "m w = (Ret x, v)" for x v
      using f [OF that] fresh_permitted by blast
    show "execs_permitted c uid gid (trace v)" if "m w = (Stop s, v)" for s v
      using f [OF that] fresh_permitted by blast
  qed
  moreover have "pc m (\<lambda>_ v. P (gl v)) w" by (rule pc_keeps [OF assms(2,4)])
  ultimately show ?thesis unfolding perm.meets_def by (rule wp_conseq [OF wp_conj]) auto
qed

lemma listener_identities:
  "pc (caller_server_listener_init d) (\<lambda>(rc, d) v. identities_ok (gl v)) w"
  unfolding caller_server_listener_init_def listener_fail_def Let_def
  by (rule pc_comb, rule pc_conseq [OF configure_caller_identities], rule pc_keeps [where P = identities_ok])
    ((intro keeps_rules keeps_io TrueI), simp, simp split: prod.split)

lemma listener_meets:
  assumes "fresh (trace w)" and "who (gl w) = k"
  shows "perm.meets c uid gid (caller_server_listener_init d)
     (\<lambda>_ v. fresh (trace v) \<and> who (gl v) = k \<and> identities_ok (gl v)) w"
proof -
  have s: "emits harmless (safe_chdir path stat_root_ok_validator)" for path
    by (intro harmless_fns)
  have l: "emits harmless (load_caller_config n)" for n
    unfolding load_caller_config_def fread_caller_config_def
    by (intro inv_intros harmless_fns) (simp_all add: harmless_def)
  have "emits harmless configure_caller"
    unfolding configure_caller_def load_user_configs_def check_users_def check_user_def
    by (intro inv_intros s l; simp add: harmless_def)
  then have "emits harmless (caller_server_listener_init d)"
    unfolding caller_server_listener_init_def listener_fail_def
    by (intro inv_intros harmless_fns; simp add: harmless_def)
  from before_jobs [OF this steady_listener assms] show ?thesis
    unfolding perm.meets_def by (rule wp_conseq [OF wp_conj [OF _ listener_identities]]) auto
qed

lemma init_caller_meets:
  assumes "fresh (trace w)"
  shows "perm.meets c uid gid (init_caller_data u g) (\<lambda>_ v. fresh (trace v) \<and> who (gl v) = (sv (gl w), u, g)) w"
  unfolding init_caller_data_def
  apply (rule perm.put, rule before_jobs)
     apply (intro inv_intros; simp add: harmless_def)
    apply (intro steady_rules; simp add: Monad_Logic.stable_def who_def)
   apply (use assms in \<open>simp_all add: who_def\<close>)
  done

lemma permitted_session:
  assumes "fresh (trace w)" and "who (gl w) = (c, uid, gid)" and "identities_ok (gl w)"
  shows "perm.safe c uid gid (caller_server d) w"
proof -
  let ?k = "idents (gl w)"
  have "session_idents c uid gid (fst ?k)"
    using assms(2,3) by (auto simp: session_idents_def identities_ok_def idents_def who_def Let_def)
  moreover have "sess.safe (fst ?k) (caller_server d) w"
    by (rule caller_server_meets) (use assms in simp)
  ultimately show ?thesis
    unfolding perm.safe_def sess.safe_def execs_permitted_def by blast
qed

text \<open>
  C1: from the moment the daemon has forked a session server for a user, no process of the session
  executes a program unless it has irrevocably become one of at most two users, which have
  different uids and different gids, both within the configured range and none of them the
  user's own; this covers every configuration file, client and reply of the kernel.
\<close>

theorem session_server_permitted:
  "execs_permitted (sv g) (s_uid a) (s_gid a) (trace (snd (run_caller_server d conn a (start g [] rs))))"
proof -
  let ?c = "sv g" and ?u = "s_uid a" and ?g = "s_gid a"
  have close: "perm.meets ?c ?u ?g (seq (close_fd fd) n) Q w" if "fresh (trace w)" "sv (gl w) = ?c"
      "\<And>v. fresh (trace v) \<Longrightarrow> sv (gl v) = ?c \<Longrightarrow> perm.meets ?c ?u ?g n Q v" for fd and n :: "'x m" and Q w
    by (rule perm.after_seq [OF before_jobs [OF harmless_fds(3) keeps_io(5) [where P = "\<lambda>g. sv g = ?c"] that(1,2)]])
      (rule that(3); simp)
  let ?I = "\<lambda>v. fresh (trace v) \<and> who (gl v) = (?c, ?u, ?g) \<and> identities_ok (gl v)"
  have kept: "perm.meets ?c ?u ?g m (\<lambda>_. ?I) w" if "?I w" "emits harmless m" "\<And>P. runs (keeps P) m" for m :: "'y m" and w
    by (rule before_jobs [OF that(2,3), where P = "\<lambda>g. who g = (?c, ?u, ?g) \<and> identities_ok g"]) (use that(1) in auto)
  have title: "perm.meets ?c ?u ?g (setproctitle s) (\<lambda>_ v. fresh (trace v) \<and> who (gl v) = (?c, ?u, ?g)) w"
    if "fresh (trace w) \<and> who (gl w) = (?c, ?u, ?g)" for s and w :: world
    by (rule before_jobs [where P = "\<lambda>g. who g = (?c, ?u, ?g)"]) (use that in \<open>intro inv_intros | intro keeps_rules | simp\<close>)+
  have "perm.safe ?c ?u ?g (run_caller_server d conn a) (start g [] rs)"
    unfolding run_caller_server_def
    apply (rule close, simp add: start_def, simp add: start_def)
    apply (rule close, assumption, assumption)
    apply (rule close, assumption, assumption)
    apply (rule close, assumption, assumption)
    apply (rule perm.put)
    apply (rule perm.after_seq [OF init_caller_meets], simp)
    apply (rule perm.after_seq [OF title], simp)
    apply (rule perm.after [OF listener_meets [where k = "(?c, ?u, ?g)"]], simp, simp)
    apply (rule perm.branch_prod, rule perm.branch)
     apply (rule perm.after [OF before_jobs [OF harmless_io(11) keeps_io(7) [where P = "\<lambda>_. True"]]], simp, simp)
     apply (rule perm.dies, assumption)
    apply (rule perm.after_seq [OF kept], simp, intro inv_intros, intro keeps_rules)
    apply (rule perm.after [OF kept], assumption, rule harmless_io, rule keeps_io)
    apply (rule perm.after_seq [OF kept], assumption, rule harmless_fds, rule keeps_io)
    apply (rule permitted_session, simp_all)
    done
  then show ?thesis by (simp add: perm.safe_def)
qed

end
