(* ===== verification/Isolation.thy ===== *)
theory Isolation
  imports Chrootuid
begin

text \<open>
  A job's isolation: what it mounts is mounted in a namespace of its own, and its program finds
  the namespaces that the configuration of its user asks for.
\<close>

subsection \<open>Isolation as a property of the trace\<close>

text \<open>
  A namespace that the user wants to share (a positive flag) is left alone. Otherwise the
  process has left it, unless isolation is only preferred (a negative flag) and the kernel
  does not support it.
\<close>

definition unsupported :: "reply \<Rightarrow> bool" where
  "unsupported r \<longleftrightarrow> r_errno r = ENOSYS \<or> r_errno r = EINVAL \<or> r_errno r = EPERM"

definition unshared :: "u32 \<Rightarrow> int \<Rightarrow> trace \<Rightarrow> bool" where
  "unshared ty share t \<longleftrightarrow>
     0 < share \<or> list_ex (\<lambda>(c, r). c = Pr (Unshare ty) \<and> (0 \<le> r_ret r \<or> share < 0 \<and> unsupported r)) t"

definition own_mounts :: "trace \<Rightarrow> bool" where
  "own_mounts t \<longleftrightarrow> did (Pr (Unshare CLONE_NEWNS)) t"

definition isolated :: "held_data \<Rightarrow> trace \<Rightarrow> bool" where
  "isolated h t \<longleftrightarrow> (case h of (_, ipc, uts, net, _) \<Rightarrow>
     own_mounts t \<and> unshared CLONE_NEWIPC ipc t \<and> unshared CLONE_NEWUTS uts t \<and> unshared CLONE_NEWNET net t)"

fun iso_ok :: "held_data \<Rightarrow> trace \<Rightarrow> bool" where
  "iso_ok h [] = True"
| "iso_ok h ((c, r) # t) =
     (iso_ok h t \<and>
      (case c of
         Fs f \<Rightarrow> (case f of Mount _ _ _ _ _ \<Rightarrow> own_mounts t | Chroot _ \<Rightarrow> own_mounts t | _ \<Rightarrow> True)
       | Pr p \<Rightarrow> (case p of Execve _ _ _ \<Rightarrow> isolated h t | _ \<Rightarrow> True)
       | _ \<Rightarrow> True))"

text \<open>What has been left stays left.\<close>

definition later :: "world \<Rightarrow> world \<Rightarrow> bool" where
  "later w v \<longleftrightarrow> (\<exists>new. trace v = new @ trace w)"

lemma left_later:
  "later w v \<Longrightarrow> unshared ty s (trace w) \<Longrightarrow> unshared ty s (trace v)"
  "later w v \<Longrightarrow> own_mounts (trace w) \<Longrightarrow> own_mounts (trace v)"
  "later w v \<Longrightarrow> isolated h (trace w) \<Longrightarrow> isolated h (trace v)"
  by (auto simp: later_def unshared_def own_mounts_def isolated_def)

lemma left_cons:
  "unshared ty s t \<Longrightarrow> unshared ty s (x # t)" "own_mounts t \<Longrightarrow> own_mounts (x # t)"
  "isolated h t \<Longrightarrow> isolated h (x # t)"
  by (cases x; auto simp: unshared_def own_mounts_def isolated_def)+

lemma later_trans: "later u v \<Longrightarrow> later v w \<Longrightarrow> later u w"
  by (auto simp: later_def)

interpretation iso: trace_safety "iso_ok h" for h
  by unfold_locales simp

interpretation mnt: trace_safety "\<lambda>t. iso_ok h t \<and> own_mounts t" for h
  by unfold_locales (simp add: left_cons)

interpretation run: trace_safety "\<lambda>t. iso_ok h t \<and> isolated h t" for h
  by unfold_locales (simp add: left_cons)

lemma placid_iso: "placid c \<Longrightarrow> iso_ok h t \<Longrightarrow> iso_ok h ((c, r) # t)"
  by (auto simp: placid_def pre_drop_def split: call.splits proc_call.splits fs_call.splits)

subsection \<open>Parts that change nothing of this\<close>

text \<open>On the way to the program: the trace is fine and the configuration is the one of the start.\<close>

abbreviation on_way :: "held_data \<Rightarrow> world \<Rightarrow> bool" where
  "on_way h w \<equiv> iso_ok h (trace w) \<and> held (gl w) = h"

definition calm :: "'a m \<Rightarrow> bool" where
  "calm m \<longleftrightarrow> emits placid m \<and> (\<forall>k. runs (keeps_held k) m)"

lemma calm_meets:
  assumes "on_way h w" and "calm m"
  shows "iso.meets h m (\<lambda>_ v. held (gl v) = h \<and> later w v) w"
proof -
  have "runs (keeps_held h) m" using assms(2) unfolding calm_def by blast
  then have "pc m (\<lambda>_ v. held (gl v) = h) w" by (rule pc_keeps) (simp_all add: assms(1))
  moreover have "iso.meets h m (\<lambda>_ v. later w v) w"
  proof (rule iso.class_meets)
    show "iso_ok h (trace w)" using assms(1) ..
    show "emits placid m" using assms(2) by (simp add: calm_def)
    show "iso_ok h ((c, r) # t)" if "placid c" "iso_ok h t" for c r t using that by (rule placid_iso)
  qed (auto simp: later_def)
  ultimately show ?thesis
    unfolding iso.meets_def by (rule wp_conseq [OF wp_conj]) auto
qed

lemma calm_bnd:
  assumes "on_way h w" and "calm m" and "\<And>x v. on_way h v \<Longrightarrow> later w v \<Longrightarrow> iso.meets h (f x) Q v"
  shows "iso.meets h (bnd m f) Q w"
  by (rule iso.after [OF calm_meets [OF assms(1,2)]]) (use assms(3) in blast)

lemma calm_seq:
  assumes "on_way h w" and "calm m" and "\<And>v. on_way h v \<Longrightarrow> later w v \<Longrightarrow> iso.meets h n Q v"
  shows "iso.meets h (seq m n) Q w"
  unfolding seq_def by (rule calm_bnd [OF assms(1,2)]) (rule assms(3))

text \<open>The same, with something that has been achieved before.\<close>

definition lasting :: "(trace \<Rightarrow> bool) \<Rightarrow> bool" where
  "lasting P \<longleftrightarrow> (\<forall>x t. P t \<longrightarrow> P (x # t))"

lemma lasting_later:
  assumes "lasting P" and "later w v" and "P (trace w)"
  shows "P (trace v)"
proof -
  have "P (new @ trace w)" for new
    by (induction new) (use assms(1,3) in \<open>auto simp: lasting_def\<close>)
  then show ?thesis using assms(2) by (auto simp: later_def)
qed

lemma keep_bnd:
  assumes "lasting P" and "P (trace w)" and "on_way h w" and "calm m"
    and "\<And>x v. on_way h v \<Longrightarrow> P (trace v) \<Longrightarrow> iso.meets h (f x) Q v"
  shows "iso.meets h (bnd m f) Q w"
  by (rule calm_bnd [OF assms(3,4)]) (use assms(5) lasting_later [OF assms(1)] assms(2) in blast)

lemma keep_seq:
  assumes "lasting P" and "P (trace w)" and "on_way h w" and "calm m"
    and "\<And>v. on_way h v \<Longrightarrow> P (trace v) \<Longrightarrow> iso.meets h n Q v"
  shows "iso.meets h (seq m n) Q w"
  unfolding seq_def by (rule keep_bnd [OF assms(1-4)]) (rule assms(5))

lemma keep_after:
  fixes m :: "unit m"
  assumes "lasting P" and "P (trace w)" and "iso.meets h m (\<lambda>_ v. held (gl v) = h \<and> later w v \<and> R v) w"
    and "\<And>v. on_way h v \<Longrightarrow> P (trace v) \<Longrightarrow> R v \<Longrightarrow> iso.meets h n Q v"
  shows "iso.meets h (seq m n) Q w"
  by (rule iso.after_seq [OF assms(3)]) (use assms(4) lasting_later [OF assms(1)] assms(2) in blast)

lemma calm_harmless: "emits harmless m \<Longrightarrow> (\<And>k. runs (keeps_held k) m) \<Longrightarrow> calm m"
  by (simp add: calm_def placid_harmless)

lemma calm_steps:
  "calm m \<Longrightarrow> (\<And>x. calm (f x)) \<Longrightarrow> calm (bnd m f)" "calm m1 \<Longrightarrow> calm m2 \<Longrightarrow> calm (seq m1 m2)"
  "calm (ret x)" "calm (getg h)" "placid (Fs a) \<Longrightarrow> calm (sys_fs a)" "placid (Pr p) \<Longrightarrow> calm (sys_pr p)" "placid (Mi i) \<Longrightarrow> calm (sys_mi i)"
  "(b \<Longrightarrow> calm m3) \<Longrightarrow> (\<not> b \<Longrightarrow> calm m4) \<Longrightarrow> calm (if b then m3 else m4)"
  "calm (error_msg s)" "calm (perror_msg s)" "calm die" "calm (error_msg_and_die s)" "calm (perror_msg_and_die s)"
  "(\<And>g. held (k g) = held g) \<Longrightarrow> calm (modg k)"
  unfolding calm_def
  by (auto intro!: em.rules kp.rules simp: or_log_def Monad_Logic.stable_def)

lemma placid_set_rlimits: "emits placid set_rlimits"
  by (rule placid_fns)

lemma calm_parts:
  "calm spawn_killuid" "calm (target_groups user_name gid)" "calm (setup_ns pid uid)" "calm sanitize_fds"
  "calm make_pipes" "calm make_ctl" "calm (open_pty chrooted verbose)" "calm (second_pty pty)" "calm set_rlimits"
  "calm cloexec_fds" "calm (block_signal_handler sg bl)" "calm (xclose_to fd)" "calm (close_chain fds)"
  "calm (fchdiruid fd stat_caller_ok_validator)"
proof -
  have t: "runs (keeps_held k) (target_groups user_name gid)" "runs (keeps_held k) make_pipes"
    "runs (keeps_held k) make_ctl" "runs (keeps_held k) (second_pty pty)" "runs (keeps_held k) set_rlimits" for k
    unfolding target_groups_def make_pipes_def make_ctl_def second_pty_def set_rlimits_def set_rlimit_def
    by (intro cl_rules cl_fns)+
  have chain: "emits placid (close_chain fds)"
    by (induction fds) (auto intro!: inv_intros placid_parts)
  have ok: "runs (keeps_held k) (fchdiruid fd stat_caller_ok_validator)" for k by (intro cl_fns)
  have harm: "emits harmless (fchdiruid fd stat_caller_ok_validator)"
    by (intro harmless_safe_chdir harmless_chdir)
  show "calm spawn_killuid" "calm (target_groups user_name gid)" "calm (setup_ns pid uid)"
    "calm make_pipes" "calm make_ctl" "calm (second_pty pty)" "calm set_rlimits"
    by (simp_all add: calm_def t cl_fns placid_fns)
  show "calm (close_chain fds)" by (simp add: calm_def chain cl_chain)
  show "calm sanitize_fds" "calm cloexec_fds" "calm (open_pty chrooted verbose)" "calm (block_signal_handler sg bl)"
    "calm (xclose_to fd)" "calm (fchdiruid fd stat_caller_ok_validator)"
    by (intro calm_harmless harmless_fns cl_fns harm ok)+
qed

subsection \<open>The namespaces that are left\<close>

lemma do_unshare_left:
  assumes "iso_ok h (trace w)"
  shows "iso.meets h (do_unshare ty name share)
     (\<lambda>_ v. unshared ty share (trace v) \<and> (share = 0 \<longrightarrow> did (Pr (Unshare ty)) (trace v)) \<and> gl v = gl w \<and> later w v) w"
  using assms unfolding do_unshare_def iso.meets_def
  by (auto simp: wp_simps logged_trace unshared_def unsupported_def later_def split: list.split)

lemma unshare_left:
  assumes "on_way h w"
  shows "iso.meets h unshare_mount (\<lambda>_ v. held (gl v) = h \<and> later w v \<and> own_mounts (trace v)) w"
    and "iso.meets h unshare_ipc (\<lambda>_ v. held (gl v) = h \<and> later w v \<and> unshared CLONE_NEWIPC (fst (snd h)) (trace v)) w"
    and "iso.meets h unshare_uts (\<lambda>_ v. held (gl v) = h \<and> later w v \<and> unshared CLONE_NEWUTS (fst (snd (snd h))) (trace v)) w"
    and "iso.meets h unshare_network (\<lambda>_ v. held (gl v) = h \<and> later w v \<and> unshared CLONE_NEWNET (fst (snd (snd (snd h)))) (trace v)) w"
proof -
  have h: "held (gl w) = h" "share_ipc (cf (gl w)) = fst (snd h)" "share_uts (cf (gl w)) = fst (snd (snd h))"
    "share_network (cf (gl w)) = fst (snd (snd (snd h)))"
    using assms by (auto simp: held_def)
  have after: "iso.meets h k Q v" if "calm k" "on_way h v" "\<And>u. later v u \<Longrightarrow> held (gl u) = h \<Longrightarrow> Q () u" for k :: "unit m" and Q v
    by (rule iso.meets_conseq [OF calm_meets [OF that(2,1)]]) (use that(3) in auto)
  show "iso.meets h unshare_mount (\<lambda>_ v. held (gl v) = h \<and> later w v \<and> own_mounts (trace v)) w"
    unfolding unshare_mount_def
    by (rule iso.after [OF do_unshare_left], simp add: assms, rule iso.returns_safe)
      (auto simp: own_mounts_def assms)
  show "iso.meets h unshare_ipc (\<lambda>_ v. held (gl v) = h \<and> later w v \<and> unshared CLONE_NEWIPC (fst (snd h)) (trace v)) w"
    unfolding unshare_ipc_def
    by (rule iso.get, rule iso.after [OF do_unshare_left], simp add: assms, rule iso.returns_safe)
      (auto simp: h assms)
  have name: "calm (bnd (sys_mi (Sethostname s)) (\<lambda>r. if r_ret r < 0 then perror_msg_and_die m else ret ()))" for s m
    by (intro calm_steps) (simp add: placid_def pre_drop_def)
  have net: "calm setup_network"
  proof -
    have "emits placid setup_network"
      unfolding setup_network_def by (intro inv_intros placid_parts; simp add: placid_def pre_drop_def)
    moreover have "runs (keeps_held k) setup_network" for k
      unfolding setup_network_def by (intro cl_rules cl_fns)
    ultimately show ?thesis by (simp add: calm_def)
  qed
  show "iso.meets h unshare_uts (\<lambda>_ v. held (gl v) = h \<and> later w v \<and> unshared CLONE_NEWUTS (fst (snd (snd h))) (trace v)) w"
    unfolding unshare_uts_def
    apply (rule iso.get, rule iso.after [OF do_unshare_left], simp add: assms)
    apply (rule iso.branch, rule iso.returns_safe)
      apply (simp_all add: h)
    apply (rule after [OF name])
     apply (auto simp: h intro: left_later later_trans)
    done
  show "iso.meets h unshare_network (\<lambda>_ v. held (gl v) = h \<and> later w v \<and> unshared CLONE_NEWNET (fst (snd (snd (snd h)))) (trace v)) w"
    unfolding unshare_network_def
    apply (rule iso.get, rule iso.after [OF do_unshare_left], simp add: assms)
    apply (rule iso.branch, rule iso.returns_safe)
      apply (simp_all add: h)
    apply (rule after [OF net])
     apply (auto simp: h intro: left_later later_trans)
    done
qed

subsection \<open>The job\<close>

lemma chroot_dir_isolated:
  assumes "on_way h w"
  shows "iso.meets h setup_chroot_dir (\<lambda>_ v. held (gl v) = h \<and> later w v \<and> own_mounts (trace v)) w"
proof -
  have go: "calm (bnd (getg chroot_fd) (\<lambda>fd. fchdiruid fd stat_caller_ok_validator))"
    and close: "calm (bnd (getg chroot_fd) (\<lambda>fd. bnd (xclose_to fd) (\<lambda>fd'. modg (chroot_fd_update (\<lambda>_. fd')))))"
    by (intro calm_steps calm_parts; simp add: held_def)+
  have mounts: "iso.meets h setup_mountpoints (\<lambda>_ v. held (gl v) = h \<and> later u v \<and> own_mounts (trace v)) u"
    if "on_way h u" "own_mounts (trace u)" for u
  proof -
    have "mnt.meets h setup_mountpoints (\<lambda>_ v. later u v) u"
    proof (rule mnt.class_meets)
      show "emits (\<lambda>c. \<exists>k. setup_call k c) setup_mountpoints" by (rule setup_mountpoints_class) blast
      show "iso_ok h ((c, r) # t) \<and> own_mounts ((c, r) # t)"
        if "\<exists>k. setup_call k c" "iso_ok h t \<and> own_mounts t" for c r t
        using that by (auto simp: setup_call_def harmless_def left_cons split: call.splits proc_call.splits fs_call.splits)
    qed (use that in \<open>auto simp: later_def\<close>)
    moreover have "pc setup_mountpoints (\<lambda>_ v. held (gl v) = h) u"
      by (rule pc_keeps [OF cl_mount]) (use that in simp_all)
    ultimately show ?thesis
      unfolding iso.meets_def mnt.meets_def by (rule wp_conseq [OF wp_conj]) auto
  qed
  show ?thesis
    unfolding setup_chroot_dir_def
    apply (rule calm_seq [OF assms go])
    apply (rule iso.after_seq [OF unshare_left(1)], assumption)
    apply (rule iso.step_family, assumption)
    apply (rule iso.put)
    apply (rule iso.branch, rule iso.dies, simp)
    apply (rule iso.after_seq [OF mounts])
      apply (simp add: held_def)
     apply (simp add: left_cons)
    apply (rule calm_seq [OF _ go], simp)
    apply (rule iso.meets_conseq [OF calm_meets [OF _ close]], simp)
    apply (auto simp: later_def own_mounts_def)
    done
qed

text \<open>What the preparation leaves to the child: the network namespace, if the parent uses the caller's.\<close>

definition prepared :: "held_data \<Rightarrow> trace \<Rightarrow> bool" where
  "prepared h t \<longleftrightarrow> (case h of (_, ipc, uts, net, share) \<Rightarrow>
     own_mounts t \<and> unshared CLONE_NEWIPC ipc t \<and> unshared CLONE_NEWUTS uts t
     \<and> (\<not> share \<longrightarrow> unshared CLONE_NEWNET net t))"

lemma prepared_iff:
  "prepared h t \<longleftrightarrow> own_mounts t \<and> unshared CLONE_NEWIPC (fst (snd h)) t
     \<and> unshared CLONE_NEWUTS (fst (snd (snd h))) t
     \<and> (\<not> snd (snd (snd (snd h))) \<longrightarrow> unshared CLONE_NEWNET (fst (snd (snd (snd h)))) t)"
  by (simp add: prepared_def split: prod.split)

lemma setup_isolated:
  assumes "on_way h w"
  shows "iso.meets h (chrootuid_setup gid user_name) (\<lambda>_ v. held (gl v) = h \<and> prepared h (trace v)) w"
proof -
  let ?ipc = "\<lambda>t. own_mounts t \<and> unshared CLONE_NEWIPC (fst (snd h)) t"
  have last: "lasting own_mounts" "lasting ?ipc"
    "lasting (\<lambda>t. ?ipc t \<and> unshared CLONE_NEWUTS (fst (snd (snd h))) t)" "lasting (prepared h)"
    by (auto simp: lasting_def prepared_iff intro: left_cons)
  have ns: "calm (bnd (getg cl) (\<lambda>c. setup_ns (caller_pid c) (caller_uid c)))"
    by (intro calm_steps calm_parts)
  have net: "iso.meets h (bnd (getg (share_caller_network \<circ> x11)) (\<lambda>share. only_if (\<not> share) unshare_network))
      (\<lambda>_ v. held (gl v) = h \<and> later u v
         \<and> (\<not> snd (snd (snd (snd h))) \<longrightarrow> unshared CLONE_NEWNET (fst (snd (snd (snd h)))) (trace v))) u"
    if "on_way h u" for u
    unfolding only_if_def
    apply (rule iso.get, rule iso.branch)
     apply (rule iso.meets_conseq [OF unshare_left(4) [OF that]], simp)
    apply (rule iso.returns_safe)
    using that apply (auto simp: held_def later_def)
    done
  show ?thesis
    unfolding chrootuid_setup_def
    apply (rule calm_seq [OF assms calm_parts(1)])
    apply (rule calm_bnd [OF _ calm_parts(2)], assumption)
    apply (rule iso.step_family, simp)
    apply (rule iso.branch, rule iso.dies, simp)
    apply (rule calm_seq [OF _ ns], simp)
    apply (rule iso.after_seq [OF chroot_dir_isolated], assumption)
    apply (rule keep_seq [OF last(1) _ _ calm_parts(4)], simp, simp)
    apply (rule keep_bnd [OF last(1) _ _ calm_parts(5)], assumption, assumption, rule iso.branch_prod)
    apply (rule keep_bnd [OF last(1) _ _ calm_parts(6)], assumption, assumption)
    apply (rule keep_after [OF last(1) _ unshare_left(2)], assumption, assumption)
    apply (rule keep_after [OF last(2) _ unshare_left(3)], rule conjI, assumption, assumption, assumption)
    apply (rule keep_after [OF last(3) _ net], blast, assumption)
    apply (rule keep_bnd [OF last(4) _ _ calm_parts(7)])
       apply (simp add: prepared_iff, assumption)
    apply (rule iso.step_family, simp)
    apply (rule iso.branch, rule iso.dies, simp add: prepared_iff)
    apply (rule keep_bnd [OF last(4) _ _ calm_parts(8)])
       apply (simp add: prepared_iff left_cons)
      apply (simp add: prepared_iff)
    apply (rule iso.branch, rule iso.dies, simp)
    apply (rule keep_seq [OF last(4) _ _ calm_parts(9)], assumption, assumption)
    apply (rule keep_seq [OF last(4) _ _ calm_parts(10)], assumption, assumption)
    apply (rule keep_seq [OF last(4) _ _ calm_parts(11)], assumption, assumption)
    apply (rule iso.returns_safe, simp_all)
    done
qed

subsection \<open>The child and the parent\<close>

lemma child_run:
  "harmless c \<or> child_call c \<Longrightarrow> iso_ok h t \<and> isolated h t \<Longrightarrow> iso_ok h ((c, r) # t) \<and> isolated h ((c, r) # t)"
  by (auto simp: child_call_def harmless_def left_cons split: call.splits proc_call.splits fs_call.splits)

lemma child_isolated:
  assumes "on_way h w" and "prepared h (trace w)"
  shows "iso.safe h (chrootuid_child uid gid persona argv ehome euser epath d) w"
proof -
  have persona: "emits child_call (set_persona persona)"
    unfolding set_persona_def by (intro inv_intros) (simp_all add: child_call_def harmless_def)
  let ?exec = "\<lambda>c. handle_child argv (child_env c ehome euser epath) (snd (master_slave d))
      (snd (pipe_out_fds d)) (snd (pipe_err_fds d)) (snd (ctl_fds d))"
  have exec: "iso.safe h (seq (set_persona persona) (bnd (getg cf) ?exec)) v"
    if "iso_ok h (trace v)" "isolated h (trace v)" for v
  proof -
    have "emits child_call (seq (set_persona persona) (bnd (getg cf) ?exec))"
      by (intro inv_intros persona child_handle)
    then have "run.safe h (seq (set_persona persona) (bnd (getg cf) ?exec)) v"
      by (rule run.last_part [rotated]) (use that child_run in blast)+
    then show ?thesis unfolding run.meets_def iso.meets_def by (rule wp_conseq) auto
  qed
  have net: "iso.meets h (bnd (getg (share_caller_network \<circ> x11)) (\<lambda>share. only_if share unshare_network))
      (\<lambda>_ v. isolated h (trace v)) u"
    if "on_way h u" "prepared h (trace u)" for u
    unfolding only_if_def
    apply (rule iso.get, rule iso.branch)
     apply (rule iso.meets_conseq [OF unshare_left(4) [OF that(1)]])
    using that(2) apply (auto simp: prepared_def isolated_def later_def own_mounts_def unshared_def split: prod.splits) [1]
    apply (rule iso.returns_safe)
    using that apply (auto simp: held_def prepared_def isolated_def)
    done
  show ?thesis
    unfolding chrootuid_child_def drop_dumpable_def become_def
    apply (rule iso.get)
    apply (rule calm_bnd [OF assms(1) calm_parts(13)])
    apply (rule iso.branch, rule iso.dies, simp)
    apply (rule iso.after_seq [OF net], assumption)
    subgoal using assms(2) by (auto simp: prepared_def later_def own_mounts_def unshared_def split: prod.splits)
    apply (simp only: monad_norm seq_ret)
    apply (intro iso.step_family iso.branch iso.dies exec)
    apply (auto simp: left_cons)
    done
qed

lemma parent_isolated:
  assumes "iso_ok h (trace w)"
  shows "iso.safe h (chrootuid_parent pid d) w"
proof (rule iso.last_part [OF assms])
  let ?C = "\<lambda>c. placid c \<or> (\<exists>u. c = Pr (Setuid u))"
  have chain: "emits ?C (close_chain fds)" for fds
    by (rule emits_mono [of placid]) (use calm_parts(13) in \<open>simp_all add: calm_def\<close>)
  have serve: "emits ?C (handle_parent p a b e x)" for p a b e x
    by (rule emits_mono [OF placid_harmless [OF harmless_parent]]) simp
  show "emits ?C (chrootuid_parent pid d)"
    unfolding chrootuid_parent_def drop_dumpable_def become_def
    by (intro inv_intros chain serve) (simp_all add: placid_def pre_drop_def)
  show "iso_ok h ((c, r) # t)" if "placid c \<or> (\<exists>u. c = Pr (Setuid u))" "iso_ok h t" for c r t
    using that(1)
  proof
    assume "placid c"
    then show ?thesis using that(2) by (rule placid_iso)
  qed (use that(2) in auto)
qed

lemma job_isolated_run:
  assumes "on_way h w"
  shows "iso.safe h (chrootuid uid gid persona user_name argv ehome euser epath) w"
  unfolding chrootuid_def
  apply (rule iso.after [OF setup_isolated [OF assms]])
  apply (rule iso.step_family, simp)
  apply (intro iso.branch iso.dies parent_isolated child_isolated)
      apply (auto simp: prepared_iff left_cons)
  done

text \<open>
  C10: running a program in a chroot, whatever the kernel answers: mounts and the change of the
  root are made only after the process has got a mount namespace of its own, and a program (the
  job's or \<open>xauth\<close>) is executed only by a process that has, besides, left the IPC, the UTS and
  the network namespace, each unless the user's configuration shares it or only prefers
  isolation (which is the default) and the kernel reported that it does not support it.
\<close>

theorem chrootuid_isolated:
  "iso_ok (held g) (trace (snd (chrootuid uid gid persona user_name argv ehome euser epath (start g [] rs))))"
  using job_isolated_run [of "held g" "start g [] rs" uid gid persona user_name argv ehome euser epath]
  by (simp add: iso.safe_def start_def)

end
