(* ===== verification/Client.thy ===== *)
theory Client
  imports Caller_Server
begin

text \<open>
  The client program: its command line (cmdline.c) and the requests it sends to the daemon and to
  its session server (hasher-priv.c).
\<close>

subsection \<open>The command line (cmdline.c)\<close>

definition show_usage :: "string \<Rightarrow> 'a m" where
  "show_usage fmt = seq (emit (Mi (Dprintf 2 fmt))) (c_exit 1)"

definition print_help :: "'a m" where
  "print_help = seq (emit (Mi (Printf ''Usage: %s [options] <args>''))) (c_exit 0)"

definition print_version :: "'a m" where
  "print_version = seq (emit (Mi (Printf ''hasher-priv version %s''))) (c_exit 0)"

definition get_caller_num :: "string \<Rightarrow> u32 m" where
  "get_caller_num str =
     (if str = [] then show_usage ''-%s: invalid option''
      else case strtoul 10 str of (n, rest, _) \<Rightarrow>
        if rest \<noteq> [] \<or> int_max < int n then show_usage ''-%s: invalid option'' else ret (word_of_nat n))"

definition open_directory :: "string \<Rightarrow> int m" where
  "open_directory path =
     bnd (sys_fs (Open path [O_RDONLY, O_DIRECTORY] 0)) (\<lambda>r.
     if r_ret r < 0 then perror_msg_and_die ''%s'' else ret (r_ret r))"

text \<open>The type of the job and \<open>job_args\<close>.\<close>

definition parse_command :: "string list \<Rightarrow> (u32 \<times> string list option) m" where
  "parse_command av =
     (let plain = (\<lambda>job. if length av \<noteq> 1 then show_usage ''%s: invalid usage'' else ret (job, None));
          chroot = (\<lambda>job. if length av < 3 then show_usage ''%s: invalid usage''
                     else bnd (open_directory (av ! 1)) (\<lambda>fd.
                          seq (modg (chroot_fd_update (\<lambda>_. fd))) (ret (job, Some (drop 2 av))))) in
      if av = [] then show_usage ''insufficient arguments''
      else if hd av = ''getconf'' then plain JOB_GETCONF
      else if hd av = ''killuid'' then plain JOB_KILLUID
      else if hd av = ''getugid1'' then plain JOB_GETUGID1
      else if hd av = ''chrootuid1'' then chroot JOB_CHROOTUID1
      else if hd av = ''getugid2'' then plain JOB_GETUGID2
      else if hd av = ''chrootuid2'' then chroot JOB_CHROOTUID2
      else show_usage ''%s: invalid argument'')"

definition parse_cmdline :: "string list \<Rightarrow> (u32 \<times> string list option) m" where
  "parse_cmdline argv =
     (case argv of
        prog # av0 # rest \<Rightarrow>
          if av0 \<noteq> [] \<and> hd av0 = CHR ''-'' then
            (if av0 = ''-h'' \<or> av0 = ''--help'' then print_help
             else if av0 = ''--version'' then print_version
             else bnd (get_caller_num (tl av0)) (\<lambda>n.
                  seq (modg (cl_update (caller_num_update (\<lambda>_. n)))) (parse_command rest)))
          else parse_command (av0 # rest)
      | _ \<Rightarrow> show_usage ''insufficient arguments'')"

subsection \<open>Requests (hasher-priv.c)\<close>

definition recv_response :: "int \<Rightarrow> string \<Rightarrow> int m" where
  "recv_response conn name =
     bnd (xrecvmsg conn 8) (\<lambda>o_rs.
     case o_rs of
       None \<Rightarrow> error_msg_and_die ''failed to receive header in response to %s''
     | Some bytes \<Rightarrow>
         let rs = resp_of bytes in
         seq (only_if (resp_len rs \<noteq> 0)
                (bnd (xrecvmsg conn (unat (resp_len rs))) (\<lambda>o_data.
                 case o_data of
                   None \<Rightarrow> error_msg_and_die ''failed to receive data in response to %s''
                 | Some data \<Rightarrow> only_if (c_string data \<noteq> []) (error_msg ''%s: %s''))))
        (if resp_rc rs = CMD_STATUS_FAILED then error_msg_and_die ''failed'' else ret (resp_rc rs)))"

definition send_header :: "int \<Rightarrow> u32 \<Rightarrow> u32 \<Rightarrow> string \<Rightarrow> unit m" where
  "send_header conn type len err =
     bnd (xsendmsg conn (header_bytes \<lparr>hdr_type = type, hdr_len = len\<rparr>)) (\<lambda>rc.
     if rc < 0 then error_msg_and_die err else ret ())"

definition request_session :: "string \<Rightarrow> string \<Rightarrow> u32 \<Rightarrow> unit m" where
  "request_session dir_name file_name num =
     bnd (srv_connect dir_name file_name) (\<lambda>conn.
     seq (send_header conn CMD_OPEN_SESSION num ''failed to send header'')
    (bnd (recv_response conn ''session request'') (\<lambda>_.
     bnd (xclose conn) (\<lambda>(rc, _). if rc \<noteq> 0 then perror_msg_and_die ''close'' else ret ()))))"

definition connect_to_session :: "int m" where
  "connect_to_session =
     bnd (sys_pr Geteuid) (\<lambda>r.
     bnd (getg (caller_num \<circ> cl)) (\<lambda>num.
     bnd (xsprintf UNIX_PATH_MAX (session_name (word_of_int (r_ret r)) num)) (\<lambda>name.
     bnd (srv_try_connect SOCKETDIR name) (\<lambda>fd.
     if 0 \<le> fd then ret fd
     else seq (request_session SOCKETDIR ''daemon'' num) (srv_connect SOCKETDIR name)))))"

definition send_type :: "int \<Rightarrow> u32 \<Rightarrow> unit m" where
  "send_type conn type =
     seq (send_header conn CMD_JOB_TYPE type ''failed to send header'')
         (bnd (recv_response conn ''job type'') (\<lambda>_. ret ()))"

definition send_personality :: "int \<Rightarrow> unit m" where
  "send_personality conn =
     bnd (sys_pr (Personality (- 1))) (\<lambda>r.
     if r_ret r < 0 then perror_msg ''personality''
     else seq (send_header conn CMD_JOB_PERSONALITY (word_of_int (r_ret r)) ''failed to send header'')
              (bnd (recv_response conn ''personality'') (\<lambda>_. ret ())))"

definition send_fds :: "int \<Rightarrow> u32 \<Rightarrow> string \<Rightarrow> int list \<Rightarrow> unit m" where
  "send_fds conn cmd name fds =
     seq (send_header conn cmd (4 * word_of_nat (length fds)) ''%s: failed to send header'')
    (seq (fd_send conn fds [])
         (bnd (recv_response conn name) (\<lambda>_. ret ())))"

definition strings_size :: "string list \<Rightarrow> nat" where
  "strings_size strs = sum_list (map (\<lambda>s. length s + 1) strs)"

definition send_strings :: "int \<Rightarrow> u32 \<Rightarrow> string \<Rightarrow> string list \<Rightarrow> unit m" where
  "send_strings conn cmd name strs =
     (let sz = word_of_nat (strings_size strs) :: u64; len = ucast sz :: u32 in
      if ucast len \<noteq> sz then error_msg_and_die ''%s: too big to send''
      else seq (send_header conn cmd len ''%s: error sending header'')
          (seq (for_each strs (\<lambda>s.
                  bnd (xsendmsg conn (s @ [nul])) (\<lambda>rc.
                  if rc < 0 then error_msg_and_die ''%s: error sending data'' else ret ())))
               (bnd (recv_response conn name) (\<lambda>_. ret ()))))"

definition send_run :: "int \<Rightarrow> int m" where
  "send_run conn =
     seq (send_header conn CMD_JOB_RUN 0 ''failed to send header'') (recv_response conn ''run'')"

text \<open>The requests on the connection to the session server, once there is one.\<close>

definition send_request :: "int \<Rightarrow> u32 \<Rightarrow> string list option \<Rightarrow> string list \<Rightarrow> int m" where
  "send_request conn job args ev =
     seq (send_type conn job)
    (seq (send_fds conn CMD_JOB_FDS ''stdio'' [0, 1, 2])
    (seq (case args of None \<Rightarrow> ret () | Some a \<Rightarrow> send_strings conn CMD_JOB_ARGUMENTS ''arguments'' a)
    (seq (only_if (job = JOB_CHROOTUID1 \<or> job = JOB_CHROOTUID2)
            (seq (send_strings conn CMD_JOB_ENVIRON ''environment'' ev)
            (seq (bnd (getg chroot_fd) (\<lambda>fd. send_fds conn CMD_JOB_CHROOT_FD ''chroot descriptor'' [fd]))
                 (send_personality conn))))
         (send_run conn))))"

definition client_main :: "string list \<Rightarrow> string list \<Rightarrow> int m" where
  "client_main av ev =
     seq sanitize_fds
    (bnd (parse_cmdline av) (\<lambda>(job, args).
     bnd connect_to_session (\<lambda>conn. send_request conn job args ev)))"

subsection \<open>Strings survive the wire\<close>

lemma c_strings_concat:
  "list_all (\<lambda>s. nul \<notin> set s) strs \<Longrightarrow> c_strings (concat (map (\<lambda>s. s @ [nul]) strs)) = strs"
proof (induction strs)
  case Nil
  then show ?case by (simp add: c_strings.simps)
next
  case (Cons s strs)
  have "takeWhile (\<lambda>c. c \<noteq> nul) (s @ nul # rest) = s" for rest
    using Cons.prems by (auto simp: takeWhile_append1 intro!: takeWhile_not_mem_append)
  with Cons show ?case by (subst c_strings.simps) simp
qed

subsection \<open>The command line asks for jobs that the server takes\<close>

lemma usage_returns [returns_rules]: "returns (show_usage f) Q" "returns print_help Q" "returns print_version Q"
  unfolding show_usage_def print_help_def print_version_def by (intro returns_rules)+

definition request_fits :: "u32 \<times> string list option \<Rightarrow> bool" where
  "request_fits req \<longleftrightarrow> (case req of
       (job, None) \<Rightarrow> job \<in> {JOB_GETCONF, JOB_KILLUID, JOB_GETUGID1, JOB_GETUGID2}
     | (job, Some args) \<Rightarrow> job \<in> {JOB_CHROOTUID1, JOB_CHROOTUID2} \<and> args_fit job (Some args))"

lemma parse_command_returns: "returns (parse_command av) request_fits"
proof -
  have fit: "args_fit JOB_CHROOTUID1 (Some (drop 2 av))" "args_fit JOB_CHROOTUID2 (Some (drop 2 av))"
    if "\<not> length av < 3" for av :: "string list"
    using that by (auto simp: args_fit_def arguments_of_def job_defs)
  show ?thesis
    unfolding parse_command_def Let_def
    by (intro returns_rules) (simp_all add: request_fits_def fit)
qed


end
