(* ===== verification/Protocol.thy ===== *)
theory Protocol
  imports Client
begin

text \<open>
  The client and the request handler together: what the client sends is what the handler
  receives. A conversation is the list of the requests, each a header with the data or the
  descriptors that follow it.
\<close>

subsection \<open>Conversations\<close>

datatype payload = Nothing | Strings "string list" | Descriptors "int list"

definition strings_len :: "string list \<Rightarrow> u32" where
  "strings_len strs = word_of_nat (strings_size strs)"

definition conversation ::
    "u32 \<Rightarrow> string list option \<Rightarrow> string list \<Rightarrow> int \<Rightarrow> u32 option \<Rightarrow> (cmd_header \<times> payload) list" where
  "conversation job args env root persona =
     [(\<lparr>hdr_type = CMD_JOB_TYPE, hdr_len = job\<rparr>, Nothing),
      (\<lparr>hdr_type = CMD_JOB_FDS, hdr_len = 12\<rparr>, Descriptors [0, 1, 2])]
     @ (case args of None \<Rightarrow> []
        | Some a \<Rightarrow> [(\<lparr>hdr_type = CMD_JOB_ARGUMENTS, hdr_len = strings_len a\<rparr>, Strings a)])
     @ (if job = JOB_CHROOTUID1 \<or> job = JOB_CHROOTUID2
        then [(\<lparr>hdr_type = CMD_JOB_ENVIRON, hdr_len = strings_len env\<rparr>, Strings env),
              (\<lparr>hdr_type = CMD_JOB_CHROOT_FD, hdr_len = 4\<rparr>, Descriptors [root])]
           @ (case persona of None \<Rightarrow> []
              | Some p \<Rightarrow> [(\<lparr>hdr_type = CMD_JOB_PERSONALITY, hdr_len = p\<rparr>, Nothing)])
        else [])
     @ [(\<lparr>hdr_type = CMD_JOB_RUN, hdr_len = 0\<rparr>, Nothing)]"

text \<open>The messages that a request is sent as: bytes and descriptors.\<close>

fun wire :: "cmd_header \<times> payload \<Rightarrow> (string \<times> int list) list" where
  "wire (hdr, Nothing) = [(header_bytes hdr, [])]"
| "wire (hdr, Strings strs) = (header_bytes hdr, []) # map (\<lambda>s. (s @ [nul], [])) strs"
| "wire (hdr, Descriptors fds) = [(header_bytes hdr, []), ([nul], fds)]"

text \<open>
  What the kernel answers to the receiver when it delivers a request: a message each for the
  header, for the bytes of the strings and for the descriptors, to which it gives new numbers;
  memory for the strings; the acknowledgement is sent.
\<close>

fun deliver :: "(int \<Rightarrow> int) \<Rightarrow> cmd_header \<times> payload \<Rightarrow> reply list" where
  "deliver num (hdr, Nothing) = [(rep 8)\<lparr>r_buf := header_bytes hdr\<rparr>]"
| "deliver num (hdr, Strings strs) =
     (let bytes = concat (map fst (tl (wire (hdr, Strings strs)))) in
      [(rep 8)\<lparr>r_buf := header_bytes hdr\<rparr>, rep 1]
      @ (if bytes = [] then [] else [(rep (int (length bytes)))\<lparr>r_buf := bytes\<rparr>]) @ [rep 1])"
| "deliver num (hdr, Descriptors fds) =
     [(rep 8)\<lparr>r_buf := header_bytes hdr\<rparr>,
      (rep 1)\<lparr>r_cmsgs := [\<lparr>cm_socket = True, cm_rights = True, cm_fds = map num fds\<rparr>]\<rparr>]"

definition delivered :: "(int \<Rightarrow> int) \<Rightarrow> (cmd_header \<times> payload) list \<Rightarrow> reply list" where
  "delivered num reqs = concat (map (\<lambda>req. deliver num req @ (if hdr_type (fst req) = CMD_JOB_RUN then [] else [rep 8])) reqs)"

subsection \<open>The handler's side\<close>

lemma gives_retry: "r_ret r \<noteq> -1 \<Longrightarrow> gives (temp_failure_retry c) g (r # rs) r g rs"
  by (simp add: gives_def temp_failure_retry_def start_def answer_def)

lemma gives_xrecvmsg: "length s = n \<Longrightarrow> gives (xrecvmsg fd n) g ((rep (int n))\<lparr>r_buf := s\<rparr> # rs) (Some s) g rs"
  unfolding xrecvmsg_def recvmsg_retry_def by (rule gives_bnd [OF gives_retry]) (simp_all add: rep_def gives_ret)

lemma gives_acknowledge: "gives (acknowledge conn j) g (rep 8 # rs) (Inl j) g rs"
  unfolding acknowledge_def send_response_to_client_def sendmsg_retry_def
  by (simp add: gives_def temp_failure_retry_def start_def answer_def run_defs rep_def)

lemma gives_command:
  assumes "job_mask j AND hdr_type hdr = 0"
    and "gives (receive_fields conn (j\<lparr>job_mask := job_mask j OR hdr_type hdr\<rparr>) hdr) g rs x g rs'"
  shows "gives (receive_command conn j) g ((rep 8)\<lparr>r_buf := header_bytes hdr\<rparr> # rs) x g rs'"
  unfolding receive_command_def
proof (rule gives_bnd)
  show "gives (xrecvmsg conn 8) g ((rep 8)\<lparr>r_buf := header_bytes hdr\<rparr> # rs) (Some (header_bytes hdr)) g rs"
    using gives_xrecvmsg [of "header_bytes hdr" 8] by simp
qed (use assms in \<open>simp add: Let_def header_roundtrip\<close>)

lemma strings_len_nat: "strings_size strs \<le> 0x20000 \<Longrightarrow> unat (strings_len strs) = strings_size strs"
  by (simp add: strings_len_def unat_of_nat)

lemma strings_bytes: "length (concat (map (\<lambda>s. s @ [nul]) strs)) = strings_size strs"
  by (induction strs) (simp_all add: strings_size_def)

lemma strings_size_pos: "strs \<noteq> [] \<Longrightarrow> 0 < strings_size strs"
  by (cases strs) (simp_all add: strings_size_def)

lemma gives_strings:
  assumes "list_all (\<lambda>s. nul \<notin> set s) strs" and "strings_size strs \<le> 0x20000"
  shows "gives (recv_strings_from_client conn (strings_len strs)) g
    (tl (deliver num (hdr, Strings strs)) @ rs) (Some strs) g rs"
proof -
  let ?bytes = "concat (map (\<lambda>s. s @ [nul]) strs)"
  have len: "unat (strings_len strs) = strings_size strs" by (rule strings_len_nat [OF assms(2)])
  have small: "\<not> MAX_ARGS_SIZE < strings_len strs"
    using assms(2) by (simp add: MAX_ARGS_SIZE_def word_less_nat_alt len)
  have bytes: "tl (deliver num (hdr, Strings strs)) =
      rep 1 # (if strs = [] then [] else [(rep (int (strings_size strs)))\<lparr>r_buf := ?bytes\<rparr>]) @ [rep 1]"
    using strings_bytes [of strs] strings_size_pos [of strs] by (auto simp: Let_def comp_def)
  have data: "gives (if 0 < strings_len strs then xrecvmsg conn (unat (strings_len strs)) else ret (Some [])) g
      ((if strs = [] then [] else [(rep (int (strings_size strs)))\<lparr>r_buf := ?bytes\<rparr>]) @ rs) (Some ?bytes) g rs" for rs
  proof (cases "strs = []")
    case True
    then show ?thesis by (simp add: strings_len_def strings_size_def gives_ret)
  next
    case False
    then have "0 < strings_len strs" using strings_size_pos by (simp add: word_less_nat_alt len)
    with False show ?thesis using gives_xrecvmsg [OF strings_bytes, where fd = conn and g = g and rs = rs] by (simp add: len)
  qed
  show ?thesis
    unfolding recv_strings_from_client_def bytes sys_mi_def
    apply (simp only: small if_False append.simps append_assoc)
    apply (rule gives_bnd [OF gives_sys])
    apply (simp only: rep_def reply.select_convs, simp only: if_False zero_neq_one [symmetric])
    apply (rule gives_bnd [OF data [unfolded rep_def]])
    apply (simp add: Let_def)
    apply (rule gives_bnd [OF gives_sys])
    using c_strings_concat [OF assms(1)] apply (simp add: gives_ret)
    done
qed

lemma gives_fd_recv:
  "length fds = n \<Longrightarrow>
   gives (fd_recv conn n 0) g ((rep 1)\<lparr>r_cmsgs := [\<lparr>cm_socket = True, cm_rights = True, cm_fds = fds\<rparr>]\<rparr> # rs) (0, fds, []) g rs"
  unfolding fd_recv_def recvmsg_retry_def Let_def by (rule gives_bnd [OF gives_retry]) (simp_all add: rep_def gives_ret)

text \<open>One request of each type.\<close>

abbreviation masked :: "job \<Rightarrow> u32 \<Rightarrow> job" where
  "masked j ty \<equiv> j\<lparr>job_mask := job_mask j OR ty\<rparr>"

lemma gives_type:
  "job_mask j AND CMD_JOB_TYPE = 0 \<Longrightarrow>
   gives (receive_command conn j) g (deliver num (\<lparr>hdr_type = CMD_JOB_TYPE, hdr_len = len\<rparr>, Nothing) @ rep 8 # rs)
     (Inl ((masked j CMD_JOB_TYPE)\<lparr>job_type := len\<rparr>)) g rs"
  by (simp, rule gives_command) (simp_all add: receive_fields_def gives_acknowledge)

lemma gives_personality:
  "job_mask j AND CMD_JOB_PERSONALITY = 0 \<Longrightarrow>
   gives (receive_command conn j) g (deliver num (\<lparr>hdr_type = CMD_JOB_PERSONALITY, hdr_len = len\<rparr>, Nothing) @ rep 8 # rs)
     (Inl ((masked j CMD_JOB_PERSONALITY)\<lparr>job_persona := len\<rparr>)) g rs"
  by (simp, rule gives_command) (simp_all add: receive_fields_def gives_acknowledge, simp add: cmd_defs Let_def gives_acknowledge)

lemma gives_std_fds:
  "job_mask j AND CMD_JOB_FDS = 0 \<Longrightarrow>
   gives (receive_command conn j) g
     (deliver num (\<lparr>hdr_type = CMD_JOB_FDS, hdr_len = 12\<rparr>, Descriptors [a, b, c]) @ rep 8 # rs)
     (Inl ((masked j CMD_JOB_FDS)\<lparr>job_std_fds := [num a, num b, num c]\<rparr>)) g rs"
  by (simp, rule gives_command, simp, simp add: receive_fields_def Let_def cmd_defs)
    (rule gives_bnd [OF gives_fd_recv], simp, simp add: gives_acknowledge)

lemma gives_chroot_fd:
  "job_mask j AND CMD_JOB_CHROOT_FD = 0 \<Longrightarrow>
   gives (receive_command conn j) g
     (deliver num (\<lparr>hdr_type = CMD_JOB_CHROOT_FD, hdr_len = 4\<rparr>, Descriptors [a]) @ rep 8 # rs)
     (Inl ((masked j CMD_JOB_CHROOT_FD)\<lparr>job_chroot_fd := num a\<rparr>)) g rs"
  by (simp, rule gives_command, simp, simp add: receive_fields_def Let_def cmd_defs)
    (rule gives_bnd [OF gives_fd_recv], simp, simp add: gives_acknowledge)

lemma gives_environ:
  assumes "list_all (\<lambda>s. nul \<notin> set s) strs" and "strings_size strs \<le> 0x20000" and "job_mask j AND CMD_JOB_ENVIRON = 0"
  shows "gives (receive_command conn j) g
     (deliver num (\<lparr>hdr_type = CMD_JOB_ENVIRON, hdr_len = strings_len strs\<rparr>, Strings strs) @ rep 8 # rs)
     (Inl ((masked j CMD_JOB_ENVIRON)\<lparr>job_env := Some strs\<rparr>)) g rs"
proof -
  let ?hdr = "\<lparr>hdr_type = CMD_JOB_ENVIRON, hdr_len = strings_len strs\<rparr>"
  have split: "deliver num (?hdr, Strings strs) = (rep 8)\<lparr>r_buf := header_bytes ?hdr\<rparr> # tl (deliver num (?hdr, Strings strs))"
    by (simp add: Let_def)
  show ?thesis
    apply (subst split, simp only: append_Cons, rule gives_command)
     apply (simp add: assms(3))
    apply (simp add: receive_fields_def Let_def cmd_defs del: deliver.simps)
    apply (rule gives_bnd [OF gives_strings [OF assms(1,2)]])
    apply (simp add: gives_acknowledge)
    done
qed

lemma gives_arguments:
  assumes "list_all (\<lambda>s. nul \<notin> set s) strs" and "strings_size strs \<le> 0x20000" and "job_mask j AND CMD_JOB_ARGUMENTS = 0"
    and "args_fit (job_type j) (Some strs)"
  shows "gives (receive_command conn j) g
     (deliver num (\<lparr>hdr_type = CMD_JOB_ARGUMENTS, hdr_len = strings_len strs\<rparr>, Strings strs) @ rep 8 # rs)
     (Inl ((masked j CMD_JOB_ARGUMENTS)\<lparr>job_argv := Some strs\<rparr>)) g rs"
proof -
  let ?hdr = "\<lparr>hdr_type = CMD_JOB_ARGUMENTS, hdr_len = strings_len strs\<rparr>"
  have split: "deliver num (?hdr, Strings strs) = (rep 8)\<lparr>r_buf := header_bytes ?hdr\<rparr> # tl (deliver num (?hdr, Strings strs))"
    by (simp add: Let_def)
  have valid: "gives (validate_arguments (job_type j) (Some strs)) g rs 0 g rs" for rs
    using assms(4) by (auto simp: validate_arguments_def args_fit_def Let_def gives_ret split: option.splits)
  show ?thesis
    apply (subst split, simp only: append_Cons, rule gives_command)
     apply (simp add: assms(3))
    apply (simp add: receive_fields_def Let_def cmd_defs del: deliver.simps)
    apply (rule gives_bnd [OF gives_strings [OF assms(1,2)]])
    apply simp
    apply (rule gives_bnd [OF valid])
    apply (simp add: gives_acknowledge)
    done
qed

lemma gives_run:
  assumes "job_mask j AND CMD_JOB_RUN = 0" and "is_job_spawning j \<longrightarrow> bit (job_mask j) 5 \<and> bit (job_mask j) 3"
  shows "gives (receive_command conn j) g (deliver num (\<lparr>hdr_type = CMD_JOB_RUN, hdr_len = 0\<rparr>, Nothing) @ rs)
     (Inr (masked j CMD_JOB_RUN)) g rs"
proof -
  have valid: "gives (validate_job (masked j CMD_JOB_RUN)) g rs 0 g rs" for rs
    using assms(2) by (auto simp: validate_job_def and_cmd is_job_spawning_def gives_ret bit_or_iff)
  show ?thesis
    apply (simp, rule gives_command)
     apply (simp add: assms(1))
    apply (simp add: receive_fields_def Let_def)
    apply (simp add: cmd_defs)
    apply (rule gives_bnd [OF valid [unfolded cmd_defs, simplified]])
    apply (simp add: gives_ret cmd_defs)
    done
qed

lemma gives_loop:
  "gives (body s) g rs (Inl s') g rs' \<Longrightarrow> gives (loop n body s') g rs' x g rs'' \<Longrightarrow> gives (loop (Suc n) body s) g rs x g rs''"
  unfolding loop.simps by (rule gives_bnd, assumption, simp)

lemma gives_loop_end: "gives (body s) g rs (Inr x) g rs' \<Longrightarrow> gives (loop (Suc n) body s) g rs x g rs'"
  unfolding loop.simps by (rule gives_bnd, assumption, simp add: gives_ret)

lemmas gives_rounds =
  gives_loop [OF gives_type] gives_loop [OF gives_std_fds] gives_loop [OF gives_arguments]
  gives_loop [OF gives_environ] gives_loop [OF gives_chroot_fd] gives_loop [OF gives_personality] gives_loop_end [OF gives_run]

lemma not_run: "CMD_JOB_TYPE \<noteq> CMD_JOB_RUN" "CMD_JOB_FDS \<noteq> CMD_JOB_RUN" "CMD_JOB_ARGUMENTS \<noteq> CMD_JOB_RUN"
    "CMD_JOB_ENVIRON \<noteq> CMD_JOB_RUN" "CMD_JOB_CHROOT_FD \<noteq> CMD_JOB_RUN" "CMD_JOB_PERSONALITY \<noteq> CMD_JOB_RUN"
  by (simp_all add: cmd_defs)

lemmas stream_norm = not_run if_False if_True option.case append.simps concat.simps list.map fst_conv
  cmd_header.select_convs append_assoc HOL.simp_thms

lemma nine_rounds: "receive_commands conn j =
    loop (Suc (Suc (Suc (Suc (Suc (Suc (Suc (Suc (Suc 0))))))))) (receive_command conn) j"
  by (simp add: receive_commands_def eval_nat_numeral del: loop.simps)

text \<open>The job that a conversation describes.\<close>

definition received :: "(int \<Rightarrow> int) \<Rightarrow> u32 \<Rightarrow> string list option \<Rightarrow> string list \<Rightarrow> int \<Rightarrow> u32 option \<Rightarrow> u32 \<Rightarrow> job" where
  "received num job args env root persona bits =
     (let chroot = (args \<noteq> None) in
      \<lparr>job_type = job, job_mask = bits,
       job_persona = (case persona of Some p \<Rightarrow> if chroot then p else - 1 | None \<Rightarrow> - 1),
       job_chroot_fd = (if chroot then num root else -1), job_std_fds = [num 0, num 1, num 2],
       job_pipe_fds = [-1, -1], job_argv = args, job_env = (if chroot then Some env else None)\<rparr>)"

lemma gives_result: "gives m g rs x g' rs' \<Longrightarrow> x = y \<Longrightarrow> gives m g rs y g' rs'"
  by simp

lemma gives_plain:
  assumes "job \<noteq> JOB_CHROOTUID1" and "job \<noteq> JOB_CHROOTUID2"
  shows "gives (receive_commands conn job_init) g (delivered num (conversation job None env root persona) @ [])
    (received num job None env root persona 0x86) g []"
  unfolding nine_rounds delivered_def conversation_def
  apply (simp only: assms stream_norm, rule gives_result)
   apply (rule gives_rounds(1), simp add: job_init_def)
   apply (rule gives_rounds(2), simp add: job_init_def cmd_defs)
   apply (rule gives_rounds(7), simp_all add: job_init_def cmd_defs is_job_spawning_def assms)
  apply (simp add: received_def split: option.split)
  done

lemma gives_chroot:
  assumes "job = JOB_CHROOTUID1 \<or> job = JOB_CHROOTUID2" and "args_fit job (Some a)"
    and "list_all (\<lambda>s. nul \<notin> set s) a" and "strings_size a \<le> 0x20000"
    and "list_all (\<lambda>s. nul \<notin> set s) env" and "strings_size env \<le> 0x20000"
  shows "gives (receive_commands conn job_init) g (delivered num (conversation job (Some a) env root persona) @ [])
    (received num job (Some a) env root persona (if persona = None then 0xBE else 0xFE)) g []"
proof (cases persona)
  case None
  show ?thesis
    unfolding nine_rounds delivered_def conversation_def None
    apply (simp only: assms(1) stream_norm, rule gives_result)
     apply (rule gives_rounds(1), simp add: job_init_def)
     apply (rule gives_rounds(2), simp add: job_init_def cmd_defs)
     apply (rule gives_rounds(3) [OF assms(3,4)], simp add: job_init_def cmd_defs, simp add: assms(2))
     apply (rule gives_rounds(4) [OF assms(5,6)], simp add: job_init_def cmd_defs)
     apply (rule gives_rounds(5), simp add: job_init_def cmd_defs)
     apply (rule gives_rounds(7), simp_all add: job_init_def cmd_defs bit_simps)
    apply (simp add: received_def)
    done
next
  case (Some p)
  show ?thesis
    unfolding nine_rounds delivered_def conversation_def Some
    apply (simp only: assms(1) stream_norm, rule gives_result)
     apply (rule gives_rounds(1), simp add: job_init_def)
     apply (rule gives_rounds(2), simp add: job_init_def cmd_defs)
     apply (rule gives_rounds(3) [OF assms(3,4)], simp add: job_init_def cmd_defs, simp add: assms(2))
     apply (rule gives_rounds(4) [OF assms(5,6)], simp add: job_init_def cmd_defs)
     apply (rule gives_rounds(5), simp add: job_init_def cmd_defs)
     apply (rule gives_rounds(6), simp add: job_init_def cmd_defs)
     apply (rule gives_rounds(7), simp_all add: job_init_def cmd_defs bit_simps)
    apply (simp add: received_def)
    done
qed

text \<open>
  C6: the handler understands the client: when the kernel delivers the requests of a client that has
  parsed its command line, whatever numbers it gives the descriptors, the handler receives the
  same job: its type, its arguments and environment string by string, its standard descriptors,
  root directory and personality, in at most eight rounds.
\<close>

theorem handler_understands_client:
  assumes "request_fits (job, args)"
    and "case args of None \<Rightarrow> True | Some a \<Rightarrow> list_all (\<lambda>s. nul \<notin> set s) (a @ env)
           \<and> strings_size a \<le> 0x20000 \<and> strings_size env \<le> 0x20000"
  shows "\<exists>bits. fst (receive_commands conn job_init (start g [] (delivered num (conversation job args env root persona))))
     = Ret (received num job args env root persona bits)"
proof (cases args)
  case None
  with assms(1) have "job \<noteq> JOB_CHROOTUID1" "job \<noteq> JOB_CHROOTUID2"
    by (auto simp: request_fits_def job_defs)
  from gives_plain [OF this, of conn g num env root persona] None show ?thesis
    by (auto simp: gives_def) (metis fst_conv)
next
  case (Some a)
  with assms have "job = JOB_CHROOTUID1 \<or> job = JOB_CHROOTUID2" "args_fit job (Some a)"
    "list_all (\<lambda>s. nul \<notin> set s) a" "strings_size a \<le> 0x20000"
    "list_all (\<lambda>s. nul \<notin> set s) env" "strings_size env \<le> 0x20000"
    by (auto simp: request_fits_def)
  from gives_chroot [OF this, of conn g num root persona] Some show ?thesis
    by (auto simp: gives_def) (metis fst_conv)+
qed

lemma handler_understands_client_witness:
  "\<exists>bits. fst (receive_commands 9 job_init (start globals_init []
      (delivered (\<lambda>fd. fd + 10) (conversation JOB_CHROOTUID1 (Some [''/bin/sh'', ''-c'', ''id'']) [''TERM=vt100'', []] 3 (Some 0)))))
     = Ret (received (\<lambda>fd. fd + 10) JOB_CHROOTUID1 (Some [''/bin/sh'', ''-c'', ''id'']) [''TERM=vt100'', []] 3 (Some 0) bits)"
  by (rule handler_understands_client)
    (simp_all add: request_fits_def args_fit_def arguments_of_def job_defs strings_size_def)

subsection \<open>The client's side\<close>

text \<open>The messages that have been sent, each of them in full.\<close>

fun sends :: "trace \<Rightarrow> (string \<times> int list) list" where
  "sends [] = []"
| "sends ((c, r) # t) = sends t @
     (case c of
        Fd f \<Rightarrow> (case f of Sendmsg _ bytes fds \<Rightarrow> if r_ret r = int (length bytes) then [(bytes, fds)] else [] | _ \<Rightarrow> [])
      | _ \<Rightarrow> [])"

text \<open>\<open>says k m ms\<close>: a client with the root directory \<open>k\<close> sends \<open>ms\<close> with \<open>m\<close> if it goes on after it.\<close>

definition says :: "int \<Rightarrow> 'a m \<Rightarrow> (string \<times> int list) list \<Rightarrow> bool" where
  "says k m ms \<longleftrightarrow> (\<forall>w. chroot_fd (gl w) = k \<longrightarrow>
     pc m (\<lambda>_ v. sends (trace v) = sends (trace w) @ ms \<and> chroot_fd (gl v) = k) w)"

lemma says_bnd:
  assumes "says k m a" and "\<And>x. says k (f x) b"
  shows "says k (bnd m f) (a @ b)"
  unfolding says_def
proof (intro allI impI pc_comb(1))
  fix w :: world assume w: "chroot_fd (gl w) = k"
  show "pc m (\<lambda>x. pc (f x) (\<lambda>_ v. sends (trace v) = sends (trace w) @ a @ b \<and> chroot_fd (gl v) = k)) w"
  proof (rule pc_conseq)
    show "pc m (\<lambda>_ v. sends (trace v) = sends (trace w) @ a \<and> chroot_fd (gl v) = k) w"
      using assms(1) w unfolding says_def by blast
    show "pc (f x) (\<lambda>_ u. sends (trace u) = sends (trace w) @ a @ b \<and> chroot_fd (gl u) = k) v"
      if "sends (trace v) = sends (trace w) @ a \<and> chroot_fd (gl v) = k" for x v
      using assms(2) [of x] that unfolding says_def by (auto elim!: allE [of _ v] pc_conseq)
  qed
qed

lemma says_stop: "noreturn m \<Longrightarrow> says k m ms"
  unfolding says_def by (blast intro: pc_noreturn)

definition no_send :: "call \<Rightarrow> bool" where
  "no_send c \<longleftrightarrow> (case c of Fd f \<Rightarrow> (case f of Sendmsg _ _ _ \<Rightarrow> False | _ \<Rightarrow> True) | _ \<Rightarrow> True)"

lemma sends_append: "list_all (\<lambda>(c, r). no_send c) new \<Longrightarrow> sends (new @ t) = sends t"
  by (induction new) (auto simp: no_send_def split: call.splits fd_call.splits)

lemma says_nothing:
  assumes "emits no_send m" and "runs (keeps (\<lambda>g. chroot_fd g = k)) m"
  shows "says k m []"
proof -
  have l: "or_log no_send c \<Longrightarrow> no_send c" for c by (auto simp: or_log_def no_send_def)
  have "sends (trace v) = sends (trace w)" if "m w = (x, v)" for x v w
    using emits_trace [OF assms(1) that] l sends_append by (metis (mono_tags, lifting) case_prodI2 list_all_iff)
  then have "pc m (\<lambda>_ v. sends (trace v) = sends (trace w)) w" for w
    by (intro wpI) auto
  moreover have "pc m (\<lambda>_ v. chroot_fd (gl v) = k) w" if "chroot_fd (gl w) = k" for w
    using assms(2) that by (rule pc_keeps)
  ultimately show ?thesis unfolding says_def by (auto intro: wp_conseq [OF wp_conj])
qed

lemma sends_retried: "\<forall>f \<in> set fails. interrupted f \<Longrightarrow> sends (map (Pair c) fails @ t) = sends t"
  by (induction fails) (auto simp: interrupted_def split: call.splits fd_call.splits)

lemma sendmsg_says:
  assumes "chroot_fd (gl w) = k"
  shows "pc (sendmsg_retry fd bytes fds) (\<lambda>r v. chroot_fd (gl v) = k
    \<and> (r_ret r = int (length bytes) \<longrightarrow> sends (trace v) = sends (trace w) @ [(bytes, fds)])) w"
  unfolding sendmsg_retry_def by (rule wp_retry) (use assms in \<open>simp_all add: sends_retried\<close>)

lemma header_says: "says k (send_header conn ty len err) [(header_bytes \<lparr>hdr_type = ty, hdr_len = len\<rparr>, [])]"
  unfolding says_def send_header_def xsendmsg_def Let_def
  by (intro allI impI, rule pc_comb, rule pc_comb, rule pc_conseq [OF sendmsg_says], assumption)
    (intro pc_rules; auto)

lemma says_seq: "says k m a \<Longrightarrow> says k n b \<Longrightarrow> says k (seq m n) (a @ b)"
  unfolding seq_def by (rule says_bnd)

lemma says_ret: "says k (ret x) []"
  unfolding says_def by (auto intro!: pc_comb)

lemma response_says: "says k (bnd (recv_response conn name) (\<lambda>_. ret ())) []" "says k (recv_response conn name) []"
proof -
  show r: "says k (recv_response conn name) []"
  proof (rule says_nothing)
    show "emits no_send (recv_response conn name)"
      unfolding recv_response_def xrecvmsg_def recvmsg_retry_def by (intro inv_intros; simp add: no_send_def)
    show "runs (keeps (\<lambda>g. chroot_fd g = k)) (recv_response conn name)"
      unfolding recv_response_def xrecvmsg_def recvmsg_retry_def by (intro keeps_rules TrueI)
  qed
  show "says k (bnd (recv_response conn name) (\<lambda>_. ret ())) []"
    using says_bnd [OF r says_ret] by simp
qed

lemma fd_send_says: "says k (fd_send conn fds []) [([nul], fds)]"
  unfolding says_def fd_send_def Let_def
  by (intro allI impI, rule pc_comb, rule pc_conseq [OF sendmsg_says], assumption) (intro pc_rules; auto)

lemma request_says:
  "says k (send_type conn job) (wire (\<lparr>hdr_type = CMD_JOB_TYPE, hdr_len = job\<rparr>, Nothing))"
  "says k (send_fds conn cmd name fds)
     (wire (\<lparr>hdr_type = cmd, hdr_len = 4 * word_of_nat (length fds)\<rparr>, Descriptors fds))"
  "says k (send_run conn) (wire (\<lparr>hdr_type = CMD_JOB_RUN, hdr_len = 0\<rparr>, Nothing))"
  using says_seq [OF header_says response_says(1)] says_seq [OF header_says says_seq [OF fd_send_says response_says(1)]]
    says_seq [OF header_says response_says(2)]
  by (simp_all add: send_type_def send_fds_def send_run_def)

lemma strings_says:
  "says k (send_strings conn cmd name strs) (wire (\<lparr>hdr_type = cmd, hdr_len = strings_len strs\<rparr>, Strings strs))"
proof -
  have one: "says k (bnd (xsendmsg conn (s @ [nul])) (\<lambda>rc. if rc < 0 then error_msg_and_die e else ret ())) [(s @ [nul], [])]" for s e
    unfolding says_def xsendmsg_def Let_def
    by (intro allI impI, rule pc_comb, rule pc_comb, rule pc_conseq [OF sendmsg_says], assumption) (intro pc_rules; auto)
  have all: "says k (for_each strs (\<lambda>s. bnd (xsendmsg conn (s @ [nul])) (\<lambda>rc. if rc < 0 then error_msg_and_die e else ret ())))
      (map (\<lambda>s. (s @ [nul], [])) strs)" for e
  proof (induction strs)
    case (Cons s strs)
    show ?case using says_seq [OF one Cons.IH] by simp
  qed (simp add: says_ret)
  have len: "(ucast (word_of_nat n :: u64) :: u32) = word_of_nat n" for n
    by (simp add: word_unat_eq_iff unsigned_of_nat unsigned_ucast_eq take_bit_nat_eq_self_iff min_def)
  have die: "says k (error_msg_and_die e :: unit m) ms" for e ms
    by (rule says_stop) (intro returns_rules)
  show ?thesis
    unfolding send_strings_def Let_def
    using says_seq [OF header_says says_seq [OF all response_says(1)]] die
    by (auto simp: len strings_len_def)
qed

text \<open>The personality is sent if the kernel says what it is.\<close>

definition may_say :: "int \<Rightarrow> 'a m \<Rightarrow> (string \<times> int list) list set \<Rightarrow> bool" where
  "may_say k m M \<longleftrightarrow> (\<forall>w. chroot_fd (gl w) = k \<longrightarrow>
     pc m (\<lambda>_ v. (\<exists>ms \<in> M. sends (trace v) = sends (trace w) @ ms) \<and> chroot_fd (gl v) = k) w)"

lemma may_say_of: "says k m a \<Longrightarrow> a \<in> M \<Longrightarrow> may_say k m M"
  unfolding says_def may_say_def by (intro allI impI) (rule pc_conseq, blast, blast)

lemma may_say_bnd:
  assumes "may_say k m A" and "\<And>x. may_say k (f x) B"
  shows "may_say k (bnd m f) {a @ b |a b. a \<in> A \<and> b \<in> B}"
  unfolding may_say_def
proof (intro allI impI pc_comb(1))
  fix w :: world assume w: "chroot_fd (gl w) = k"
  show "pc m (\<lambda>x. pc (f x) (\<lambda>_ v. (\<exists>ms \<in> {a @ b |a b. a \<in> A \<and> b \<in> B}. sends (trace v) = sends (trace w) @ ms)
      \<and> chroot_fd (gl v) = k)) w"
  proof (rule pc_conseq)
    show "pc m (\<lambda>_ v. (\<exists>ms \<in> A. sends (trace v) = sends (trace w) @ ms) \<and> chroot_fd (gl v) = k) w"
      using assms(1) w unfolding may_say_def by blast
    show "pc (f x) (\<lambda>_ u. (\<exists>ms \<in> {a @ b |a b. a \<in> A \<and> b \<in> B}. sends (trace u) = sends (trace w) @ ms)
        \<and> chroot_fd (gl u) = k) v"
      if "(\<exists>ms \<in> A. sends (trace v) = sends (trace w) @ ms) \<and> chroot_fd (gl v) = k" for x v
      using assms(2) [of x] that unfolding may_say_def by (fastforce elim!: allE [of _ v] pc_conseq)
  qed
qed

lemma personality_says:
  "may_say k (send_personality conn)
     (range (\<lambda>persona. case persona of None \<Rightarrow> [] | Some p \<Rightarrow> wire (\<lparr>hdr_type = CMD_JOB_PERSONALITY, hdr_len = p\<rparr>, Nothing)))"
  (is "may_say k _ ?M")
proof -
  have call: "may_say k (sys_pr c) {[]}" if "no_send (Pr c)" for c
    by (rule may_say_of [where a = "[]"], rule says_nothing) (use that in \<open>intro inv_intros | intro keeps_rules TrueI | simp\<close>)+
  have none: "may_say k (perror_msg s) ?M" for s
    by (rule may_say_of [where a = "[]"], rule says_nothing) (intro inv_intros | intro keeps_rules TrueI | force intro: range_eqI [of _ _ None])+
  have some: "may_say k (seq (send_header conn CMD_JOB_PERSONALITY p err) (bnd (recv_response conn name) (\<lambda>_. ret ()))) ?M" for p err name
    by (rule may_say_of [OF says_seq [OF header_says response_says(1)]]) (auto intro: range_eqI [of _ _ "Some p"])
  have "may_say k (send_personality conn) {a @ b |a b. a \<in> {[]} \<and> b \<in> ?M}"
    unfolding send_personality_def
  proof (rule may_say_bnd [OF call])
    show "may_say k (if r_ret r < 0 then perror_msg ''personality''
        else seq (send_header conn CMD_JOB_PERSONALITY (word_of_int (r_ret r)) ''failed to send header'')
          (bnd (recv_response conn ''personality'') (\<lambda>_. ret ()))) ?M" for r
      using none some by simp
  qed (simp add: no_send_def)
  then show ?thesis by (rule back_subst [where P = "may_say k (send_personality conn)"]) auto
qed

lemma may_say_mono: "may_say k m A \<Longrightarrow> (\<And>a. a \<in> A \<Longrightarrow> a \<in> B) \<Longrightarrow> may_say k m B"
  unfolding may_say_def by (intro allI impI) (rule pc_conseq, blast, blast)

lemma may_say_fixed:
  assumes "says k m a" and "may_say k n B"
  shows "may_say k (seq m n) ((@) a ` B)"
proof -
  have "may_say k m {a}" by (rule may_say_of [OF assms(1)]) simp
  from may_say_bnd [OF this assms(2)] show ?thesis
    unfolding seq_def by (rule back_subst [where P = "may_say k (bnd m (\<lambda>_. n))"]) auto
qed

lemma may_say_end:
  assumes "may_say k m A" and "says k n b"
  shows "may_say k (seq m n) ((\<lambda>a. a @ b) ` A)"
proof -
  have "may_say k n {b}" by (rule may_say_of [OF assms(2)]) simp
  from may_say_bnd [OF assms(1) this] show ?thesis
    unfolding seq_def by (rule back_subst [where P = "may_say k (bnd m (\<lambda>_. n))"]) auto
qed

text \<open>
  C7: the client keeps to the protocol: when it gets to its end, the messages that it has sent on its
  connection to the session server are exactly those of the conversation for its job, in that
  order, with its own arguments, environment and root directory.
\<close>

theorem client_follows_protocol:
  "case send_request conn job args env (start g [] rs) of
     (Ret _, v) \<Rightarrow> \<exists>persona. sends (trace v) = concat (map wire (conversation job args env (chroot_fd g) persona))
   | (Stop _, _) \<Rightarrow> True"
proof -
  let ?k = "chroot_fd g"
  let ?P = "\<lambda>persona. case persona of None \<Rightarrow> [] | Some p \<Rightarrow> wire (\<lparr>hdr_type = CMD_JOB_PERSONALITY, hdr_len = p\<rparr>, Nothing)"
  let ?args = "case args of None \<Rightarrow> [] | Some a \<Rightarrow> wire (\<lparr>hdr_type = CMD_JOB_ARGUMENTS, hdr_len = strings_len a\<rparr>, Strings a)"
  have args: "says ?k (case args of None \<Rightarrow> ret () | Some a \<Rightarrow> send_strings conn CMD_JOB_ARGUMENTS ''arguments'' a) ?args"
    by (cases args) (simp_all add: says_ret strings_says del: wire.simps)
  have root: "says ?k (bnd (getg chroot_fd) (\<lambda>fd. send_fds conn CMD_JOB_CHROOT_FD n [fd]))
      (wire (\<lparr>hdr_type = CMD_JOB_CHROOT_FD, hdr_len = 4\<rparr>, Descriptors [?k]))" for n
  proof -
    have "says ?k (send_fds conn CMD_JOB_CHROOT_FD n [?k]) (wire (\<lparr>hdr_type = CMD_JOB_CHROOT_FD, hdr_len = 4\<rparr>, Descriptors [?k]))"
      using request_says(2) [of ?k conn CMD_JOB_CHROOT_FD n "[?k]"] by simp
    then show ?thesis unfolding says_def by (auto intro!: pc_comb)
  qed
  have fds: "says ?k (send_fds conn CMD_JOB_FDS n [0, 1, 2]) (wire (\<lparr>hdr_type = CMD_JOB_FDS, hdr_len = 12\<rparr>, Descriptors [0, 1, 2]))" for n
    using request_says(2) [of ?k conn CMD_JOB_FDS n "[0, 1, 2]"] by simp
  note chroot = may_say_fixed [OF strings_says may_say_fixed [OF root personality_says]]
  have "may_say ?k (send_request conn job args env)
      {concat (map wire (conversation job args env ?k persona)) |persona. True}"
  proof (cases "job = JOB_CHROOTUID1 \<or> job = JOB_CHROOTUID2")
    case True
    show ?thesis
      unfolding send_request_def only_if_def if_P [OF True]
    proof (rule may_say_mono [OF may_say_fixed [OF request_says(1) may_say_fixed [OF fds
          may_say_fixed [OF args may_say_end [OF chroot request_says(3)]]]]], elim imageE, hypsubst)
      show "wire (\<lparr>hdr_type = CMD_JOB_TYPE, hdr_len = job\<rparr>, Nothing)
          @ wire (\<lparr>hdr_type = CMD_JOB_FDS, hdr_len = 12\<rparr>, Descriptors [0, 1, 2]) @ ?args
          @ (wire (\<lparr>hdr_type = CMD_JOB_ENVIRON, hdr_len = strings_len env\<rparr>, Strings env)
             @ wire (\<lparr>hdr_type = CMD_JOB_CHROOT_FD, hdr_len = 4\<rparr>, Descriptors [?k]) @ ?P persona)
          @ wire (\<lparr>hdr_type = CMD_JOB_RUN, hdr_len = 0\<rparr>, Nothing)
          \<in> {concat (map wire (conversation job args env ?k persona)) |persona. True}" for persona
        using True by (intro CollectI exI [of _ persona] conjI TrueI) (cases args; cases persona; simp add: conversation_def)
    qed
  next
    case False
    have "says ?k (send_request conn job args env) (concat (map wire (conversation job args env ?k None)))"
      unfolding send_request_def only_if_def if_not_P [OF False]
      using says_seq [OF request_says(1) says_seq [OF fds says_seq [OF args says_seq [OF says_ret request_says(3)]]]] False
      by (cases args) (simp_all add: conversation_def)
    then show ?thesis by (rule may_say_of) blast
  qed
  then have "pc (send_request conn job args env) (\<lambda>_ v. \<exists>persona.
      sends (trace v) = concat (map wire (conversation job args env ?k persona))) (start g [] rs)"
    unfolding may_say_def
    by (elim allE [of _ "start g [] rs"] impE, simp add: start_def) (erule pc_conseq, auto simp: start_def)
  then show ?thesis by (rule pc_case)
qed

end
