(* ===== verification/Answers.thy ===== *)
theory Answers
  imports Protocol
begin

text \<open>
  The handler's side of the protocol: every command is answered, with one message, until the
  one that starts the job or the first one that is refused.
\<close>

subsection \<open>Answers\<close>

text \<open>The messages a process has tried to send; an attempt that was interrupted is made again.\<close>

fun answers :: "trace \<Rightarrow> string list" where
  "answers [] = []"
| "answers ((c, r) # t) = answers t @
     (case c of
        Fd f \<Rightarrow> (case f of Sendmsg _ bytes _ \<Rightarrow> if interrupted r then [] else [bytes] | _ \<Rightarrow> [])
      | _ \<Rightarrow> [])"

definition done_answer :: string where
  "done_answer = resp_bytes \<lparr>resp_rc = CMD_STATUS_DONE, resp_len = 0\<rparr>"

text \<open>A refusal: its header, alone when the reason could not be copied or the header not be sent.\<close>

definition refusals :: "string list set" where
  "refusals = {[resp_bytes \<lparr>resp_rc = CMD_STATUS_FAILED, resp_len = 0\<rparr>]}
     \<union> (\<Union>reason \<in> {''bad request'', ''command failed''}.
          let header = resp_bytes \<lparr>resp_rc = CMD_STATUS_FAILED, resp_len = word_of_nat (Suc (length reason))\<rparr>
          in {[header], [header, reason @ [nul]]})"

lemma answers_append: "answers (t @ u) = answers u @ answers t"
  by (induction t) (auto split: call.splits fd_call.splits)

lemma answers_logged [simp]: "answers (trace (logged p s w)) = answers (trace w)"
  by (simp add: logged_def)

lemma answers_retried: "\<forall>f \<in> set fails. interrupted f \<Longrightarrow> answers (map (Pair c) fails @ t) = answers t"
  by (induction fails) (auto split: call.splits fd_call.splits)

text \<open>Parts that send nothing, and that end only by returning.\<close>

definition silent :: "'a m \<Rightarrow> bool" where
  "silent m \<longleftrightarrow> (\<forall>w. wp m (\<lambda>_ v. answers (trace v) = answers (trace w)) (\<lambda>s _. s = Blocked) w)"

lemma silentD: "silent m \<Longrightarrow> wp m (\<lambda>_ v. answers (trace v) = answers (trace w)) (\<lambda>s _. s = Blocked) w"
  by (simp add: silent_def)

lemma silent_returns:
  assumes "silent m" and "returns m P"
  shows "wp m (\<lambda>x v. P x \<and> answers (trace v) = answers (trace w)) (\<lambda>s _. s = Blocked) w"
proof -
  have "pc m (\<lambda>x _. P x) w" using assms(2) by (auto intro!: wpI dest: returnsD)
  from wp_conj [OF silentD [OF assms(1)] this] show ?thesis by (rule wp_conseq) auto
qed

lemma silent_bnd: "silent m \<Longrightarrow> (\<And>x. silent (f x)) \<Longrightarrow> silent (bnd m f)"
  unfolding silent_def wp_bnd
proof
  fix w
  assume m: "\<forall>w. wp m (\<lambda>_ v. answers (trace v) = answers (trace w)) (\<lambda>s _. s = Blocked) w"
    and f: "\<And>x. \<forall>w. wp (f x) (\<lambda>_ v. answers (trace v) = answers (trace w)) (\<lambda>s _. s = Blocked) w"
  show "wp m (\<lambda>x. wp (f x) (\<lambda>_ v. answers (trace v) = answers (trace w)) (\<lambda>s _. s = Blocked)) (\<lambda>s _. s = Blocked) w"
    by (rule wp_conseq [OF m [rule_format]]) (rule wp_conseq [OF f [rule_format]], simp_all)
qed

lemma silent_steps:
  "silent (ret v)" "silent (getg h)" "silent (error_msg s)" "silent (perror_msg s)" "silent (notice_msg s)"
  "silent (sys_mi i)" "silent (sys_fs a)" "silent (sys_pr p)"
  "silent m1 \<Longrightarrow> silent m2 \<Longrightarrow> silent (seq m1 m2)"
  "(b \<Longrightarrow> silent m3) \<Longrightarrow> (\<not> b \<Longrightarrow> silent m4) \<Longrightarrow> silent (if b then m3 else m4)"
  "(x = None \<Longrightarrow> silent n1) \<Longrightarrow> (\<And>y. x = Some y \<Longrightarrow> silent (n2 y)) \<Longrightarrow> silent (case x of None \<Rightarrow> n1 | Some y \<Rightarrow> n2 y)"
  "(xs = [] \<Longrightarrow> silent n5) \<Longrightarrow> (\<And>y ys. xs = y # ys \<Longrightarrow> silent (n6 y ys)) \<Longrightarrow> silent (case xs of [] \<Rightarrow> n5 | y # ys \<Rightarrow> n6 y ys)"
  "(\<And>a b. q = (a, b) \<Longrightarrow> silent (n3 a b)) \<Longrightarrow> silent (case q of (a, b) \<Rightarrow> n3 a b)"
  "(\<And>y. y = e \<Longrightarrow> silent (n4 y)) \<Longrightarrow> silent (Let e n4)"
  by (auto simp: seq_def silent_bnd split: option.split prod.split list.split) (auto simp: silent_def wp_simps split: list.split)

lemma silent_retry: "no_send c \<Longrightarrow> silent (temp_failure_retry c)"
  unfolding silent_def
  by (intro allI wp_retry) (auto simp: answers_retried no_send_def split: call.splits fd_call.splits)

lemma silent_close: "silent (sys_fd (Close fd))"
  by (simp add: silent_def wp_simps split: list.split)

lemma silent_parts:
  "silent (xrecvmsg fd n)" "silent (fd_recv fd n k)" "silent (recv_strings_from_client conn len)"
  "silent (validate_arguments type argv)" "silent (validate_job j)" "silent (xclose_to fd)"
proof -
  show x: "silent (xrecvmsg fd n)" for fd n
    unfolding xrecvmsg_def recvmsg_retry_def by (intro silent_bnd silent_retry silent_steps) (simp add: no_send_def)
  show "silent (fd_recv fd n k)"
    unfolding fd_recv_def recvmsg_retry_def
    by (intro silent_bnd silent_retry silent_steps) (simp_all add: no_send_def)
  show "silent (recv_strings_from_client conn len)"
    unfolding recv_strings_from_client_def by (intro silent_bnd silent_steps x)
  show "silent (validate_arguments type argv)" "silent (validate_job j)"
    unfolding validate_arguments_def validate_job_def by (intro silent_bnd silent_steps)+
  show "silent (xclose_to fd)"
    unfolding xclose_to_def xclose_def by (intro silent_bnd silent_steps silent_close)
qed

lemma silent_deallocate: "silent (deallocate_job_resources j)"
proof -
  have "silent (close_all fds)" for fds
    by (induction fds) (auto intro!: silent_bnd silent_steps silent_parts)
  then show ?thesis unfolding deallocate_job_resources_def by (intro silent_bnd silent_steps silent_parts)
qed

subsection \<open>Answering\<close>

lemma response_done:
  "wp (send_response_to_client conn CMD_STATUS_DONE None)
     (\<lambda>_ v. answers (trace v) = answers (trace w) @ [done_answer]) (\<lambda>s _. s = Blocked) w"
  unfolding send_response_to_client_def sendmsg_retry_def
  by (simp add: wp_simps, rule wp_retry) (auto simp: wp_simps answers_retried done_answer_def)

lemma acknowledge_answers:
  "wp (acknowledge conn j) (\<lambda>x v. x = Inl j \<and> answers (trace v) = answers (trace w) @ [done_answer])
     (\<lambda>s _. s = Blocked) w"
  unfolding acknowledge_def wp_bnd by (rule wp_conseq [OF response_done]) (simp_all add: wp_ret)

lemma response_failed:
  assumes "reason = ''bad request'' \<or> reason = ''command failed''"
  shows "wp (send_response_to_client conn CMD_STATUS_FAILED (Some reason))
     (\<lambda>_ v. \<exists>a \<in> refusals. answers (trace v) = answers (trace w) @ a) (\<lambda>s _. s = Blocked) w"
proof -
  let ?h = "\<lambda>n. resp_bytes \<lparr>resp_rc = CMD_STATUS_FAILED, resp_len = n\<rparr>"
  let ?n = "word_of_nat (Suc (length reason)) :: u32"
  have a: "[?h 0] \<in> refusals" "[?h ?n] \<in> refusals" "[?h ?n, reason @ [nul]] \<in> refusals"
    using assms by (auto simp: refusals_def Let_def)
  have send: "wp (sendmsg_retry conn d []) (\<lambda>r v. answers (trace v) = answers (trace u) @ [d]) (\<lambda>s _. s = Blocked) u" for d u
    unfolding sendmsg_retry_def by (rule wp_retry) (auto simp: answers_retried)
  have full: "wp (sendmsg_retry conn (reason @ [nul]) [])
      (\<lambda>r v. \<exists>a \<in> refusals. answers (trace v) = answers (trace w) @ a) (\<lambda>s _. s = Blocked) u"
    if "answers (trace u) = answers (trace w) @ [?h ?n]" for u
    by (rule wp_conseq [OF send]) (use that a(3) in auto)
  have last: "wp (bnd (sendmsg_retry conn (?h (case data of None \<Rightarrow> 0 | Some d \<Rightarrow> word_of_nat (length d))) []) (\<lambda>r.
       if r_ret r < 0 then (if r_errno r = EPIPE then ret 0 else seq (perror_msg ''sendmsg'') (ret (- 1)))
       else case data of
         None \<Rightarrow> ret 0
       | Some d \<Rightarrow>
           bnd (sendmsg_retry conn d []) (\<lambda>r.
           if r_ret r < 0 \<and> r_errno r \<noteq> EPIPE then seq (perror_msg ''sendmsg'') (ret (- 1)) else ret 0)))
     (\<lambda>_ v. \<exists>a \<in> refusals. answers (trace v) = answers (trace w) @ a) (\<lambda>s _. s = Blocked) u"
    if "answers (trace u) = answers (trace w)" "data = None \<or> data = Some (reason @ [nul])" for u data
    unfolding wp_bnd
    by (rule wp_conseq [OF send])
      (use that a in \<open>auto simp: wp_simps intro!: wp_conseq [OF full] simp del: of_nat_Suc\<close>)
  have silent: "silent (if reason = [] then ret None else bnd (sys_mi (Malloc (length reason + 1))) (\<lambda>r.
      if r_ret r \<noteq> 0 then ret (Some (reason @ [nul])) else seq (perror_msg ''malloc'') (ret None)))"
    by (intro silent_bnd silent_steps)
  have given: "returns (if reason = [] then ret None else bnd (sys_mi (Malloc (length reason + 1))) (\<lambda>r.
      if r_ret r \<noteq> 0 then ret (Some (reason @ [nul])) else seq (perror_msg ''malloc'') (ret None)))
      (\<lambda>data. data = None \<or> data = Some (reason @ [nul]))"
    by (intro returns_rules) simp_all
  show ?thesis
    unfolding send_response_to_client_def option.case
    apply (rule iffD2 [OF wp_bnd])
    apply (rule wp_conseq [OF silent_returns [OF silent given]])
     apply (rule last)
      apply auto
    done
qed

lemma cancel_answers:
  assumes "reason = ''bad request'' \<or> reason = ''command failed''"
  shows "wp (cancel_job conn j reason) Q
    (\<lambda>s v. s = Blocked \<or> (\<exists>a \<in> refusals. answers (trace v) = answers (trace w) @ a)) w"
  unfolding cancel_job_def
  apply (rule iffD2 [OF wp_bnd], rule wp_conseq [OF silentD [OF silent_deallocate]])
   apply (rule iffD2 [OF wp_bnd], rule wp_conseq [OF response_failed [OF assms]])
    apply (auto simp: wp_c_exit)
  done

subsection \<open>The commands\<close>

text \<open>
  After a round: one more command has been answered, or the job may run, or the process has
  ended with a refusal (or waits).
\<close>

abbreviation answered :: "string list \<Rightarrow> job \<Rightarrow> job + job \<Rightarrow> world \<Rightarrow> bool" where
  "answered old j x v \<equiv>
     (case x of Inl j' \<Rightarrow> job_mask j' = job_mask j \<and> answers (trace v) = old @ [done_answer]
      | Inr j' \<Rightarrow> job_mask j' = job_mask j \<and> answers (trace v) = old)"

abbreviation refused :: "string list \<Rightarrow> stop \<Rightarrow> world \<Rightarrow> bool" where
  "refused old s v \<equiv> s = Blocked \<or> (\<exists>a \<in> refusals. answers (trace v) = old @ a)"

definition round_ok :: "string list \<Rightarrow> job \<Rightarrow> (job + job) m \<Rightarrow> bool" where
  "round_ok old j m \<longleftrightarrow> (\<forall>w. answers (trace w) = old \<longrightarrow> wp m (answered old j) (refused old) w)"

lemma round_bnd:
  assumes "silent m" and "\<And>x. round_ok old j (f x)"
  shows "round_ok old j (bnd m f)"
  unfolding round_ok_def
proof (intro allI impI iffD2 [OF wp_bnd])
  fix w :: world assume w: "answers (trace w) = old"
  show "wp m (\<lambda>x. wp (f x) (answered old j) (refused old)) (refused old) w"
    by (rule wp_conseq [OF silentD [OF assms(1)]]) (use assms(2) w in \<open>auto simp: round_ok_def\<close>)
qed

lemma round_ends:
  "job_mask j' = job_mask j \<Longrightarrow> round_ok old j (acknowledge conn j')"
  "round_ok old j (respond_bad_request conn j')" "round_ok old j (respond_server_error conn j')"
  "job_mask j' = job_mask j \<Longrightarrow> round_ok old j (ret (Inr j'))"
proof -
  show "round_ok old j (acknowledge conn j')" if "job_mask j' = job_mask j"
    unfolding round_ok_def
    by (intro allI impI wp_conseq [OF acknowledge_answers]) (use that in auto)
  show "round_ok old j (respond_bad_request conn j')" "round_ok old j (respond_server_error conn j')"
    unfolding round_ok_def respond_bad_request_def respond_server_error_def
    by (intro allI impI wp_conseq [OF cancel_answers]; auto)+
  show "round_ok old j (ret (Inr j'))" if "job_mask j' = job_mask j"
    using that by (simp add: round_ok_def wp_ret)
qed

lemma round_cases:
  "(b \<Longrightarrow> round_ok old j m) \<Longrightarrow> (\<not> b \<Longrightarrow> round_ok old j n) \<Longrightarrow> round_ok old j (if b then m else n)"
  "(x = None \<Longrightarrow> round_ok old j n1) \<Longrightarrow> (\<And>y. x = Some y \<Longrightarrow> round_ok old j (n2 y)) \<Longrightarrow>
     round_ok old j (case x of None \<Rightarrow> n1 | Some y \<Rightarrow> n2 y)"
  "(\<And>a b. q = (a, b) \<Longrightarrow> round_ok old j (n3 a b)) \<Longrightarrow> round_ok old j (case q of (a, b) \<Rightarrow> n3 a b)"
  "(\<And>y. y = e \<Longrightarrow> round_ok old j (n4 y)) \<Longrightarrow> round_ok old j (Let e n4)"
  "silent m0 \<Longrightarrow> round_ok old j n0 \<Longrightarrow> round_ok old j (seq m0 n0)"
  by (auto simp: seq_def round_bnd split: option.split prod.split)

lemma fields_answered: "round_ok old j (receive_fields conn j hdr)"
  unfolding receive_fields_def
  by (intro round_cases round_bnd round_ends silent_parts silent_steps) (auto simp: Let_def)

text \<open>The number of commands that have been received.\<close>

definition commands :: "job \<Rightarrow> nat" where
  "commands j = card {k. k < 8 \<and> bit (job_mask j) k}"

lemma commands_step:
  assumes "job_mask j AND ty = 0" and "ty \<in> {CMD_JOB_TYPE, CMD_JOB_PERSONALITY, CMD_JOB_CHROOT_FD, CMD_JOB_FDS,
      CMD_JOB_ARGUMENTS, CMD_JOB_ENVIRON, CMD_JOB_RUN}" and "job_mask j' = job_mask j OR ty"
  shows "commands j' = Suc (commands j)"
proof -
  have "\<exists>i \<in> {1, 2, 3, 4, 5, 6, 7}. ty = push_bit i 1"
    using assms(2) unfolding cmd_defs by blast
  then obtain i where "i \<in> {1, 2, 3, 4, 5, 6, 7}" and ty: "ty = push_bit i 1" by (rule bexE)
  then have i: "i < 8" by auto
  with assms(1) ty have new: "\<not> bit (job_mask j) i" using and_push1 [of i "job_mask j"] by simp
  have "bit (job_mask j') k \<longleftrightarrow> bit (job_mask j) k \<or> k = i" for k
    using i bit_push1 [of i k] by (simp only: assms(3) ty bit_or_iff)
  then have "{k. k < 8 \<and> bit (job_mask j') k} = insert i {k. k < 8 \<and> bit (job_mask j) k}"
    using i by auto
  then show ?thesis using new by (simp add: commands_def)
qed

lemma fields_known:
  "returns (receive_fields conn j hdr) (\<lambda>_. hdr_type hdr \<in> {CMD_JOB_TYPE, CMD_JOB_PERSONALITY, CMD_JOB_CHROOT_FD,
     CMD_JOB_FDS, CMD_JOB_ARGUMENTS, CMD_JOB_ENVIRON, CMD_JOB_RUN})"
  unfolding receive_fields_def Let_def by (intro returns_rules acknowledge_returns) simp_all

text \<open>All commands but the one that starts the job have been answered.\<close>

abbreviation all_done :: "nat \<Rightarrow> world \<Rightarrow> bool" where
  "all_done n v \<equiv> answers (trace v) = replicate n done_answer"

lemma command_answered:
  assumes "all_done (commands j) w"
  shows "wp (receive_command conn j)
     (\<lambda>x v. case x of Inl j' \<Rightarrow> all_done (commands j') v | Inr j' \<Rightarrow> all_done (commands j' - 1) v)
     (refused (replicate (commands j) done_answer)) w"
    (is "wp _ ?Q (refused ?old) w")
proof -
  have refuse: "wp (seq (error_msg s) (respond_bad_request conn j)) ?Q (refused ?old) v"
    "wp (respond_server_error conn j) ?Q (refused ?old) v" if "answers (trace v) = ?old" for v s
    unfolding respond_bad_request_def respond_server_error_def
    by (simp add: wp_seq wp_msg, rule wp_conseq [OF cancel_answers]; use that in auto)
      (rule wp_conseq [OF cancel_answers]; use that in auto)
  have fields: "wp (receive_fields conn (j\<lparr>job_mask := job_mask j OR hdr_type hdr\<rparr>) hdr) ?Q (refused ?old) v"
    if v: "answers (trace v) = ?old" and new: "job_mask j AND hdr_type hdr = 0" for v hdr
  proof -
    let ?j = "j\<lparr>job_mask := job_mask j OR hdr_type hdr\<rparr>"
    let ?known = "hdr_type hdr \<in> {CMD_JOB_TYPE, CMD_JOB_PERSONALITY, CMD_JOB_CHROOT_FD, CMD_JOB_FDS,
      CMD_JOB_ARGUMENTS, CMD_JOB_ENVIRON, CMD_JOB_RUN}"
    have "wp (receive_fields conn ?j hdr) (answered ?old ?j) (refused ?old) v"
      using fields_answered v unfolding round_ok_def by blast
    moreover have "pc (receive_fields conn ?j hdr) (\<lambda>_ _. ?known) v"
      using fields_known [of conn ?j hdr] by (auto intro!: wpI dest: returnsD)
    ultimately have "wp (receive_fields conn ?j hdr) (\<lambda>x v. answered ?old ?j x v \<and> ?known) (\<lambda>s v. refused ?old s v \<and> True) v"
      by (rule wp_conj)
    then show ?thesis
    proof (rule wp_conseq)
      show "?Q x u" if "answered ?old ?j x u \<and> ?known" for x u
      proof -
        have "commands j' = Suc (commands j)" if "job_mask j' = job_mask ?j" for j'
          by (rule commands_step [OF new]) (use that \<open>answered ?old ?j x u \<and> ?known\<close> in simp_all)
        then show ?thesis using that by (auto simp: replicate_append_same split: sum.splits)
      qed
    qed simp
  qed
  show ?thesis
    unfolding receive_command_def Let_def
    apply (rule iffD2 [OF wp_bnd], rule wp_conseq [OF silentD [OF silent_parts(1)]])
     apply (simp split: option.split)
     apply (use assms refuse fields in auto)
    done
qed

lemma commands_answered:
  "case receive_commands conn job_init (start g [] rs) of
     (Ret j, v) \<Rightarrow> answers (trace v) = replicate (commands j - 1) done_answer
   | (Stop s, v) \<Rightarrow> s = Blocked
       \<or> (\<exists>n \<le> 8. \<exists>refusal \<in> refusals. answers (trace v) = replicate n done_answer @ refusal)"
proof -
  have le: "commands j \<le> 8" for j
  proof -
    have "commands j \<le> card {k :: nat. k < 8}" unfolding commands_def by (rule card_mono) auto
    then show ?thesis by simp
  qed
  let ?E = "\<lambda>s v. s = Blocked \<or> s = NoFuel
       \<or> (\<exists>n \<le> 8. \<exists>refusal \<in> refusals. answers (trace v) = replicate n done_answer @ refusal)"
  have "wp (receive_commands conn job_init) (\<lambda>j v. all_done (commands j - 1) v) ?E (start g [] rs)"
    unfolding receive_commands_def
  proof (rule wp_loop [where I = "\<lambda>j v. all_done (commands j) v"])
    show "wp (receive_command conn j) (\<lambda>x v. case x of Inl j' \<Rightarrow> all_done (commands j') v | Inr j' \<Rightarrow> all_done (commands j' - 1) v) ?E w"
      if "all_done (commands j) w" for j w
      by (rule wp_conseq [OF command_answered [OF that]]) (use le in auto)
  qed (simp_all add: commands_def job_init_def start_def)
  moreover have "fst (receive_commands conn job_init (start g [] rs)) \<noteq> Stop NoFuel"
    using tame_receive_commands unfolding tame_def never_out_of_fuel_def by blast
  ultimately show ?thesis by (auto simp: wp_def split: prod.splits outcome.splits)
qed

text \<open>
  C13: a request handler that receives a job answers every command with one message: when it goes on
  to run the job, it has sent the answer \<open>CMD_STATUS_DONE\<close> as often as there have been commands before
  \<open>CMD_JOB_RUN\<close>, and nothing else; when it exits, it has sent answers of that kind (at most
  eight) and then one refusal, which is the last thing it sends.
\<close>

theorem receive_commands_answers:
  "case receive_commands conn job_init (start g [] rs) of
     (Ret j, v) \<Rightarrow> answers (trace v) = replicate (commands j - 1) done_answer
   | (Stop s, v) \<Rightarrow> s = Blocked
       \<or> (\<exists>n \<le> 8. \<exists>refusal \<in> refusals. answers (trace v) = replicate n done_answer @ refusal)"
  by (rule commands_answered)

end
