(* ===== verification/Reports.thy ===== *)
theory Reports
  imports Answers
begin

text \<open>
  What the runner of a job tells the client: the status of the executor, or that the job has
  failed; and whom it signals.
\<close>

subsection \<open>Outcomes\<close>

definition wait_result :: "reply \<Rightarrow> int" where
  "wait_result r =
     (if r_ret r < 0 then 1
      else case r_status r of WExited n \<Rightarrow> int n | WSignaled n \<Rightarrow> 128 + int n | WOther _ \<Rightarrow> 1)"

definition status_answer :: "int \<Rightarrow> string" where
  "status_answer rc = resp_bytes \<lparr>resp_rc = rc, resp_len = 0\<rparr>"

definition outcome :: "int \<Rightarrow> stop \<Rightarrow> trace \<Rightarrow> bool" where
  "outcome pid s t \<longleftrightarrow>
     s = Blocked \<or> s = NoFuel
   \<or> s = Exit 0 \<and> list_ex (\<lambda>(c, r). c = Pr (Waitpid pid False) \<and> \<not> interrupted r \<and> answers t = [status_answer (wait_result r)]) t
   \<or> s = Exit 1 \<and> (answers t = [] \<or> answers t = [status_answer CMD_STATUS_FAILED])"

definition serving :: "int \<Rightarrow> ('a \<Rightarrow> bool) \<Rightarrow> 'a m \<Rightarrow> bool" where
  "serving pid Q m \<longleftrightarrow> (\<forall>w. answers (trace w) = [] \<longrightarrow>
     wp m (\<lambda>x v. answers (trace v) = [] \<and> Q x) (\<lambda>s v. outcome pid s (trace v)) w)"

lemma servingD:
  "serving pid Q m \<Longrightarrow> answers (trace w) = [] \<Longrightarrow> m w = (out, v) \<Longrightarrow>
     (case out of Ret x \<Rightarrow> Q x | Stop s \<Rightarrow> outcome pid s (trace v))"
  unfolding serving_def wp_def by (force split: outcome.splits)

lemma serving_silent: "silent m \<Longrightarrow> serving pid (\<lambda>_. True) m"
  unfolding serving_def by (intro allI impI wp_conseq [OF silentD]) (auto simp: outcome_def)

lemma serving_bnd: "serving pid P m \<Longrightarrow> (\<And>x. P x \<Longrightarrow> serving pid Q (f x)) \<Longrightarrow> serving pid Q (bnd m f)"
  unfolding serving_def by (intro allI impI iffD2 [OF wp_bnd]) (rule wp_conseq, blast+)

lemma serving_after: "silent m \<Longrightarrow> (\<And>x. serving pid Q (f x)) \<Longrightarrow> serving pid Q (bnd m f)"
  by (rule serving_bnd [OF serving_silent])

lemma serving_steps:
  "serving pid (\<lambda>_. True) m0 \<Longrightarrow> serving pid Q n0 \<Longrightarrow> serving pid Q (seq m0 n0)"
  "Q x \<Longrightarrow> serving pid Q (ret x)" "serving pid Q (c_exit 1)"
  "serving pid Q (error_msg_and_die s)" "serving pid Q (perror_msg_and_die s)"
  "(b \<Longrightarrow> serving pid Q m1) \<Longrightarrow> (\<not> b \<Longrightarrow> serving pid Q m2) \<Longrightarrow> serving pid Q (if b then m1 else m2)"
  "(y = None \<Longrightarrow> serving pid Q n1) \<Longrightarrow> (\<And>z. y = Some z \<Longrightarrow> serving pid Q (n2 z)) \<Longrightarrow>
     serving pid Q (case y of None \<Rightarrow> n1 | Some z \<Rightarrow> n2 z)"
  "(\<And>z. z = e \<Longrightarrow> serving pid Q (n3 z)) \<Longrightarrow> serving pid Q (Let e n3)"
  by (auto simp: seq_def intro: serving_bnd [where P = "\<lambda>_. True"] split: option.split)
    (auto simp: serving_def wp_simps outcome_def)

lemma wait_job_gives:
  "wp (wait_job j pid) (\<lambda>rc v. answers (trace v) = answers (trace w)
       \<and> list_ex (\<lambda>(c, r). c = Pr (Waitpid pid False) \<and> \<not> interrupted r \<and> rc = wait_result r) (trace v)) (\<lambda>s _. s = Blocked) w"
  unfolding wait_job_def waitpid_retry_def
  by (rule iffD2 [OF wp_bnd], rule wp_retry)
    (auto simp: wp_simps answers_retried wait_result_def logged_trace split: wait_status.split)

lemma silent_wait: "silent (wait_job j pid)"
  unfolding silent_def by (intro allI wp_conseq [OF wait_job_gives]) auto

lemma silent_terminate: "silent (terminate_executor j pid)"
  unfolding terminate_executor_def by (intro silent_bnd silent_steps silent_wait)

lemma response_sent:
  "wp (send_response_to_client conn rc None)
     (\<lambda>_ v. answers (trace v) = answers (trace w) @ [status_answer rc] \<and> set (trace w) \<subseteq> set (trace v)) (\<lambda>s _. s = Blocked) w"
  unfolding send_response_to_client_def sendmsg_retry_def
  by (simp add: wp_simps, rule wp_retry)
    (auto simp: wp_simps answers_retried status_answer_def logged_trace)

lemma completion_serves: "serving pid Q (bnd (wait_job j pid) (respond_job_completion conn))"
  unfolding serving_def
proof (intro allI impI iffD2 [OF wp_bnd])
  fix w :: world assume w: "answers (trace w) = []"
  have respond: "wp (respond_job_completion conn rc) (\<lambda>x v. answers (trace v) = [] \<and> Q x) (\<lambda>s v. outcome pid s (trace v)) v"
    if v: "answers (trace v) = []" "list_ex (\<lambda>(c, r). c = Pr (Waitpid pid False) \<and> \<not> interrupted r \<and> rc = wait_result r) (trace v)" for rc v
    unfolding respond_job_completion_def
    by (rule iffD2 [OF wp_bnd], rule wp_conseq [OF response_sent])
      (use v in \<open>auto simp: wp_c_exit outcome_def list_ex_iff\<close>)
  show "wp (wait_job j pid) (\<lambda>rc. wp (respond_job_completion conn rc) (\<lambda>x v. answers (trace v) = [] \<and> Q x)
      (\<lambda>s v. outcome pid s (trace v))) (\<lambda>s v. outcome pid s (trace v)) w"
    by (rule wp_conseq [OF wait_job_gives]) (use w respond in \<open>auto simp: outcome_def\<close>)
qed

subsection \<open>The loop\<close>

lemma serving_each: "(\<And>x. serving pid (\<lambda>_. True) (f x)) \<Longrightarrow> serving pid (\<lambda>_. True) (for_each xs f)"
  by (induction xs) (auto intro!: serving_steps)

lemma serving_fold: "(\<And>s x. serving pid (\<lambda>_. True) (f s x)) \<Longrightarrow> serving pid (\<lambda>_. True) (fold_m f s xs)"
  by (induction xs arbitrary: s) (auto intro!: serving_steps serving_bnd)

lemma serving_event_loop:
  assumes "\<And>s. serving pid (\<lambda>_. True) (body s)"
  shows "serving pid (\<lambda>_. True) (event_loop body s)"
  unfolding serving_def
proof (intro allI impI)
  fix w :: world assume w: "answers (trace w) = []"
  have "wp (loop n body s) (\<lambda>x v. answers (trace v) = [] \<and> True) (\<lambda>s v. outcome pid s (trace v)) w" for n
  proof (rule wp_loop [where I = "\<lambda>_ v. answers (trace v) = []"])
    show "wp (body s) (\<lambda>x v. case x of Inl s' \<Rightarrow> answers (trace v) = [] | Inr r \<Rightarrow> answers (trace v) = [] \<and> True)
        (\<lambda>s v. outcome pid s (trace v)) v" if "answers (trace v) = []" for s v
    proof -
      have "wp (body s) (\<lambda>x v. answers (trace v) = [] \<and> True) (\<lambda>s v. outcome pid s (trace v)) v"
        using assms [of s] that unfolding serving_def by blast
      then show ?thesis by (rule wp_conseq) (auto split: sum.split)
    qed
  qed (simp_all add: w outcome_def)
  then show "wp (event_loop body s) (\<lambda>x v. answers (trace v) = [] \<and> True) (\<lambda>s v. outcome pid s (trace v)) w"
    by (simp add: event_loop_def wp_def del: loop.simps)
qed

lemma silent_io:
  "silent (read_siginfo fd)" "silent (epoll_add_in ep fd)" "silent (epoll_add_hup ep fd)"
  "silent (sys_fd (Epoll_wait ep t))" "silent (sys_fd Epoll_create)" "silent (info_msg s)"
proof -
  have fd: "silent (sys_fd c)" if "no_send (Fd c)" for c
    using that by (auto simp: silent_def wp_simps no_send_def split: list.split fd_call.splits)
  show "silent (sys_fd (Epoll_wait ep t))" "silent (sys_fd Epoll_create)" by (simp_all add: fd no_send_def)
  show "silent (info_msg s)" by (simp add: silent_def wp_simps)
  show "silent (read_siginfo fd)"
    unfolding read_siginfo_def read_retry_def by (intro silent_bnd silent_retry silent_steps) (simp add: no_send_def)
  show "silent (epoll_add_in ep fd)" "silent (epoll_add_hup ep fd)"
    unfolding epoll_add_in_def epoll_add_hup_def
    by (intro silent_bnd silent_steps fd; simp add: no_send_def)+
qed

lemma signal_fd_serves: "serving pid (\<lambda>_. True) daemon_create_signal_fd"
  unfolding daemon_create_signal_fd_def xsigprocmask_def only_if_def
  by (intro serving_after serving_steps serving_silent silent_steps TrueI)

lemma round_serves: "serving pid (\<lambda>_. True) (runner_round ep sig_fd conn j pid u)"
proof -
  have h: "serving pid (\<lambda>_. True) (runner_hangup conn j pid ev)" for ev
    unfolding runner_hangup_def only_if_def
    by (intro serving_steps serving_silent silent_steps silent_terminate TrueI)
  have i: "serving pid (\<lambda>_. True) (runner_input sig_fd conn j pid finish ev)" for finish ev
    unfolding runner_input_def
    by (intro serving_steps serving_after serving_silent silent_steps silent_io completion_serves TrueI)
  show ?thesis
    unfolding runner_round_def
    by (intro serving_after silent_io serving_steps serving_silent serving_each serving_fold h
        serving_bnd [OF serving_fold [OF i]] silent_steps TrueI)
qed

lemma serve_serves: "serving pid (\<lambda>_. False) (runner_serve conn j pid)"
proof -
  have failed: "serving pid (\<lambda>_. False) (bnd (send_response_to_client conn CMD_STATUS_FAILED None) (\<lambda>_. c_exit 1))"
    unfolding serving_def
    by (intro allI impI iffD2 [OF wp_bnd] wp_conseq [OF response_sent]) (auto simp: wp_c_exit outcome_def)
  show ?thesis
    unfolding runner_serve_def
    apply (rule serving_bnd [OF signal_fd_serves])
    apply (rule serving_steps, rule serving_steps)
    apply (rule serving_after [OF silent_io(5)], rule serving_steps, rule serving_steps, rule serving_steps)
    apply (rule serving_after [OF silent_io(2)], rule serving_after)
     apply (intro silent_steps silent_io)
    apply (rule serving_steps, rule serving_steps)
    apply (intro serving_steps serving_event_loop round_serves serving_silent silent_io silent_terminate failed)
    done
qed

text \<open>The only process it signals or waits for is the executor.\<close>

definition own_child :: "int \<Rightarrow> call \<Rightarrow> bool" where
  "own_child pid c \<longleftrightarrow> (case c of
     Pr p \<Rightarrow> (case p of Kill q s \<Rightarrow> q = pid \<and> s = SIGTERM | Waitpid q nohang \<Rightarrow> q = pid \<and> \<not> nohang
              | Fork \<Rightarrow> False | Execve _ _ _ \<Rightarrow> False | _ \<Rightarrow> True)
     | _ \<Rightarrow> True)"

lemma own_child_wait: "emits (own_child pid) (wait_job j pid)" "emits (own_child pid) (terminate_executor j pid)"
proof -
  show w: "emits (own_child pid) (wait_job j pid)"
    unfolding wait_job_def waitpid_retry_def
    by (intro inv_intros runs_wait_status) (simp_all add: own_child_def)
  show "emits (own_child pid) (terminate_executor j pid)"
    unfolding terminate_executor_def by (intro inv_intros w) (simp_all add: own_child_def)
qed

lemma serve_own_child: "emits (own_child pid) (runner_serve conn j pid)"
proof -
  have send: "emits (own_child pid) (send_response_to_client conn rc reason)" for rc reason
    unfolding send_response_to_client_def sendmsg_retry_def by (intro inv_intros) (simp_all add: own_child_def)
  have io: "emits (own_child pid) (read_siginfo fd)" "emits (own_child pid) daemon_create_signal_fd"
    "emits (own_child pid) (epoll_add_in ep fd)" "emits (own_child pid) (epoll_add_hup ep fd)" for fd ep
    unfolding read_siginfo_def read_retry_def daemon_create_signal_fd_def xsigprocmask_def epoll_add_in_def epoll_add_hup_def
    by (intro inv_intros; simp add: own_child_def)+
  have fold: "emits (own_child pid) (fold_m f s xs)" if "\<And>s x. emits (own_child pid) (f s x)" for f s and xs :: "epoll_event list"
    by (induction xs arbitrary: s) (auto intro!: inv_intros that)
  show ?thesis
    unfolding runner_serve_def runner_round_def runner_hangup_def runner_input_def respond_job_completion_def
    by (intro inv_intros own_child_wait send io fold; simp add: own_child_def)
qed

lemma runner_outcome:
  "case (runner_serve conn j pid :: 'a m) (start g [] rs) of
     (Ret _, _) \<Rightarrow> False
   | (Stop s, v) \<Rightarrow> outcome pid s (trace v) \<and> list_all (\<lambda>(c, r). own_child pid c) (trace v)"
proof -
  obtain out v where run: "(runner_serve conn j pid :: 'a m) (start g [] rs) = (out, v)" by (metis surj_pair)
  obtain new where new: "trace v = new @ trace (start g [] rs)"
      "\<And>c r. (c, r) \<in> set new \<Longrightarrow> or_log (own_child pid) c"
    using emits_trace [OF serve_own_child run] by blast
  have "own_child pid c" if "or_log (own_child pid) c" for c
    using that by (auto simp: or_log_def own_child_def)
  with new have "list_all (\<lambda>(c, r). own_child pid c) (trace v)"
    by (auto simp: start_def list_all_iff)
  moreover have "case out of Ret _ \<Rightarrow> False | Stop s \<Rightarrow> outcome pid s (trace v)"
    by (rule servingD [OF serve_serves _ run]) (simp add: start_def)
  ultimately show ?thesis by (simp add: run split: outcome.splits)
qed

text \<open>
  C14: the runner of a job tells the client at most one thing, whatever signals and events come in:
  when the executor has ended, its status as a shell would give it, taken from the reply to the
  wait for this executor (and then it exits with 0); when the runner has been told to finish, or it
  cannot wait for events, that the job has failed; and nothing when the client has hung up or the
  runner could not be set up (in both cases it exits with 1). It never returns, and signals
  and waits for no other process than the executor.
\<close>

theorem runner_reports_executor:
  "case (runner_serve conn j pid :: 'a m) (start g [] rs) of
     (Ret _, _) \<Rightarrow> False
   | (Stop s, v) \<Rightarrow> outcome pid s (trace v) \<and> list_all (\<lambda>(c, r). own_child pid c) (trace v)"
  by (rule runner_outcome)

end
