(* ===== verification/Exit_Status.thy ===== *)
theory Exit_Status
  imports Reports
begin

text \<open>
  The way of a job's status to the user: the handler's and the runner's answers, as the kernel
  delivers them to the client, and what the client makes of them.
\<close>

subsection \<open>What the client is told\<close>

text \<open>
  The replies of the kernel while the client makes a request and hears the answer: every message
  is sent in full, and the answer's header is received. Before the personality is sent, the
  kernel says what it is; if it cannot (\<open>None\<close>), the client goes on to the start of the job.
\<close>

definition heard :: "u32 option \<Rightarrow> cmd_header \<times> payload \<Rightarrow> string \<Rightarrow> reply list" where
  "heard persona req ans =
     (if hdr_type (fst req) = CMD_JOB_PERSONALITY
      then [rep (case persona of None \<Rightarrow> -1 | Some p \<Rightarrow> uint p)] else [])
     @ map (\<lambda>(bytes, fds). rep (int (length bytes))) (wire req) @ [(rep 8)\<lparr>r_buf := ans\<rparr>]"

definition unasked :: "u32 \<Rightarrow> u32 option \<Rightarrow> cmd_header \<times> payload \<Rightarrow> reply list" where
  "unasked job persona req =
     (if hdr_type (fst req) = CMD_JOB_RUN \<and> persona = None \<and> (job = JOB_CHROOTUID1 \<or> job = JOB_CHROOTUID2)
      then [rep (-1)] else [])"

definition exchange :: "u32 \<Rightarrow> u32 option \<Rightarrow> (cmd_header \<times> payload) list \<Rightarrow> string list \<Rightarrow> reply list" where
  "exchange job persona reqs as = concat (map2 (\<lambda>req a. unasked job persona req @ heard persona req a) reqs as)"

subsection \<open>The client's steps\<close>

lemma gives_xsendmsg: "gives (xsendmsg fd s) g (rep (int (length s)) # rs) 0 g rs"
  unfolding xsendmsg_def sendmsg_retry_def by (rule gives_bnd [OF gives_retry]) (simp_all add: rep_def gives_ret)

lemma gives_header: "gives (send_header conn ty len err) g (rep 8 # rs) () g rs"
  using gives_xsendmsg [of conn "header_bytes \<lparr>hdr_type = ty, hdr_len = len\<rparr>" g rs]
  unfolding send_header_def by (intro gives_bnd) (auto simp: gives_ret)

lemma gives_response:
  assumes "int_min \<le> rc" and "rc \<le> int_max" and "rc \<noteq> CMD_STATUS_FAILED"
  shows "gives (recv_response conn name) g ((rep 8)\<lparr>r_buf := status_answer rc\<rparr> # rs) rc g rs"
proof -
  have len: "length (status_answer rc) = 8" by (simp add: status_answer_def)
  have rs: "resp_of (status_answer rc) = \<lparr>resp_rc = rc, resp_len = 0\<rparr>"
    unfolding status_answer_def by (rule resp_roundtrip) (use assms in simp_all)
  show ?thesis
    unfolding recv_response_def
    apply (rule gives_bnd [OF gives_xrecvmsg [OF len, simplified]])
    using assms by (simp add: rs only_if_def gives_seq gives_ret)
qed

lemma done_status: "done_answer = status_answer CMD_STATUS_DONE"
  by (simp add: done_answer_def status_answer_def)

lemma gives_done: "gives (bnd (recv_response conn name) (\<lambda>_. ret ())) g ((rep 8)\<lparr>r_buf := done_answer\<rparr> # rs) () g rs"
  unfolding done_status by (rule gives_bnd [OF gives_response gives_ret]) (simp_all add: CMD_STATUS_DONE_def CMD_STATUS_FAILED_def)

subsection \<open>The client's requests\<close>

lemma gives_each:
  assumes "\<And>x rs. x \<in> set xs \<Longrightarrow> gives (f x) g (h x # rs) () g rs"
  shows "gives (for_each xs f) g (map h xs @ rs) () g rs"
  using assms by (induction xs) (auto simp: gives_ret intro!: gives_seq)

lemma heard_type:
  "gives (send_type conn job) g (heard persona (\<lparr>hdr_type = CMD_JOB_TYPE, hdr_len = job\<rparr>, Nothing) done_answer @ rs) () g rs"
  unfolding send_type_def by (simp add: heard_def cmd_defs gives_seq [OF gives_header gives_done])

lemma heard_fds:
  assumes "cmd \<noteq> CMD_JOB_PERSONALITY" and "len = 4 * word_of_nat (length fds)"
  shows "gives (send_fds conn cmd name fds) g
    (heard persona (\<lparr>hdr_type = cmd, hdr_len = len\<rparr>, Descriptors fds) done_answer @ rs) () g rs"
proof -
  have send: "gives (fd_send conn fds []) g (rep 1 # rs) () g rs" for rs
    unfolding fd_send_def sendmsg_retry_def Let_def by (rule gives_bnd [OF gives_retry]) (simp_all add: rep_def gives_ret)
  show ?thesis
    unfolding send_fds_def using assms(1)
    by (simp add: heard_def gives_seq [OF gives_header gives_seq [OF send gives_done]])
qed

lemma heard_strings:
  assumes "cmd \<noteq> CMD_JOB_PERSONALITY" and "strings_size strs \<le> 0x20000"
  shows "gives (send_strings conn cmd name strs) g
    (heard persona (\<lparr>hdr_type = cmd, hdr_len = strings_len strs\<rparr>, Strings strs) done_answer @ rs) () g rs"
proof -
  have small: "(ucast (ucast (word_of_nat (strings_size strs) :: u64) :: u32) :: u64) = word_of_nat (strings_size strs)"
    using assms(2) by (simp add: word_unat_eq_iff unsigned_ucast_eq unsigned_of_nat take_bit_nat_eq_self min_def)
  have one: "gives (bnd (xsendmsg conn (s @ [nul])) (\<lambda>rc. if rc < 0 then error_msg_and_die e else ret ())) g
      (rep (1 + int (length s)) # rs) () g rs" for s e rs
    using gives_xsendmsg [of conn "s @ [nul]" g rs] by (intro gives_bnd) (auto simp: gives_ret add.commute)
  have all: "gives (for_each strs (\<lambda>s. bnd (xsendmsg conn (s @ [nul])) (\<lambda>rc. if rc < 0 then error_msg_and_die e else ret ()))) g
      (map (\<lambda>s. rep (1 + int (length s))) strs @ rs) () g rs" for e rs
    by (rule gives_each [OF one])
  show ?thesis
    unfolding send_strings_def Let_def using assms(1)
    by (simp add: small heard_def comp_def add.commute gives_seq [OF gives_header gives_seq [OF all gives_done]])
qed

lemma rep_ret: "r_ret (rep n) = n"
  by (simp add: rep_def)

lemma heard_personality:
  "gives (send_personality conn) g
    (heard (Some p) (\<lparr>hdr_type = CMD_JOB_PERSONALITY, hdr_len = p\<rparr>, Nothing) done_answer @ rs) () g rs"
  unfolding send_personality_def sys_pr_def
  by (simp add: heard_def, rule gives_bnd [OF gives_sys])
    (simp add: rep_ret gives_seq [OF gives_header gives_done])

lemma unknown_personality: "gives (send_personality conn) g (rep (-1) # rs) () g rs"
  unfolding send_personality_def sys_pr_def
  by (rule gives_bnd [OF gives_sys])
    (simp add: rep_def gives_def perror_msg_def error_msg_def vprint_or_log_msg_def vprint_msg_def run_defs start_def)

lemma heard_run:
  assumes "int_min \<le> rc" and "rc \<le> int_max" and "rc \<noteq> CMD_STATUS_FAILED"
  shows "gives (send_run conn) g (heard persona (\<lparr>hdr_type = CMD_JOB_RUN, hdr_len = 0\<rparr>, Nothing) (status_answer rc) @ rs) rc g rs"
  unfolding send_run_def by (simp add: heard_def cmd_defs gives_seq [OF gives_header gives_response [OF assms]])

subsection \<open>The whole request\<close>

text \<open>\<open>ends m g rs out\<close>: with these globals and replies \<open>m\<close> has the outcome \<open>out\<close>.\<close>

definition ends :: "'a m \<Rightarrow> globals \<Rightarrow> reply list \<Rightarrow> 'a outcome \<Rightarrow> bool" where
  "ends m g rs out \<longleftrightarrow> (\<forall>t. fst (m (start g t rs)) = out)"

lemma ends_bnd: "gives m g rs x g' rs' \<Longrightarrow> ends (f x) g' rs' out \<Longrightarrow> ends (bnd m f) g rs out"
  unfolding gives_def ends_def
proof
  fix t
  assume m: "\<forall>t. \<exists>t'. m (start g t rs) = (Ret x, start g' t' rs')" and f: "\<forall>t. fst (f x (start g' t rs')) = out"
  from m obtain t' where "m (start g t rs) = (Ret x, start g' t' rs')" by blast
  with f show "fst (bnd m f (start g t rs)) = out" by (simp add: bnd_def)
qed

lemma ends_die: "ends (error_msg_and_die s) g rs (Stop (Exit 1))"
  by (simp add: ends_def error_msg_and_die_def error_msg_def vprint_or_log_msg_def vprint_msg_def die_def run_defs)

text \<open>What the client makes of the answer to its last request.\<close>

definition heard_as :: "int \<Rightarrow> int outcome" where
  "heard_as rc = (if rc = CMD_STATUS_FAILED then Stop (Exit 1) else Ret rc)"

lemma ends_seq: "gives m g rs x g' rs' \<Longrightarrow> ends n g' rs' out \<Longrightarrow> ends (seq m n) g rs out"
  unfolding seq_def by (rule ends_bnd)

lemma ends_run:
  assumes "int_min \<le> rc" and "rc \<le> int_max"
  shows "ends (send_run conn) g (heard persona (\<lparr>hdr_type = CMD_JOB_RUN, hdr_len = 0\<rparr>, Nothing) (status_answer rc) @ rs)
    (heard_as rc)"
proof (cases "rc = CMD_STATUS_FAILED")
  case True
  have len: "length (status_answer rc) = 8" by (simp add: status_answer_def)
  have rs: "resp_of (status_answer rc) = \<lparr>resp_rc = rc, resp_len = 0\<rparr>"
    unfolding status_answer_def by (rule resp_roundtrip) (use assms in simp_all)
  have "ends (recv_response conn name) g ((rep 8)\<lparr>r_buf := status_answer rc\<rparr> # rs) (Stop (Exit 1))" for name
    unfolding recv_response_def
    by (rule ends_bnd [OF gives_xrecvmsg [OF len, simplified]])
      (simp add: rs, simp add: True only_if_def seq_def ends_die ends_bnd [OF gives_ret ends_die])
  then show ?thesis
    unfolding send_run_def by (simp add: True heard_def heard_as_def cmd_defs) (rule ends_seq [OF gives_header])
next
  case False
  with heard_run [OF assms False] show ?thesis by (auto simp: gives_def ends_def heard_as_def) (metis fst_conv)
qed

lemma unasked_simps:
  "unasked job persona (\<lparr>hdr_type = CMD_JOB_TYPE, hdr_len = n\<rparr>, p) = []"
  "unasked job persona (\<lparr>hdr_type = CMD_JOB_FDS, hdr_len = n\<rparr>, p) = []"
  "unasked job persona (\<lparr>hdr_type = CMD_JOB_ARGUMENTS, hdr_len = n\<rparr>, p) = []"
  "unasked job persona (\<lparr>hdr_type = CMD_JOB_ENVIRON, hdr_len = n\<rparr>, p) = []"
  "unasked job persona (\<lparr>hdr_type = CMD_JOB_CHROOT_FD, hdr_len = n\<rparr>, p) = []"
  "unasked job persona (\<lparr>hdr_type = CMD_JOB_PERSONALITY, hdr_len = n\<rparr>, p) = []"
  "unasked job persona (\<lparr>hdr_type = CMD_JOB_RUN, hdr_len = n\<rparr>, p) =
     (if persona = None \<and> (job = JOB_CHROOTUID1 \<or> job = JOB_CHROOTUID2) then [rep (-1)] else [])"
  by (simp_all add: unasked_def cmd_defs)

lemma request_ends:
  assumes job: "request_fits (job, args)"
    and strs: "case args of None \<Rightarrow> True | Some a \<Rightarrow> strings_size a \<le> 0x20000 \<and> strings_size env \<le> 0x20000"
    and rc: "int_min \<le> rc" "rc \<le> int_max"
    and n: "n = length (conversation job args env (chroot_fd g) persona)"
  shows "ends (send_request conn job args env) g
    (exchange job persona (conversation job args env (chroot_fd g) persona)
       (replicate (n - 1) done_answer @ [status_answer rc]) @ rs)
    (heard_as rc)"
proof (cases args)
  case None
  with job have plain: "job \<noteq> JOB_CHROOTUID1" "job \<noteq> JOB_CHROOTUID2" by (auto simp: request_fits_def job_defs)
  show ?thesis
    unfolding send_request_def None n
    apply (simp add: plain only_if_def conversation_def exchange_def unasked_simps)
    apply (rule ends_seq [OF heard_type])
    apply (rule ends_seq [OF heard_fds], simp add: cmd_defs, simp)
    apply (intro ends_seq [OF gives_ret] ends_run rc)
    done
next
  case (Some a)
  with job strs have chroot: "job = JOB_CHROOTUID1 \<or> job = JOB_CHROOTUID2" "strings_size a \<le> 0x20000" "strings_size env \<le> 0x20000"
    by (auto simp: request_fits_def)
  have root: "gives (bnd (getg chroot_fd) (\<lambda>fd. send_fds conn CMD_JOB_CHROOT_FD name [fd])) g
      (heard persona (\<lparr>hdr_type = CMD_JOB_CHROOT_FD, hdr_len = 4\<rparr>, Descriptors [chroot_fd g]) done_answer @ rs) () g rs" for name rs
    by (rule gives_bnd [OF gives_getg heard_fds]) (simp_all add: cmd_defs)
  show ?thesis
  proof (cases persona)
    case None
    show ?thesis
      unfolding send_request_def Some None n
      apply (simp add: chroot(1) only_if_def conversation_def exchange_def unasked_simps)
      apply (rule ends_seq [OF heard_type])
      apply (rule ends_seq [OF heard_fds], simp add: cmd_defs, simp)
      apply (rule ends_seq [OF heard_strings [OF _ chroot(2)]], simp add: cmd_defs)
      apply (rule ends_seq [OF gives_seq [OF heard_strings [OF _ chroot(3)] gives_seq [OF root [unfolded None] unknown_personality]]])
       apply (simp add: cmd_defs)
      apply (rule ends_run [OF rc])
      done
  next
    case (Some p)
    show ?thesis
      unfolding send_request_def \<open>args = Some a\<close> Some n
      apply (simp add: chroot(1) only_if_def conversation_def exchange_def unasked_simps)
      apply (rule ends_seq [OF heard_type])
      apply (rule ends_seq [OF heard_fds], simp add: cmd_defs, simp)
      apply (rule ends_seq [OF heard_strings [OF _ chroot(2)]], simp add: cmd_defs)
      apply (rule ends_seq [OF gives_seq [OF heard_strings [OF _ chroot(3)] gives_seq [OF root [unfolded Some] heard_personality]]])
       apply (simp add: cmd_defs)
      apply (rule ends_run [OF rc])
      done
  qed
qed

text \<open>The handler that has received a conversation has answered each of its requests but the last.\<close>

lemma commands_received:
  "commands (received num job args env root persona 0x86) = 3"
  "commands (received num job args env root persona 0xBE) = 6"
  "commands (received num job args env root persona 0xFE) = 7"
proof -
  have all: "{k. k < 8 \<and> P k} = set (filter P [0..<8])" for P by auto
  show "commands (received num job args env root persona 0x86) = 3"
    "commands (received num job args env root persona 0xBE) = 6"
    "commands (received num job args env root persona 0xFE) = 7"
    by (simp_all add: commands_def all received_def Let_def upt_rec)
qed

lemma gives_run_to: "gives m g (rs @ []) x g' rs' \<Longrightarrow> \<exists>v. m (start g [] rs) = (Ret x, v)"
  unfolding gives_def by (metis append_Nil2)

lemma conversation_answered:
  assumes "request_fits (job, args)"
    and "case args of None \<Rightarrow> True | Some a \<Rightarrow> list_all (\<lambda>s. nul \<notin> set s) (a @ env)
           \<and> strings_size a \<le> 0x20000 \<and> strings_size env \<le> 0x20000"
  obtains j v where "receive_commands conn job_init (start g [] (delivered num (conversation job args env root persona))) = (Ret j, v)"
    and "answers (trace v) = replicate (length (conversation job args env root persona) - 1) done_answer"
proof -
  let ?w = "start g [] (delivered num (conversation job args env root persona))"
  have "\<exists>bits v. receive_commands conn job_init ?w = (Ret (received num job args env root persona bits), v)
      \<and> commands (received num job args env root persona bits) = length (conversation job args env root persona)"
  proof (cases args)
    case None
    with assms(1) have plain: "job \<noteq> JOB_CHROOTUID1" "job \<noteq> JOB_CHROOTUID2" by (auto simp: request_fits_def job_defs)
    have "commands (received num job args env root persona 0x86) = length (conversation job args env root persona)"
      by (simp add: None commands_received conversation_def plain)
    with gives_run_to [OF gives_plain [OF plain, of conn g num env root persona]] show ?thesis by (auto simp: None)
  next
    case (Some a)
    with assms have fit: "job = JOB_CHROOTUID1 \<or> job = JOB_CHROOTUID2" "args_fit job (Some a)"
      "list_all (\<lambda>s. nul \<notin> set s) a" "strings_size a \<le> 0x20000"
      "list_all (\<lambda>s. nul \<notin> set s) env" "strings_size env \<le> 0x20000"
      by (auto simp: request_fits_def)
    have "commands (received num job args env root persona (if persona = None then 0xBE else 0xFE))
        = length (conversation job args env root persona)"
      by (cases persona) (simp_all add: Some commands_received conversation_def fit(1))
    with gives_run_to [OF gives_chroot [OF fit, of conn g num root persona]] show ?thesis by (auto simp: Some)
  qed
  then obtain bits v where "receive_commands conn job_init ?w = (Ret (received num job args env root persona bits), v)"
    and "commands (received num job args env root persona bits) = length (conversation job args env root persona)"
    by blast
  with commands_answered [of conn g "delivered num (conversation job args env root persona)"] that show thesis by simp
qed

subsection \<open>The property\<close>

text \<open>
  C9: a user learns how the job has ended. Suppose the kernel delivers the requests of a client to
  the handler and the answers of the handler and the runner to the client. Then the handler
  receives a job, and the client ends as the runner does: when the runner exits with 0, the client
  returns the status that a shell would give for the executor, from the reply to the wait for
  it; when the runner has told of a failure and exits with another code, the client exits with 1.
\<close>

theorem client_learns_status:
  assumes "request_fits (job, args)"
    and "case args of None \<Rightarrow> True | Some a \<Rightarrow> list_all (\<lambda>s. nul \<notin> set s) (a @ env)
           \<and> strings_size a \<le> 0x20000 \<and> strings_size env \<le> 0x20000"
    and runner: "(runner_serve rconn rj pid :: 'a m) (start gr [] rs) = (Stop (Exit n), u)" "answers (trace u) \<noteq> []"
    and wait: "\<forall>r. (Pr (Waitpid pid False), r) \<in> set (trace u) \<longrightarrow> wait_result r \<in> {0..255}"
  shows "\<exists>j v.
    receive_commands hconn job_init (start gh [] (delivered num (conversation job args env (chroot_fd g) persona))) = (Ret j, v)
    \<and> (let out = fst (send_request conn job args env
                 (start g [] (exchange job persona (conversation job args env (chroot_fd g) persona)
                               (answers (trace v) @ answers (trace u)))))
       in if n = 0 then \<exists>r. (Pr (Waitpid pid False), r) \<in> set (trace u) \<and> \<not> interrupted r \<and> out = Ret (wait_result r)
          else out = Stop (Exit 1))"
proof -
  let ?conv = "conversation job args env (chroot_fd g) persona"
  obtain j v where handler: "receive_commands hconn job_init (start gh [] (delivered num ?conv)) = (Ret j, v)"
    and v: "answers (trace v) = replicate (length ?conv - 1) done_answer"
    using conversation_answered [OF assms(1,2)] by metis
  have client: "fst (send_request conn job args env (start g [] (exchange job persona ?conv (answers (trace v) @ [status_answer rc]))))
      = heard_as rc" if "int_min \<le> rc" "rc \<le> int_max" for rc
  proof -
    have "case args of None \<Rightarrow> True | Some a \<Rightarrow> strings_size a \<le> 0x20000 \<and> strings_size env \<le> 0x20000"
      using assms(2) by (auto split: option.splits)
    from request_ends [OF assms(1) this that refl, of conn g persona "[]"] show ?thesis by (simp add: ends_def v)
  qed
  from runner_outcome [where conn = rconn and j = rj and pid = pid and g = gr and rs = rs and 'a = 'a] runner(1) have out: "outcome pid (Exit n) (trace u)" by simp
  have "let out = fst (send_request conn job args env (start g [] (exchange job persona ?conv (answers (trace v) @ answers (trace u)))))
      in if n = 0 then \<exists>r. (Pr (Waitpid pid False), r) \<in> set (trace u) \<and> \<not> interrupted r \<and> out = Ret (wait_result r)
         else out = Stop (Exit 1)"
  proof (cases "n = 0")
    case True
    with out obtain r where r: "(Pr (Waitpid pid False), r) \<in> set (trace u)" "\<not> interrupted r"
        "answers (trace u) = [status_answer (wait_result r)]"
      by (auto simp: outcome_def list_ex_iff)
    moreover have "wait_result r \<in> {0..255}" using wait r(1) by blast
    ultimately show ?thesis using True client [of "wait_result r"] by (auto simp: heard_as_def CMD_STATUS_FAILED_def)
  next
    case False
    with out runner(2) have "answers (trace u) = [status_answer CMD_STATUS_FAILED]" by (auto simp: outcome_def)
    with False client [of CMD_STATUS_FAILED] show ?thesis by (simp add: heard_as_def CMD_STATUS_FAILED_def)
  qed
  with handler show ?thesis by blast
qed

text \<open>An executor 42 that exits with 3.\<close>

definition demo_replies :: "reply list" where
  "demo_replies =
     [rep 3, rep 0, rep 4, rep 0, rep 0,
      (rep 1)\<lparr>r_events := [\<lparr>ev_fd = 3, ev_in = True, ev_hup = False\<rparr>]\<rparr>,
      (rep 128)\<lparr>r_buf := le32 17\<rparr>, (rep 42)\<lparr>r_status := WExited 3\<rparr>, rep 8]"

abbreviation demo_run :: "unit outcome \<times> world" where
  "demo_run \<equiv> runner_serve 9 job_init 42 (start globals_init [] demo_replies)"

theorem client_learns_status_witness:
  "let conv = conversation JOB_KILLUID None [] 3 None in
   \<exists>j v. receive_commands 9 job_init (start globals_init [] (delivered (\<lambda>fd. fd + 10) conv)) = (Ret j, v)
     \<and> fst (send_request 5 JOB_KILLUID None []
              (start (globals_init\<lparr>chroot_fd := 3\<rparr>) [] (exchange JOB_KILLUID None conv (answers (trace v) @ answers (trace (snd demo_run))))))
         = Ret 3"
proof -
  let ?conv = "conversation JOB_KILLUID None [] 3 None"
  have "case demo_run of (out, u) \<Rightarrow> out = Stop (Exit 0) \<and> answers (trace u) \<noteq> []
      \<and> list_all (\<lambda>(c, r). c = Pr (Waitpid 42 False) \<longrightarrow> wait_result r = 3) (trace u)" by code_simp
  then have run: "demo_run = (Stop (Exit 0), snd demo_run)" "answers (trace (snd demo_run)) \<noteq> []"
    and wait: "\<forall>r. (Pr (Waitpid 42 False), r) \<in> set (trace (snd demo_run)) \<longrightarrow> wait_result r = 3"
    by (auto simp: list_all_iff split: prod.splits)
  from wait have bound: "\<forall>r. (Pr (Waitpid 42 False), r) \<in> set (trace (snd demo_run)) \<longrightarrow> wait_result r \<in> {0..255}" by simp
  have fits: "request_fits (JOB_KILLUID, None)" by (simp add: request_fits_def)
  from client_learns_status [OF fits _ run bound, where g = "globals_init\<lparr>chroot_fd := 3\<rparr>" and env = "[]" and persona = None
      and hconn = 9 and gh = globals_init and num = "\<lambda>fd. fd + 10" and conn = 5] wait
  show ?thesis by (auto simp: Let_def)
qed

end
