(* ===== verification/Child_Io.thy ===== *)
theory Child_Io
  imports Parent
begin

text \<open>
  The terminal and the child of a chroot job: what the parent reads on one side is what it
  writes on the other, byte for byte, however the kernel cuts up reads and writes.
\<close>

subsection \<open>The bytes read\<close>

text \<open>The bytes that reads on a descriptor have delivered, in the order of time.\<close>

fun received :: "int \<Rightarrow> trace \<Rightarrow> string" where
  "received fd [] = []"
| "received fd ((c, r) # t) =
     received fd t @ (case c of
                        Fd (Read f n) \<Rightarrow> if f = fd then take (nat (r_ret r)) (r_buf r) else []
                      | _ \<Rightarrow> [])"

text \<open>What a user has typed: the end of the input counts as \<open>^D\<close>.\<close>

fun typed :: "int \<Rightarrow> trace \<Rightarrow> string" where
  "typed fd [] = []"
| "typed fd ((c, r) # t) =
     typed fd t @ (case c of
                     Fd (Read f n) \<Rightarrow>
                       if f = fd then (if r_ret r = 0 then [CHR 0x04] else take (nat (r_ret r)) (r_buf r)) else []
                   | _ \<Rightarrow> [])"

lemma read_interrupted:
  "\<forall>f \<in> set fails. interrupted f \<Longrightarrow> received fd (map (Pair c) fails @ t) = received fd t"
  "\<forall>f \<in> set fails. interrupted f \<Longrightarrow> typed fd (map (Pair c) fails @ t) = typed fd t"
  "\<forall>f \<in> set fails. interrupted f \<Longrightarrow> written fd (map (Pair c) fails @ t) = written fd t"
  by (induction fails) (auto simp: interrupted_def split: call.splits fd_call.splits)

subsection \<open>Moving bytes\<close>

text \<open>
  \<open>moves from_fd to_fd new w v\<close>: between \<open>w\<close> and \<open>v\<close> the bytes \<open>new\<close> have been read from one and written to
  the other descriptor, and nothing has happened on other descriptors.
\<close>

definition moves :: "int \<Rightarrow> int \<Rightarrow> string \<Rightarrow> world \<Rightarrow> world \<Rightarrow> bool" where
  "moves from_fd to_fd new w v \<longleftrightarrow>
     received from_fd (trace v) = received from_fd (trace w) @ new
   \<and> written to_fd (trace v) = written to_fd (trace w) @ new
   \<and> (\<forall>i. i \<noteq> from_fd \<or> i < 0 \<longrightarrow> received i (trace v) = received i (trace w) \<and> typed i (trace v) = typed i (trace w))
   \<and> (\<forall>i. i \<noteq> to_fd \<longrightarrow> written i (trace v) = written i (trace w))"

lemma read_gives:
  "pc (read_retry fd n) (\<lambda>r v. gl v = gl w \<and> (\<forall>out. written out (trace v) = written out (trace w))
     \<and> received fd (trace v) = received fd (trace w) @ take (nat (r_ret r)) (r_buf r)
     \<and> typed fd (trace v) = typed fd (trace w) @ (if r_ret r = 0 then [CHR 0x04] else take (nat (r_ret r)) (r_buf r))
     \<and> (\<forall>i. i \<noteq> fd \<longrightarrow> received i (trace v) = received i (trace w) \<and> typed i (trace v) = typed i (trace w))) w"
  unfolding read_retry_def by (rule wp_retry) (simp_all add: read_interrupted)

definition writes_only :: "int \<Rightarrow> call \<Rightarrow> bool" where
  "writes_only fd c \<longleftrightarrow> (case c of Fd f \<Rightarrow> (case f of Read _ _ \<Rightarrow> False | Write i _ \<Rightarrow> i = fd | _ \<Rightarrow> True) | _ \<Rightarrow> True)"

lemma writes_only_same:
  assumes "list_all (\<lambda>(c, r). writes_only fd c) new"
  shows "received i (new @ t) = received i t" "typed i (new @ t) = typed i t" "i \<noteq> fd \<Longrightarrow> written i (new @ t) = written i t"
  using assms by (induction new) (auto simp: writes_only_def split: call.splits fd_call.splits)

lemma write_gives:
  "pc (write_loop fd s) (\<lambda>n v. gl v = gl w \<and> (\<forall>i. received i (trace v) = received i (trace w) \<and> typed i (trace v) = typed i (trace w))
     \<and> (\<forall>i. i \<noteq> fd \<longrightarrow> written i (trace v) = written i (trace w))
     \<and> (write_contract (trace v) \<longrightarrow> written fd (trace v) = written fd (trace w) @ take (nat n) s \<and> n \<le> int (length s))) w"
proof (rule wpI)
  fix n v assume run: "write_loop fd s w = (Ret n, v)"
  have "runs (keeps (\<lambda>g. g = gl w)) (write_loop fd s)"
    unfolding write_loop_def write_retry_def by (intro keeps_rules TrueI)
  then have gl: "gl v = gl w" using run by (auto dest: runsD simp: keeps_def)
  have "emits (writes_only fd) (write_loop fd s)"
    unfolding write_loop_def write_retry_def by (intro inv_intros) (simp_all add: writes_only_def)
  then obtain new where new: "trace v = new @ trace w" "\<And>c r. (c, r) \<in> set new \<Longrightarrow> or_log (writes_only fd) c"
    using emits_trace run by blast
  have "writes_only fd c" if "or_log (writes_only fd) c" for c
    using that by (auto simp: or_log_def writes_only_def)
  with new have only: "list_all (\<lambda>(c, r). writes_only fd c) new" by (auto simp: list_all_iff)
  have "written fd (trace v) = written fd (trace w) @ take (nat n) s \<and> n \<le> int (length s)" if "write_contract (trace v)"
    using write_loop_rounds [of "Suc (length s)" fd 0 s w n v "written fd (trace w)" s] run that
    by (simp add: write_loop_eq del: loop.simps)
  with gl show "gl v = gl w \<and> (\<forall>i. received i (trace v) = received i (trace w) \<and> typed i (trace v) = typed i (trace w))
     \<and> (\<forall>i. i \<noteq> fd \<longrightarrow> written i (trace v) = written i (trace w))
     \<and> (write_contract (trace v) \<longrightarrow> written fd (trace v) = written fd (trace w) @ take (nat n) s \<and> n \<le> int (length s))"
    by (simp add: new(1) writes_only_same [OF only])
qed simp

lemma xwrite_all_gives:
  "pc (xwrite_all fd s) (\<lambda>_ v. (\<forall>i. received i (trace v) = received i (trace w) \<and> typed i (trace v) = typed i (trace w))
     \<and> (\<forall>i. i \<noteq> fd \<longrightarrow> written i (trace v) = written i (trace w))
     \<and> total_bytes_written (par (gl v)) = total_bytes_written (par (gl w)) + word_of_nat (length s)
     \<and> (write_contract (trace v) \<longrightarrow> written fd (trace v) = written fd (trace w) @ s)) w"
  unfolding xwrite_all_def set_par_def
  by (rule pc_comb(1), rule pc_conseq [OF write_gives]) (auto simp: wp_simps)

subsection \<open>The steps\<close>

definition counted :: "nat \<Rightarrow> world \<Rightarrow> world \<Rightarrow> bool" where
  "counted n w v \<longleftrightarrow> total_bytes_written (par (gl v)) = total_bytes_written (par (gl w)) + word_of_nat n"

text \<open>What holds of the trace after a step that only extends it held before, if it holds of every call.\<close>

lemma contract_back:
  assumes "emits C m" and "pc m (\<lambda>x v. write_contract (trace v) \<longrightarrow> Q x v) w"
  shows "pc m (\<lambda>x v. write_contract (trace v) \<longrightarrow> write_contract (trace w) \<and> Q x v) w"
proof (rule wpI)
  fix x v assume run: "m w = (Ret x, v)"
  with assms(1) obtain new where "trace v = new @ trace w" using emits_trace by blast
  then show "write_contract (trace v) \<longrightarrow> write_contract (trace w) \<and> Q x v"
    using pcD [OF assms(2) run] by (simp add: write_contract_append)
qed simp

lemma any_emits:
  "emits (\<lambda>_. True) (read_child_err fds io)" "emits (\<lambda>_. True) (read_child_out fds io)"
  "emits (\<lambda>_. True) (write_child_in fds io)" "emits (\<lambda>_. True) (read_tty_in fds io)"
  unfolding read_child_err_def read_child_out_def write_child_in_def read_tty_in_def
    read_retry_def xwrite_all_def write_loop_def write_retry_def set_par_def
  by (intro inv_intros; simp)+

lemma same_ends:
  "\<exists>i. io = io\<lparr>slave_read_out_fd := i\<rparr>" "\<exists>i. io = io\<lparr>slave_read_err_fd := i\<rparr>"
  by (rule exI [of _ "slave_read_out_fd io"], simp) (rule exI [of _ "slave_read_err_fd io"], simp)

lemma output_moves:
  "pc (read_child_out fds io) (\<lambda>io' v. write_contract (trace v) \<longrightarrow> write_contract (trace w) \<and>
     (\<exists>new. moves (slave_read_out_fd io) (master_write_out_fd io) new w v \<and> counted (length new) w v
        \<and> (\<exists>i. io' = io\<lparr>slave_read_out_fd := i\<rparr>))) w"
  "pc (read_child_err fds io) (\<lambda>io' v. write_contract (trace v) \<longrightarrow> write_contract (trace w) \<and>
     (\<exists>new. moves (slave_read_err_fd io) (master_write_err_fd io) new w v \<and> counted (length new) w v
        \<and> (\<exists>i. io' = io\<lparr>slave_read_err_fd := i\<rparr>))) w"
proof -
  have go: "pc (if fds_isset fds i then bnd (read_retry i n) (\<lambda>r. if r_ret r \<le> 0 then ret x
        else seq (xwrite_all out (take (nat (r_ret r)) (r_buf r))) (ret io)) else ret io)
      (\<lambda>io' v. write_contract (trace v) \<longrightarrow> (\<exists>new. moves i out new w v \<and> counted (length new) w v \<and> (io' = io \<or> io' = x))) w" for i n x out
    apply (rule pc_comb(7))
     apply (rule pc_comb(1), rule pc_conseq [OF read_gives], rule pc_comb(7))
      apply (rule pc_comb(3), simp add: moves_def counted_def fds_isset_def)
     apply (rule pc_comb(2), rule pc_conseq [OF xwrite_all_gives], rule pc_comb(3))
     apply (auto simp: moves_def counted_def wp_simps fds_isset_def)
    done
  show "pc (read_child_out fds io) (\<lambda>io' v. write_contract (trace v) \<longrightarrow> write_contract (trace w) \<and>
     (\<exists>new. moves (slave_read_out_fd io) (master_write_out_fd io) new w v \<and> counted (length new) w v
        \<and> (\<exists>i. io' = io\<lparr>slave_read_out_fd := i\<rparr>))) w"
    by (rule contract_back [OF any_emits(2)], unfold read_child_out_def, rule pc_conseq [OF go]) (use same_ends in blast)
  show "pc (read_child_err fds io) (\<lambda>io' v. write_contract (trace v) \<longrightarrow> write_contract (trace w) \<and>
     (\<exists>new. moves (slave_read_err_fd io) (master_write_err_fd io) new w v \<and> counted (length new) w v
        \<and> (\<exists>i. io' = io\<lparr>slave_read_err_fd := i\<rparr>))) w"
    by (rule contract_back [OF any_emits(1)], unfold read_child_err_def, rule pc_conseq [OF go]) (use same_ends in blast)
qed

text \<open>Nothing that was typed is lost or written twice: what is not yet written is in the buffer.\<close>

lemma input_written:
  "pc (write_child_in fds io) (\<lambda>o_io v. write_contract (trace v) \<longrightarrow> write_contract (trace w)
     \<and> written (slave_write_fd io) (trace v) @ (case o_io of None \<Rightarrow> master_buf io | Some io' \<Rightarrow> master_buf io')
         = written (slave_write_fd io) (trace w) @ master_buf io
     \<and> (\<forall>io'. o_io = Some io' \<longrightarrow> (\<exists>b. io' = io\<lparr>master_buf := b\<rparr>))
     \<and> counted 0 w v \<and> (\<forall>i. received i (trace v) = received i (trace w) \<and> typed i (trace v) = typed i (trace w))
     \<and> (\<forall>i. i \<noteq> slave_write_fd io \<longrightarrow> written i (trace v) = written i (trace w))) w"
  apply (rule contract_back [OF any_emits(3)])
  unfolding write_child_in_def set_par_def
  apply (rule pc_comb(7))
   apply (rule pc_comb(1), rule pc_conseq [OF write_gives], rule pc_comb(7))
    apply (rule pc_comb(3), auto simp: counted_def) [1]
   apply (rule pc_comb(2), rule pc_comb(5), rule pc_comb(3))
   apply (auto simp: counted_def) [1]
  apply (rule pc_comb(3), auto simp: counted_def intro: exI [of _ "master_buf io"])
  done

lemma input_typed:
  "pc (read_tty_in fds io) (\<lambda>io' v. write_contract (trace v) \<longrightarrow> write_contract (trace w)
     \<and> (\<exists>new. typed (master_read_fd io) (trace v) = typed (master_read_fd io) (trace w) @ new
     \<and> master_buf io' = master_buf io @ new \<and> counted 0 w v
     \<and> (\<forall>i. written i (trace v) = written i (trace w))
     \<and> (\<forall>i. i \<noteq> master_read_fd io \<or> i < 0 \<longrightarrow> received i (trace v) = received i (trace w)))) w"
  apply (rule contract_back [OF any_emits(4)])
  unfolding read_tty_in_def
  apply (rule pc_comb(7))
   apply (rule pc_comb(1), rule pc_conseq [OF read_gives])
   apply (auto simp: wp_ret counted_def fds_isset_def) [1]
  apply (rule pc_comb(3), simp add: counted_def)
  done

subsection \<open>A round\<close>

text \<open>What a round has carried out of the child, and into it from the buffer and the terminal.\<close>

definition carried :: "int \<Rightarrow> int \<Rightarrow> string \<Rightarrow> world \<Rightarrow> world \<Rightarrow> bool" where
  "carried from_fd to_fd new w v \<longleftrightarrow>
     received from_fd (trace v) = received from_fd (trace w) @ new
   \<and> written to_fd (trace v) = written to_fd (trace w) @ new"

definition carried_in :: "io_std \<Rightarrow> io_std \<Rightarrow> string \<Rightarrow> world \<Rightarrow> world \<Rightarrow> bool" where
  "carried_in io io' new w v \<longleftrightarrow>
     typed (master_read_fd io) (trace v) = typed (master_read_fd io) (trace w) @ new
   \<and> written (slave_write_fd io) (trace v) @ master_buf io' = written (slave_write_fd io) (trace w) @ master_buf io @ new"

definition apart :: "int \<Rightarrow> int \<Rightarrow> bool" where
  "apart fd i \<longleftrightarrow> fd \<noteq> i \<or> fd < 0"

lemma round_composes:
  assumes out: "moves e E err w v1" "counted (length err) w v1" "moves f F out v1 v2" "counted (length out) v1 v2"
    and inp: "\<forall>i. apart i m \<longrightarrow> received i (trace v) = received i (trace v2)" "\<forall>i. i \<noteq> S \<longrightarrow> written i (trace v) = written i (trace v2)"
      "typed m (trace v) = typed m (trace v2) @ new" "written S (trace v) @ b' = written S (trace v2) @ b @ new" "counted 0 v2 v"
    and apart: "apart e f" "apart e m" "apart f e" "apart f m" "apart m e" "apart m f" "distinct [E, F, S]"
  shows "carried e E err w v \<and> carried f F out w v \<and> counted (length err + length out) w v
    \<and> typed m (trace v) = typed m (trace w) @ new \<and> written S (trace v) @ b' = written S (trace w) @ b @ new"
proof -
  have "carried e E err w v2" "carried f F out w v2"
    and "typed m (trace v2) = typed m (trace w)" "written S (trace v2) = written S (trace w)"
    using out(1,3) apart by (simp_all add: moves_def carried_def apart_def)
  moreover have "received e (trace v) = received e (trace v2)" "received f (trace v) = received f (trace v2)"
    using inp(1) apart by simp_all
  moreover have "written E (trace v) = written E (trace v2)" "written F (trace v) = written F (trace v2)"
    using inp(2) apart by simp_all
  moreover have "counted (length err + length out) w v"
    using out(2,4) inp(5) by (simp add: counted_def)
  ultimately show ?thesis using inp(3,4) by (simp add: carried_def)
qed

lemma relay_child_pc:
  assumes rd: "distinct (filter (\<lambda>fd. 0 \<le> fd) [slave_read_err_fd io, slave_read_out_fd io, master_read_fd io])"
    and wr: "distinct [master_write_err_fd io, master_write_out_fd io, slave_write_fd io]"
  shows "pc (relay_child rfds wfds io) (\<lambda>(ok, io') v. write_contract (trace v) \<longrightarrow>
     (\<exists>err out new. carried (slave_read_err_fd io) (master_write_err_fd io) err w v
        \<and> carried (slave_read_out_fd io) (master_write_out_fd io) out w v
        \<and> carried_in io io' new w v \<and> counted (length err + length out) w v)) w"
proof -
  let ?e = "slave_read_err_fd io" and ?o = "slave_read_out_fd io" and ?m = "master_read_fd io"
    and ?E = "master_write_err_fd io" and ?F = "master_write_out_fd io" and ?S = "slave_write_fd io" and ?b = "master_buf io"
  have apart: "apart ?e ?o" "apart ?e ?m" "apart ?o ?e" "apart ?o ?m" "apart ?m ?e" "apart ?m ?o"
    using rd by (auto simp: apart_def split: if_splits)
  show ?thesis
    unfolding relay_child_def
    apply (rule pc_comb(1), rule pc_conseq [OF output_moves(2)])
    apply (rule pc_comb(1), rule pc_conseq [OF output_moves(1)])
    apply (rule pc_comb(1), rule pc_conseq [OF input_written])
    apply (rule pc_cases(1))
     apply (rule pc_comb(3), clarsimp)
     subgoal for v va vb new i newa ia
       using round_composes [of ?e ?E newa w v ?o ?F new va ?m vb ?S "[]" ?b ?b] apart wr
       by (simp add: carried_in_def) blast
    apply (rule pc_comb(1), rule pc_conseq [OF input_typed], rule pc_comb(3), clarsimp)
    subgoal for v1 v2 v3 io' v new in_buf out err
      using round_composes [of ?e ?E err w v1 ?o ?F out v2 ?m v ?S new "master_buf io'" ?b] apart wr
      by (simp add: carried_in_def apart_def [of _ ?m] counted_def append_assoc [symmetric] del: append_assoc) blast
    done
qed

subsection \<open>The property\<close>

text \<open>
  C16: a round of relaying loses, invents and reorders no byte, however the kernel cuts up the reads
  and writes: what was read of the child's standard error and output has been written to the
  parent's, \<open>total_bytes_written\<close> has grown by exactly these bytes, and what has been written to the
  child followed by what is left in \<open>master_buf\<close> is what had been and was left before followed by
  what the user has typed in the round (the end of the input counts as \<open>^D\<close>); also when the round
  fails.
\<close>

theorem child_io_exact:
  assumes "relay_child rfds wfds io w = (Ret (ok, io'), v)"
    and "distinct (filter (\<lambda>fd. 0 \<le> fd) [slave_read_err_fd io, slave_read_out_fd io, master_read_fd io])"
    and "distinct [master_write_err_fd io, master_write_out_fd io, slave_write_fd io]"
    and "write_contract (trace v)"
  shows "\<exists>err out new. carried (slave_read_err_fd io) (master_write_err_fd io) err w v
    \<and> carried (slave_read_out_fd io) (master_write_out_fd io) out w v
    \<and> carried_in io io' new w v \<and> counted (length err + length out) w v"
  using pcD [OF relay_child_pc [OF assms(2,3)] assms(1)] assms(4) by simp

text \<open>A terminal session: output, and an input that is written in two parts.\<close>

definition pty_io :: io_std where
  "pty_io = \<lparr>master_read_fd = 0, master_write_out_fd = 1, master_write_err_fd = 2, slave_read_out_fd = 7,
     slave_read_err_fd = -1, slave_write_fd = 7, master_buf = ''ls''\<rparr>"

definition pty_world :: world where
  "pty_world = start globals_init [] [(rep 2)\<lparr>r_buf := ''ok''\<rparr>, rep 1, rep 1, rep 1, rep 0]"

theorem child_io_exact_witness:
  "\<exists>v. relay_child [7, 0] [7] pty_io pty_world = (Ret (True, pty_io\<lparr>master_buf := ''s''\<rparr>), v)
    \<and> written 1 (trace v) = ''ok'' \<and> written 7 (trace v) = ''l''"
proof -
  let ?v = "snd (relay_child [7, 0] [7] pty_io pty_world)"
  have run: "relay_child [7, 0] [7] pty_io pty_world = (Ret (True, pty_io\<lparr>master_buf := ''s''\<rparr>), ?v)"
    and c: "write_contract (trace ?v)" and r: "received 7 (trace ?v) = ''ok''" and t: "typed 0 (trace ?v) = []"
    by (simp_all add: relay_child_def read_child_err_def read_child_out_def write_child_in_def read_tty_in_def
        read_retry_def xwrite_all_def write_loop_def write_retry_def set_par_def fds_isset_def pty_io_def
        pty_world_def run_defs start_def rep_def numeral_eq_Suc write_contract_def)
  from child_io_exact [OF run _ _ c] r t have "written 1 (trace ?v) = ''ok'' \<and> written 7 (trace ?v) = ''l''"
    by (auto simp: pty_io_def pty_world_def carried_def carried_in_def start_def)
  with run show ?thesis by blast
qed

end
