(* ===== verification/X11_Io.thy ===== *)
theory X11_Io
  imports Child_Io
begin

text \<open>
  An X11 connection: what the X server and the client are sent is what they sent each other, but
  for the cookie in the client's first packet.
\<close>

subsection \<open>The bytes of a connection\<close>

text \<open>What the parent makes of the bytes \<open>s\<close> that it reads from a client.\<close>

definition x_passed :: "globals \<Rightarrow> io_x11 \<Rightarrow> string \<Rightarrow> string" where
  "x_passed g io s =
     (if authenticated io \<or> s = [] then s
      else case auth_packet (unat (x11_data_len (cf g))) (case x11_saved_data (par g) of None \<Rightarrow> [] | Some d \<Rightarrow> d)
                  (case x11_fake_data (par g) of None \<Rightarrow> [] | Some d \<Rightarrow> d) s of
             Inl _ \<Rightarrow> s
           | Inr p \<Rightarrow> p)"

text \<open>The connection in the slot \<open>i\<close> becomes \<open>x\<close> and nothing else changes.\<close>

definition slot_set :: "nat \<Rightarrow> io_x11 option \<Rightarrow> world \<Rightarrow> world \<Rightarrow> bool" where
  "slot_set i x w v \<longleftrightarrow> gl v = par_update (io_x11_list_update (\<lambda>l. l[i := x])) (gl w)"

text \<open>
  \<open>x_step i io x w v m_in s_in s_out\<close>: the connection \<open>io\<close> in the slot \<open>i\<close> becomes \<open>x\<close> (\<open>None\<close> if it is
  closed); \<open>m_in\<close> has been read from the server, \<open>s_in\<close> from the client, and what has been written
  to either, followed by what is left for it, is what had been and was left before, followed
  by \<open>m_in\<close> and \<open>s_out\<close>; no other descriptor has been read or written.
\<close>

definition x_step ::
    "nat \<Rightarrow> io_x11 \<Rightarrow> io_x11 option \<Rightarrow> world \<Rightarrow> world \<Rightarrow> string \<Rightarrow> string \<Rightarrow> string \<Rightarrow> bool" where
  "x_step i io x w v m_in s_in s_out \<longleftrightarrow>
     received (x_master_fd io) (trace v) = received (x_master_fd io) (trace w) @ m_in
   \<and> received (x_slave_fd io) (trace v) = received (x_slave_fd io) (trace w) @ s_in
   \<and> (\<exists>m_left s_left.
        written (x_slave_fd io) (trace v) @ m_left = written (x_slave_fd io) (trace w) @ x_master_buf io @ m_in
      \<and> written (x_master_fd io) (trace v) @ s_left = written (x_master_fd io) (trace w) @ x_slave_buf io @ s_out
      \<and> (case x of None \<Rightarrow> True
         | Some io' \<Rightarrow> x_master_buf io' = m_left \<and> x_slave_buf io' = s_left
             \<and> x_master_fd io' = x_master_fd io \<and> x_slave_fd io' = x_slave_fd io))
   \<and> (\<forall>k. k \<noteq> x_master_fd io \<and> k \<noteq> x_slave_fd io \<longrightarrow>
        received k (trace v) = received k (trace w) \<and> written k (trace v) = written k (trace w))
   \<and> slot_set i x w v"

lemma x_step_trans:
  assumes "x_step i io (Some io1) w u m1 s1 o1" and "x_step i io1 x u v m2 s2 o2"
  shows "x_step i io x w v (m1 @ m2) (s1 @ s2) (o1 @ o2)"
proof -
  have fds: "x_master_fd io1 = x_master_fd io" "x_slave_fd io1 = x_slave_fd io"
    and first: "written (x_slave_fd io) (trace u) @ x_master_buf io1 = written (x_slave_fd io) (trace w) @ x_master_buf io @ m1"
      "written (x_master_fd io) (trace u) @ x_slave_buf io1 = written (x_master_fd io) (trace w) @ x_slave_buf io @ o1"
    using assms(1) by (auto simp: x_step_def)
  obtain ml sl where second: "written (x_slave_fd io) (trace v) @ ml = written (x_slave_fd io) (trace u) @ x_master_buf io1 @ m2"
      "written (x_master_fd io) (trace v) @ sl = written (x_master_fd io) (trace u) @ x_slave_buf io1 @ o2"
    and left: "case x of None \<Rightarrow> True | Some io' \<Rightarrow> x_master_buf io' = ml \<and> x_slave_buf io' = sl
      \<and> x_master_fd io' = x_master_fd io \<and> x_slave_fd io' = x_slave_fd io"
    using assms(2) unfolding x_step_def fds by blast
  have "written (x_slave_fd io) (trace v) @ ml = written (x_slave_fd io) (trace w) @ x_master_buf io @ m1 @ m2"
    "written (x_master_fd io) (trace v) @ sl = written (x_master_fd io) (trace w) @ x_slave_buf io @ o1 @ o2"
    using first second by (metis append_assoc)+
  then have out: "\<exists>m_left s_left.
        written (x_slave_fd io) (trace v) @ m_left = written (x_slave_fd io) (trace w) @ x_master_buf io @ m1 @ m2
      \<and> written (x_master_fd io) (trace v) @ s_left = written (x_master_fd io) (trace w) @ x_slave_buf io @ o1 @ o2
      \<and> (case x of None \<Rightarrow> True
         | Some io' \<Rightarrow> x_master_buf io' = m_left \<and> x_slave_buf io' = s_left
             \<and> x_master_fd io' = x_master_fd io \<and> x_slave_fd io' = x_slave_fd io)"
    using left by blast
  show ?thesis
    unfolding x_step_def
  proof (intro conjI out)
    show "received (x_master_fd io) (trace v) = received (x_master_fd io) (trace w) @ m1 @ m2"
      "received (x_slave_fd io) (trace v) = received (x_slave_fd io) (trace w) @ s1 @ s2"
      using assms by (simp_all add: x_step_def fds)
    show "\<forall>k. k \<noteq> x_master_fd io \<and> k \<noteq> x_slave_fd io \<longrightarrow>
        received k (trace v) = received k (trace w) \<and> written k (trace v) = written k (trace w)"
      using assms by (simp add: x_step_def fds)
    show "slot_set i x w v" using assms by (simp add: x_step_def slot_set_def comp_def)
  qed
qed

subsection \<open>The steps\<close>

lemma store_io_sets:
  "i < length (io_x11_list (par (gl w))) \<Longrightarrow> pc (store_io i x) (\<lambda>_ v. slot_set i x w v \<and> trace v = trace w) w"
  by (simp add: store_io_def set_par_def slot_set_def put_slot_def wp_simps)

lemma close_fd_silent:
  "pc (close_fd fd) (\<lambda>_ v. gl v = gl w \<and> (write_contract (trace v) \<longrightarrow> write_contract (trace w))
     \<and> (\<forall>k. received k (trace v) = received k (trace w) \<and> written k (trace v) = written k (trace w))) w"
  by (auto simp: close_fd_def xclose_def wp_simps write_contract_def split: list.split)

lemma free_step:
  assumes "i < length (io_x11_list (par (gl w)))"
  shows "pc (io_x11_free i io) (\<lambda>_ v. slot_set i None w v \<and> (write_contract (trace v) \<longrightarrow> write_contract (trace w))
    \<and> (\<forall>k. received k (trace v) = received k (trace w) \<and> written k (trace v) = written k (trace w))) w"
  unfolding io_x11_free_def
  by (rule pc_comb(2), rule pc_conseq [OF store_io_sets [OF assms]], rule pc_comb(2), rule pc_conseq [OF close_fd_silent],
      rule pc_conseq [OF close_fd_silent]) (simp add: slot_set_def)

text \<open>The connection of a slot is what is stored there.\<close>

definition slot_is :: "nat \<Rightarrow> io_x11 \<Rightarrow> world \<Rightarrow> bool" where
  "slot_is i io w \<longleftrightarrow> i < length (io_x11_list (par (gl w))) \<and> io_x11_list (par (gl w)) ! i = Some io"

lemma slot_kept: "slot_is i io w \<Longrightarrow> gl v = gl w \<Longrightarrow> slot_set i (Some io) w v"
proof -
  assume slot: "slot_is i io w" and gl: "gl v = gl w"
  have p: "io_x11_list_update (\<lambda>l. l[i := Some io]) p = p" if "(io_x11_list p)[i := Some io] = io_x11_list p" for p :: parent_state
    using that by (cases p) simp
  have "(io_x11_list (par (gl w)))[i := Some io] = io_x11_list (par (gl w))"
    using slot by (simp add: slot_is_def list_update_same_conv)
  from p [OF this] have "par_update (io_x11_list_update (\<lambda>l. l[i := Some io])) (gl w) = gl w"
    by (cases "gl w") simp
  with gl show ?thesis by (simp add: slot_set_def)
qed

lemma step_slot: "x_step i io (Some io') w v a b c \<Longrightarrow> slot_is i io w \<Longrightarrow> slot_is i io' v"
  by (simp add: x_step_def slot_set_def slot_is_def)

lemma step_nothing: "slot_is i io w \<Longrightarrow> x_step i io (Some io) w w [] [] []"
  using slot_kept [of i io w w] by (simp add: x_step_def)

text \<open>Writing the first \<open>k\<close> bytes of a buffer, and reading into an empty one.\<close>

lemma step_written:
  assumes "\<forall>j. received j (trace v) = received j (trace w)" and "slot_set i x w v"
    and "x_master_fd io \<noteq> x_slave_fd io"
  shows "\<lbrakk>\<forall>j. j \<noteq> x_slave_fd io \<longrightarrow> written j (trace v) = written j (trace w);
      written (x_slave_fd io) (trace v) = written (x_slave_fd io) (trace w) @ take k (x_master_buf io);
      x = None \<or> x = Some (io\<lparr>x_master_buf := drop k (x_master_buf io)\<rparr>)\<rbrakk> \<Longrightarrow> x_step i io x w v [] [] []"
    and "\<lbrakk>\<forall>j. j \<noteq> x_master_fd io \<longrightarrow> written j (trace v) = written j (trace w);
      written (x_master_fd io) (trace v) = written (x_master_fd io) (trace w) @ take k (x_slave_buf io);
      x = None \<or> x = Some (io\<lparr>x_slave_buf := drop k (x_slave_buf io)\<rparr>)\<rbrakk> \<Longrightarrow> x_step i io x w v [] [] []"
proof -
  show "x_step i io x w v [] [] []"
    if "\<forall>j. j \<noteq> x_slave_fd io \<longrightarrow> written j (trace v) = written j (trace w)"
      "written (x_slave_fd io) (trace v) = written (x_slave_fd io) (trace w) @ take k (x_master_buf io)"
      "x = None \<or> x = Some (io\<lparr>x_master_buf := drop k (x_master_buf io)\<rparr>)"
    unfolding x_step_def using assms that
    by (intro conjI exI [of _ "drop k (x_master_buf io)"] exI [of _ "x_slave_buf io"]) auto
  show "x_step i io x w v [] [] []"
    if "\<forall>j. j \<noteq> x_master_fd io \<longrightarrow> written j (trace v) = written j (trace w)"
      "written (x_master_fd io) (trace v) = written (x_master_fd io) (trace w) @ take k (x_slave_buf io)"
      "x = None \<or> x = Some (io\<lparr>x_slave_buf := drop k (x_slave_buf io)\<rparr>)"
    unfolding x_step_def using assms that
    by (intro conjI exI [of _ "x_master_buf io"] exI [of _ "drop k (x_slave_buf io)"]) auto
qed

lemma step_read:
  assumes "\<forall>j. written j (trace v) = written j (trace w)" and "slot_set i x w v"
    and "x_master_fd io \<noteq> x_slave_fd io"
  shows "\<lbrakk>\<forall>j. j \<noteq> x_master_fd io \<longrightarrow> received j (trace v) = received j (trace w);
      received (x_master_fd io) (trace v) = received (x_master_fd io) (trace w) @ s; x_master_buf io = [];
      x = None \<or> x = Some (io\<lparr>x_master_buf := s\<rparr>)\<rbrakk> \<Longrightarrow> x_step i io x w v s [] []"
    and "\<lbrakk>\<forall>j. j \<noteq> x_slave_fd io \<longrightarrow> received j (trace v) = received j (trace w);
      received (x_slave_fd io) (trace v) = received (x_slave_fd io) (trace w) @ s; x_slave_buf io = [];
      x = None \<or> (\<exists>a. x = Some (io\<lparr>x_slave_buf := s', authenticated := a\<rparr>))\<rbrakk> \<Longrightarrow> x_step i io x w v [] s s'"
proof -
  show "x_step i io x w v s [] []"
    if "\<forall>j. j \<noteq> x_master_fd io \<longrightarrow> received j (trace v) = received j (trace w)"
      "received (x_master_fd io) (trace v) = received (x_master_fd io) (trace w) @ s" "x_master_buf io = []"
      "x = None \<or> x = Some (io\<lparr>x_master_buf := s\<rparr>)"
    unfolding x_step_def using assms that
    by (intro conjI exI [of _ s] exI [of _ "x_slave_buf io"]) auto
  show "x_step i io x w v [] s s'"
    if "\<forall>j. j \<noteq> x_slave_fd io \<longrightarrow> received j (trace v) = received j (trace w)"
      "received (x_slave_fd io) (trace v) = received (x_slave_fd io) (trace w) @ s" "x_slave_buf io = []"
      "x = None \<or> (\<exists>a. x = Some (io\<lparr>x_slave_buf := s', authenticated := a\<rparr>))"
    unfolding x_step_def using assms that
    by (intro conjI exI [of _ "x_master_buf io"] exI [of _ s']) auto
qed

abbreviation same_auth :: "io_x11 \<Rightarrow> io_x11 option \<Rightarrow> bool" where
  "same_auth io x \<equiv> \<forall>io'. x = Some io' \<longrightarrow> authenticated io' = authenticated io"

lemma x_emits:
  "emits (\<lambda>_. True) (flush_master fds i io)" "emits (\<lambda>_. True) (flush_slave fds i io)"
  "emits (\<lambda>_. True) (fill_master fds i io)" "emits (\<lambda>_. True) (fill_slave fds i io)"
  unfolding flush_master_def flush_slave_def fill_master_def fill_slave_def io_check_auth_data_def io_x11_free_def
    close_fd_def xclose_def store_io_def set_par_def read_retry_def write_loop_def write_retry_def Let_def
  by (intro inv_intros; simp)+

lemma flush_master_step:
  assumes "slot_is i io w" and "x_master_fd io \<noteq> x_slave_fd io"
  shows "pc (flush_master fds i io) (\<lambda>x v. write_contract (trace v) \<longrightarrow> write_contract (trace w)
     \<and> x_step i io x w v [] [] [] \<and> same_auth io x) w"
proof (rule contract_back [OF x_emits(1)])
  have slot: "i < length (io_x11_list (par (gl u)))" if "gl u = gl w" for u
    using assms(1) that by (simp add: slot_is_def)
  show "pc (flush_master fds i io) (\<lambda>x v. write_contract (trace v) \<longrightarrow> x_step i io x w v [] [] [] \<and> same_auth io x) w"
    unfolding flush_master_def Let_def
    apply (rule pc_comb(7))
     apply (rule pc_comb(1), rule pc_conseq [OF write_gives], rule pc_comb(7))
      apply (rule pc_comb(2), rule pc_conseq [OF free_step [OF slot]], simp, rule pc_comb(3))
    subgoal premises p for n u y v
    proof -
      have "slot_set i None w v" using p by (simp add: slot_set_def)
      with p assms(2) show ?thesis by (auto intro!: step_written(1) [where k = 0])
    qed
     apply (rule pc_comb(2), rule pc_conseq [OF store_io_sets [OF slot]], simp, rule pc_comb(3))
    subgoal premises p for n u y v
    proof -
      let ?io = "io\<lparr>x_master_buf := drop (nat n) (x_master_buf io)\<rparr>"
      have "slot_set i (Some ?io) w v" using p by (simp add: slot_set_def)
      with p assms(2) show ?thesis by (auto intro!: step_written(1) [where k = "nat n"])
    qed
    apply (rule pc_comb(3), simp add: step_nothing [OF assms(1)])
    done
qed

lemma flush_slave_step:
  assumes "slot_is i io w" and "x_master_fd io \<noteq> x_slave_fd io"
  shows "pc (flush_slave fds i io) (\<lambda>x v. write_contract (trace v) \<longrightarrow> write_contract (trace w)
     \<and> x_step i io x w v [] [] [] \<and> same_auth io x) w"
proof (rule contract_back [OF x_emits(2)])
  have slot: "i < length (io_x11_list (par (gl u)))" if "gl u = gl w" for u
    using assms(1) that by (simp add: slot_is_def)
  show "pc (flush_slave fds i io) (\<lambda>x v. write_contract (trace v) \<longrightarrow> x_step i io x w v [] [] [] \<and> same_auth io x) w"
    unfolding flush_slave_def Let_def
    apply (rule pc_comb(7))
     apply (rule pc_comb(1), rule pc_conseq [OF write_gives], rule pc_comb(7))
      apply (rule pc_comb(2), rule pc_conseq [OF free_step [OF slot]], simp, rule pc_comb(3))
    subgoal premises p for n u y v
    proof -
      have "slot_set i None w v" using p by (simp add: slot_set_def)
      with p assms(2) show ?thesis by (auto intro!: step_written(2) [where k = 0])
    qed
     apply (rule pc_comb(2), rule pc_conseq [OF store_io_sets [OF slot]], simp, rule pc_comb(3))
    subgoal premises p for n u y v
    proof -
      let ?io = "io\<lparr>x_slave_buf := drop (nat n) (x_slave_buf io)\<rparr>"
      have "slot_set i (Some ?io) w v" using p by (simp add: slot_set_def)
      with p assms(2) show ?thesis by (auto intro!: step_written(2) [where k = "nat n"])
    qed
    apply (rule pc_comb(3), simp add: step_nothing [OF assms(1)])
    done
qed

lemma fill_master_step:
  assumes "slot_is i io w" and "x_master_fd io \<noteq> x_slave_fd io"
  shows "pc (fill_master fds i io) (\<lambda>x v. write_contract (trace v) \<longrightarrow> write_contract (trace w)
     \<and> (\<exists>s. x_step i io x w v s [] []) \<and> same_auth io x) w"
proof (rule contract_back [OF x_emits(3)])
  have slot: "i < length (io_x11_list (par (gl u)))" if "gl u = gl w" for u
    using assms(1) that by (simp add: slot_is_def)
  show "pc (fill_master fds i io) (\<lambda>x v. write_contract (trace v) \<longrightarrow> (\<exists>s. x_step i io x w v s [] []) \<and> same_auth io x) w"
    unfolding fill_master_def Let_def
    apply (rule pc_comb(7))
     apply (rule pc_comb(1), rule pc_conseq [OF read_gives], rule pc_comb(7))
      apply (rule pc_comb(2), rule pc_conseq [OF free_step [OF slot]], simp, rule pc_comb(3))
    subgoal premises p for r u y v
    proof -
      have "slot_set i None w v" using p by (simp add: slot_set_def)
      with p assms(2) show ?thesis by (auto intro!: exI [of _ "[]"] step_read(1))
    qed
     apply (rule pc_comb(2), rule pc_conseq [OF store_io_sets [OF slot]], simp, rule pc_comb(3))
    subgoal premises p for r u y v
    proof -
      let ?s = "take (nat (r_ret r)) (r_buf r)"
      have "slot_set i (Some (io\<lparr>x_master_buf := ?s\<rparr>)) w v" using p by (simp add: slot_set_def)
      with p assms(2) show ?thesis by (auto intro!: exI [of _ ?s] step_read(1))
    qed
    apply (rule pc_comb(3), use step_nothing [OF assms(1)] in auto)
    done
qed

lemma check_auth_data_pc:
  "pc (io_check_auth_data (io\<lparr>x_slave_buf := s\<rparr>))
    (\<lambda>io' v. gl v = gl w \<and> io' = io\<lparr>x_slave_buf := x_passed (gl w) io s, authenticated := True\<rparr>
       \<and> (write_contract (trace v) \<longrightarrow> write_contract (trace w))
       \<and> (\<forall>k. received k (trace v) = received k (trace w) \<and> written k (trace v) = written k (trace w))) w"
  unfolding io_check_auth_data_def
  by (auto simp: wp_simps Let_def x_passed_def auth_packet_def logged_def write_contract_def split: sum.split option.split)

lemma fill_slave_step:
  assumes "slot_is i io w" and "x_master_fd io \<noteq> x_slave_fd io"
  shows "pc (fill_slave fds i io) (\<lambda>x v. write_contract (trace v) \<longrightarrow> write_contract (trace w)
     \<and> (\<exists>s. x_step i io x w v [] s (x_passed (gl w) io s)
          \<and> (\<forall>io'. x = Some io' \<longrightarrow> authenticated io \<or> s \<noteq> [] \<longrightarrow> authenticated io'))) w"
proof (rule contract_back [OF x_emits(4)])
  have slot: "i < length (io_x11_list (par (gl u)))" if "gl u = gl w" for u
    using assms(1) that by (simp add: slot_is_def)
  show "pc (fill_slave fds i io) (\<lambda>x v. write_contract (trace v) \<longrightarrow> (\<exists>s. x_step i io x w v [] s (x_passed (gl w) io s)
          \<and> (\<forall>io'. x = Some io' \<longrightarrow> authenticated io \<or> s \<noteq> [] \<longrightarrow> authenticated io'))) w"
    unfolding fill_slave_def Let_def
    apply (rule pc_comb(7))
     apply (rule pc_comb(1), rule pc_conseq [OF read_gives], rule pc_comb(7))
      apply (rule pc_comb(2), rule pc_conseq [OF free_step [OF slot]], simp, rule pc_comb(3))
    subgoal premises p for r u y v
    proof -
      have "slot_set i None w v" using p by (simp add: slot_set_def)
      with p assms(2) show ?thesis by (auto simp: x_passed_def intro!: exI [of _ "[]"] step_read(2))
    qed
     apply (rule pc_comb(1), rule pc_conseq [OF check_auth_data_pc])
     apply (rule pc_comb(2), rule pc_conseq [OF store_io_sets [OF slot]], simp, rule pc_comb(3))
    subgoal premises p for r u io' z y v
    proof -
      let ?s = "take (nat (r_ret r)) (r_buf r)"
      let ?io = "io\<lparr>x_slave_buf := x_passed (gl w) io ?s, authenticated := True\<rparr>"
      have "slot_set i (Some ?io) w v" using p by (simp add: slot_set_def)
      with p assms(2) show ?thesis by (auto intro!: exI [of _ ?s] step_read(2))
    qed
    apply (rule pc_comb(3), use step_nothing [OF assms(1)] in \<open>auto simp: x_passed_def\<close>)
    done
qed

subsection \<open>A round of a connection\<close>

text \<open>\<open>fills i f\<close>: whatever connection is in the slot, \<open>f\<close> only moves bytes from the server on.\<close>

definition fills :: "nat \<Rightarrow> (io_x11 \<Rightarrow> io_x11 option m) \<Rightarrow> bool" where
  "fills i f \<longleftrightarrow> (\<forall>io. emits (\<lambda>_. True) (f io)) \<and> (\<forall>io w. slot_is i io w \<longrightarrow> x_master_fd io \<noteq> x_slave_fd io \<longrightarrow>
     pc (f io) (\<lambda>x v. write_contract (trace v) \<longrightarrow> (\<exists>s. x_step i io x w v s [] []) \<and> same_auth io x) w)"

lemma fills_steps: "fills i (flush_master fds i)" "fills i (flush_slave fds i)" "fills i (fill_master fds i)"
proof -
  show "fills i (flush_master fds i)"
    unfolding fills_def by (auto intro!: x_emits elim!: pc_conseq [OF flush_master_step])
  show "fills i (flush_slave fds i)"
    unfolding fills_def by (auto intro!: x_emits elim!: pc_conseq [OF flush_slave_step])
  show "fills i (fill_master fds i)"
    unfolding fills_def by (auto intro!: x_emits elim!: pc_conseq [OF fill_master_step])
qed

lemma step_fds: "x_step i io (Some io') w v a b c \<Longrightarrow> x_master_fd io' = x_master_fd io \<and> x_slave_fd io' = x_slave_fd io"
  by (auto simp: x_step_def)

text \<open>What is shown only of traces that keep the contract may be assumed of the trace before.\<close>

lemma pc_contract:
  assumes "emits C m" and "write_contract (trace u) \<Longrightarrow> pc m (\<lambda>x v. write_contract (trace v) \<longrightarrow> Q x v) u"
  shows "pc m (\<lambda>x v. write_contract (trace v) \<longrightarrow> Q x v) u"
proof (cases "write_contract (trace u)")
  case False
  have "pc m (\<lambda>x v. write_contract (trace v) \<longrightarrow> write_contract (trace u) \<and> True) u"
    by (rule contract_back [OF assms(1)]) (rule pc_any, simp)
  then show ?thesis by (rule pc_conseq) (use False in blast)
qed (rule assms(2))

lemma fills_then:
  assumes "fills i f" and "fills i h"
  shows "fills i (\<lambda>io. and_then (f io) h)"
proof -
  have "pc (and_then (f io) h) (\<lambda>x v. write_contract (trace v) \<longrightarrow> (\<exists>s. x_step i io x w v s [] []) \<and> same_auth io x) w"
    if io: "slot_is i io w" "x_master_fd io \<noteq> x_slave_fd io" for io and w :: world
  proof -
    have rest: "pc (h io1) (\<lambda>x v. write_contract (trace v) \<longrightarrow> (\<exists>s. x_step i io x w v s [] []) \<and> same_auth io x) u"
      if u: "write_contract (trace u) \<longrightarrow> (\<exists>s. x_step i io (Some io1) w u s [] []) \<and> same_auth io (Some io1)" for io1 u
    proof (rule pc_contract)
      show "emits (\<lambda>_. True) (h io1)" using assms(2) by (simp add: fills_def)
      assume "write_contract (trace u)"
      with u obtain s where s: "x_step i io (Some io1) w u s [] []" and a: "authenticated io1 = authenticated io" by auto
      have "slot_is i io1 u" "x_master_fd io1 \<noteq> x_slave_fd io1"
        using step_slot [OF s io(1)] step_fds [OF s] io(2) by auto
      with assms(2) have "pc (h io1) (\<lambda>x v. write_contract (trace v) \<longrightarrow> (\<exists>s. x_step i io1 x u v s [] []) \<and> same_auth io1 x) u"
        by (simp add: fills_def)
      then show "pc (h io1) (\<lambda>x v. write_contract (trace v) \<longrightarrow> (\<exists>s. x_step i io x w v s [] []) \<and> same_auth io x) u"
        by (rule pc_conseq) (use x_step_trans [OF s] a in fastforce)
    qed
    show ?thesis
      unfolding and_then_def
      by (rule pc_comb(1), rule pc_conseq [OF assms(1) [unfolded fills_def, THEN conjunct2, rule_format, OF io]], rule pc_cases(1))
        (rule pc_comb(3), simp, rule rest, simp)
  qed
  moreover have "emits (\<lambda>_. True) (and_then (f io) h)" for io
    using assms unfolding and_then_def fills_def by (intro em.bnd) (auto intro!: inv_intros split: option.split)
  ultimately show ?thesis by (simp add: fills_def)
qed

lemma x_passed_kept: "x_step i io (Some io') w u a b c \<Longrightarrow> authenticated io' = authenticated io \<Longrightarrow> x_passed (gl u) io' = x_passed (gl w) io"
  by (simp add: x_passed_def x_step_def slot_set_def fun_eq_iff)

lemma relay_step:
  assumes io: "slot_is i io w" "x_master_fd io \<noteq> x_slave_fd io"
  shows "pc (x11_relay rfds wfds i) (\<lambda>_ v. write_contract (trace v) \<longrightarrow>
     (\<exists>x m_in s_in. x_step i io x w v m_in s_in (x_passed (gl w) io s_in)
        \<and> (\<forall>io'. x = Some io' \<longrightarrow> authenticated io \<or> s_in \<noteq> [] \<longrightarrow> authenticated io'))) w"
    (is "pc _ (\<lambda>_ v. _ \<longrightarrow> ?Q v) w")
proof -
  let ?f = "\<lambda>io. and_then (and_then (flush_master wfds i io) (fill_master rfds i)) (flush_slave wfds i)"
  have f: "fills i ?f" by (intro fills_then fills_steps)
  have rest: "pc (fill_slave rfds i io1) (\<lambda>_ v. write_contract (trace v) \<longrightarrow> ?Q v) u"
    if u: "write_contract (trace u) \<longrightarrow> (\<exists>s. x_step i io (Some io1) w u s [] []) \<and> same_auth io (Some io1)" for io1 u
  proof (rule pc_contract [OF x_emits(4)])
    assume "write_contract (trace u)"
    with u obtain s where s: "x_step i io (Some io1) w u s [] []" and a: "authenticated io1 = authenticated io" by auto
    have "slot_is i io1 u" "x_master_fd io1 \<noteq> x_slave_fd io1"
      using step_slot [OF s io(1)] step_fds [OF s] io(2) by auto
    from fill_slave_step [OF this, of rfds]
    show "pc (fill_slave rfds i io1) (\<lambda>_ v. write_contract (trace v) \<longrightarrow> ?Q v) u"
      by (rule pc_conseq) (use x_step_trans [OF s] a x_passed_kept [OF s a] in fastforce)
  qed
  have all: "pc (and_then (?f io) (fill_slave rfds i)) (\<lambda>_ v. write_contract (trace v) \<longrightarrow> ?Q v) w"
    unfolding and_then_def [of "?f io"]
    apply (rule pc_comb(1), rule pc_conseq [OF f [unfolded fills_def, THEN conjunct2, rule_format, OF io]], rule pc_cases(1))
     apply (rule pc_comb(3))
     subgoal premises p for x u
       using p by (auto simp: x_passed_def intro: exI [of _ "[]"])
    apply (rule rest, simp)
    done
  show ?thesis
    unfolding x11_relay_def
    apply (rule pc_comb(1), rule pc_comb(4), rule pc_cases(1))
     apply (use io(1) in \<open>simp add: slot_is_def\<close>)
    subgoal premises p for io1
    proof -
      have "io1 = io" using p io(1) by (simp add: slot_is_def)
      then show ?thesis by (auto intro!: pc_comb(1) pc_comb(3) pc_conseq [OF all])
    qed
    done
qed

subsection \<open>The property\<close>

text \<open>
  C15: a round of relaying between the X server and a client loses, invents and reorders no byte,
  however the kernel cuts up the reads and writes, also when the connection is closed in it:
  what has been written to the client and is left for it is what had been and was left before,
  followed by what has been read from the server; likewise in the other direction, where the
  first bytes of a client that has not been authenticated yet are replaced by what the check of
  its cookie makes of them (\<open>x_passed\<close>), and from then on the client counts as authenticated, so
  that this is done once. No other descriptor is read or written, and no other connection changed.
\<close>

theorem x11_relay_exact:
  assumes "x11_relay rfds wfds i w = (Ret (), v)" and "write_contract (trace v)"
    and "i < length (io_x11_list (par (gl w)))" and "io_x11_list (par (gl w)) ! i = Some io"
    and "x_master_fd io \<noteq> x_slave_fd io"
  shows "\<exists>x m_in s_in. x_step i io x w v m_in s_in (x_passed (gl w) io s_in)
    \<and> (\<forall>io'. x = Some io' \<longrightarrow> authenticated io \<or> s_in \<noteq> [] \<longrightarrow> authenticated io')"
proof -
  have "slot_is i io w" using assms(3,4) by (simp add: slot_is_def)
  from pcD [OF relay_step [OF this assms(5)] assms(1)] assms(2) show ?thesis by blast
qed

text \<open>A client on descriptor 8 sends its first packet with the fake cookie.\<close>

definition x11_demo :: world where
  "x11_demo =
     start (globals_init\<lparr>cf := conf_init\<lparr>x11_data_len := 4\<rparr>,
              par := parent_state_init\<lparr>x11_saved_data := Some ''real'', x11_fake_data := Some ''fake'',
                       io_x11_list := [None, Some \<lparr>x_master_fd = 7, x_slave_fd = 8, x_master_buf = ''hello'', x_slave_buf = [],
                                                  authenticated = False\<rparr>]\<rparr>\<rparr>) []
       [rep 3, rep 0, (rep 20)\<lparr>r_buf := demo_packet ''fake''\<rparr>]"

theorem x11_relay_exact_witness:
  "\<exists>v. x11_relay [8] [8] 1 x11_demo = (Ret (), v) \<and> written 8 (trace v) = ''hel''
    \<and> io_x11_list (par (gl v)) ! 1 = Some \<lparr>x_master_fd = 7, x_slave_fd = 8, x_master_buf = ''lo'',
          x_slave_buf = demo_packet ''real'', authenticated = True\<rparr>"
proof -
  let ?io = "\<lparr>x_master_fd = 7, x_slave_fd = 8, x_master_buf = ''hello'', x_slave_buf = [], authenticated = False\<rparr>"
  let ?io' = "\<lparr>x_master_fd = 7, x_slave_fd = 8, x_master_buf = ''lo'', x_slave_buf = demo_packet ''real'', authenticated = True\<rparr>"
  let ?t = "[(Fd (Read 8 BUFSIZ), (rep 20)\<lparr>r_buf := demo_packet ''fake''\<rparr>), (Fd (Write 8 ''lo''), rep 0), (Fd (Write 8 ''hello''), rep 3)]"
  have "case x11_relay [8] [8] 1 x11_demo of (out, v) \<Rightarrow> out = Ret () \<and> trace v = ?t
      \<and> io_x11_list (par (gl v)) ! 1 = Some ?io'"
    by code_simp
  then obtain v where run: "x11_relay [8] [8] 1 x11_demo = (Ret (), v)" and t: "trace v = ?t"
    and slot: "io_x11_list (par (gl v)) ! 1 = Some ?io'"
    by (auto split: prod.splits)
  have "write_contract (trace v)" unfolding t write_contract_def by (auto simp: rep_def)
  from x11_relay_exact [OF run this, of ?io]
  obtain x m_in s_in where x: "x_step 1 ?io x x11_demo v m_in s_in (x_passed (gl x11_demo) ?io s_in)"
    by (auto simp: x11_demo_def start_def)
  have empty: "trace x11_demo = []" and two: "length (io_x11_list (par (gl x11_demo))) = 2"
    by (simp_all add: x11_demo_def start_def)
  have "slot_set 1 x x11_demo v" using x by (simp add: x_step_def)
  then have "x = Some ?io'" using slot two by (simp add: slot_set_def)
  moreover have "received 7 (trace v) = received 7 (trace x11_demo) @ m_in" using x by (simp add: x_step_def)
  then have "m_in = []" by (simp add: t empty)
  ultimately have "written 8 (trace v) @ ''lo'' = ''hello''"
    using x unfolding x_step_def by (elim conjE exE) (simp add: empty)
  moreover have "''hello'' = ''hel'' @ ''lo''" by simp
  ultimately have "written 8 (trace v) = ''hel''" by (metis append_same_eq)
  with run slot show ?thesis by blast
qed

end
