(* ===== verification/Xmalloc.thy ===== *)
theory Xmalloc
  imports Monad_Logic
begin

text \<open>
  The allocation wrappers of xmalloc.c: they return memory or end the program. A pointer is
  the number that the call returned, the null pointer is 0; the size asked for is in the call.
\<close>

definition die_out_of_memory :: "'a m" where
  "die_out_of_memory = error_msg_and_die ''Out of memory''"

definition checked :: "nat \<Rightarrow> int m" where
  "checked bytes = bnd (sys_mi (Malloc bytes)) (\<lambda>p. if r_ret p = 0 then die_out_of_memory else ret (r_ret p))"

definition xmalloc :: "u64 \<Rightarrow> int m" where
  "xmalloc sz = checked (unat sz)"

text \<open>\<open>calloc\<close> checks the product itself.\<close>

definition xcalloc :: "u64 \<Rightarrow> u64 \<Rightarrow> int m" where
  "xcalloc nmemb sz = checked (unat nmemb * unat sz)"

definition HALF_SIZE_T :: u64 where "HALF_SIZE_T = push_bit 32 1"

definition xreallocarray :: "u64 \<Rightarrow> u64 \<Rightarrow> int m" where
  "xreallocarray nmemb sz =
     (let bytes = nmemb * sz in
      if HALF_SIZE_T \<le> (nmemb OR sz) \<and> sz \<noteq> 0 \<and> bytes div sz \<noteq> nmemb then die_out_of_memory
      else checked (unat bytes))"

definition xzalloc :: "u64 \<Rightarrow> int m" where
  "xzalloc sz = xcalloc 1 sz"

definition xrealloc :: "u64 \<Rightarrow> int m" where
  "xrealloc sz = xreallocarray 1 sz"

definition DEFAULT_ALLOC_SIZE :: u64 where "DEFAULT_ALLOC_SIZE = 64 * 8 div 4"

text \<open>The result is the pointer and the new value of \<open>*nmemb\<close>.\<close>

definition xgrowarray :: "bool \<Rightarrow> u64 \<Rightarrow> u64 \<Rightarrow> (int \<times> u64) m" where
  "xgrowarray is_null nmemb memb_size =
     (let grow_memb = (if is_null
                       then (if nmemb \<noteq> 0 then 0 else (DEFAULT_ALLOC_SIZE + memb_size - 1) div memb_size)
                       else drop_bit 1 nmemb + 1) in
      if nmemb + grow_memb < nmemb then die_out_of_memory
      else bnd (xreallocarray (nmemb + grow_memb) memb_size) (\<lambda>p. ret (p, nmemb + grow_memb)))"

definition xstrdup :: "string option \<Rightarrow> string option m" where
  "xstrdup str =
     (case str of None \<Rightarrow> ret None
      | Some s \<Rightarrow> bnd (checked (length s + 1)) (\<lambda>_. ret (Some s)))"

definition xasprintf :: "string \<Rightarrow> string m" where
  "xasprintf s = bnd (checked (length s + 1)) (\<lambda>_. ret s)"

subsection \<open>Products do not wrap around\<close>

lemma or_below: "(n :: u64) OR s < HALF_SIZE_T \<Longrightarrow> unat n < 2 ^ 32 \<and> unat s < 2 ^ 32"
proof -
  assume o: "n OR s < HALF_SIZE_T"
  have up: "a \<le> a OR b" for a b :: u64 by (simp add: word_le_def unsigned_or_eq or_greater_eq)
  have "n \<le> n OR s" "s \<le> n OR s" using up [of n s] up [of s n] by (simp_all add: or.commute)
  with o have "n < HALF_SIZE_T" "s < HALF_SIZE_T" by simp_all
  then show ?thesis by (simp_all add: HALF_SIZE_T_def word_less_nat_alt)
qed

lemma overflow_test:
  "HALF_SIZE_T \<le> (n OR s) \<and> s \<noteq> 0 \<and> (n * s) div s \<noteq> n \<longleftrightarrow> 2 ^ 64 \<le> unat n * unat (s :: u64)"
proof (cases "2 ^ 64 \<le> unat n * unat s")
  case True
  then have s: "s \<noteq> 0" by auto
  have "unat n * unat s < 2 ^ 32 * 2 ^ 32" if "unat n < 2 ^ 32" "unat s < 2 ^ 32"
    using that by (intro mult_strict_mono) auto
  with True have half: "HALF_SIZE_T \<le> (n OR s)" using or_below [of n s] by fastforce
  have "unat (n * s) < unat n * unat s"
  proof -
    have "unat (n * s) < 2 ^ LENGTH(64)" by (rule unsigned_less)
    then have "unat (n * s) < 2 ^ 64" by simp
    with True show ?thesis by (rule order_less_le_trans [rotated])
  qed
  then have "unat (n * s) div unat s < unat n" by (simp add: less_mult_imp_div_less)
  then have "(n * s) div s \<noteq> n" by (metis unat_div nat_less_le)
  with True s half show ?thesis by simp
next
  case False
  then have "unat (n * s) = unat n * unat s" by (simp add: unat_word_ariths)
  then have "(n * s) div s = n" if "s \<noteq> 0"
    using that unat_gt_0 [of s] by (intro word_unat_eq_iff [THEN iffD2]) (simp add: unat_div)
  with False show ?thesis by auto
qed

text \<open>The wrappers for one object never meet the overflow test, and ask for the size as it is.\<close>

lemma one_object: "xzalloc sz = xmalloc sz" "xrealloc sz = xmalloc sz"
proof -
  have "\<not> 2 ^ 64 \<le> unat (1 :: u64) * unat sz" using unsigned_less [of sz, where 'a = nat] by simp
  then have "\<not> (HALF_SIZE_T \<le> (1 OR sz) \<and> sz \<noteq> 0 \<and> (1 * sz) div sz \<noteq> 1)" by (simp only: overflow_test not_False_eq_True)
  then show "xrealloc sz = xmalloc sz" by (auto simp: xrealloc_def xreallocarray_def xmalloc_def Let_def)
qed (simp add: xzalloc_def xcalloc_def xmalloc_def)

lemma allocated_size:
  assumes "xreallocarray n s w = (Ret p, v)"
  shows "p \<noteq> 0 \<and> hd (map fst (trace v)) = Mi (Malloc (unat n * unat s)) \<and> unat n * unat s < 2 ^ 64"
proof (cases "2 ^ 64 \<le> unat n * unat s")
  case True
  with assms show ?thesis
    using overflow_test [of n s]
    by (simp add: xreallocarray_def die_out_of_memory_def error_msg_and_die_def seq_def bnd_def die_def c_exit_def stop_def
        split: outcome.splits prod.splits)
next
  case False
  then have "unat (n * s) = unat n * unat s" by (simp add: unat_word_ariths)
  with False assms show ?thesis
    using overflow_test [of n s]
    by (auto simp: xreallocarray_def checked_def die_out_of_memory_def error_msg_and_die_def error_msg_def
        vprint_or_log_msg_def vprint_msg_def die_def run_defs split: list.splits if_splits)
qed

text \<open>
  C37: the array allocator never returns a block smaller than the array: a product that does not fit
  64 bits ends the program, any other request is passed on with its exact size, and a null
  pointer is not returned.
\<close>

theorem xreallocarray_exact:
  "case xreallocarray n s w of
     (Ret p, v) \<Rightarrow> p \<noteq> 0 \<and> hd (map fst (trace v)) = Mi (Malloc (unat n * unat s)) \<and> unat n * unat s < 2 ^ 64
   | (Stop st, _) \<Rightarrow> if 2 ^ 64 \<le> unat n * unat s then st = Exit 1 else st \<in> {Exit 1, Blocked}"
proof (cases "xreallocarray n s w")
  case (Pair out v)
  show ?thesis
  proof (cases out)
    case (Ret p)
    with Pair allocated_size show ?thesis by simp
  next
    case (Stop st)
    with Pair show ?thesis
      using overflow_test [of n s]
      by (auto simp: xreallocarray_def checked_def die_out_of_memory_def error_msg_and_die_def error_msg_def
          vprint_or_log_msg_def vprint_msg_def die_def run_defs split: list.splits if_splits)
  qed
qed

lemma growth: "\<not> n + (drop_bit 1 n + 1) < (n :: u64) \<Longrightarrow> unat (n + (drop_bit 1 n + 1)) = unat n + unat n div 2 + 1"
proof -
  assume a: "\<not> n + (drop_bit 1 n + 1) < (n :: u64)"
  have "unat n < 2 ^ LENGTH(64)" by (rule unsigned_less)
  then have n: "unat n < 2 ^ 64" by simp
  have d: "unat (drop_bit 1 n) = unat n div 2" by (simp add: drop_bit_eq_div unat_div)
  have g: "unat (drop_bit 1 n + 1) = unat n div 2 + 1"
    using n by (simp add: unat_word_ariths d [unfolded One_nat_def])
  from a have "n \<le> n + (drop_bit 1 n + 1)" by simp
  then have "unat (n + (drop_bit 1 n + 1)) = unat n + unat (drop_bit 1 n + 1)"
    by (simp only: unat_plus_simple)
  then show ?thesis by (simp only: g)
qed

text \<open>
  An array that grows really grows: the new number of elements is one and a half times the old
  one and one more, exactly, and the block has room for all of them.
\<close>

lemma xgrowarray_grows:
  "case xgrowarray False n memb_size w of
     (Ret (p, n'), v) \<Rightarrow>
       unat n' = unat n + unat n div 2 + 1 \<and> hd (map fst (trace v)) = Mi (Malloc (unat n' * unat memb_size))
   | (Stop _, _) \<Rightarrow> True"
proof (cases "n + (drop_bit 1 n + 1) < n")
  case True
  then show ?thesis
    by (simp add: xgrowarray_def die_out_of_memory_def error_msg_and_die_def seq_def bnd_def die_def c_exit_def stop_def
        split: outcome.split prod.split)
next
  case False
  then have g: "unat (n + (drop_bit 1 n + 1)) = unat n + unat n div 2 + 1" by (rule growth)
  from False show ?thesis
    by (auto simp: xgrowarray_def Let_def bnd_def ret_def g [unfolded One_nat_def] dest: allocated_size
        split: outcome.splits prod.splits)
qed

end
